(* ===== verification/AG_Prelude.thy ===== *)
theory AG_Prelude
  imports Main "HOL-Library.Word" "HOL-Library.Char_ord" "HOL-Library.List_Lexorder"
begin

text \<open>
  Shared vocabulary of the development.  Rust's \<open>Result\<close> is the sum type with
  \<open>Err\<close> as left and \<open>Ok\<close> as right injection; the question-mark operator is
  \<open>res_bind\<close>, a \<open>for\<close> loop that may return early is \<open>try_for_each\<close>.  A Rust
  \<open>str\<close> or byte slice is its list of bytes, and a byte is a \<open>char\<close>; \<open>u32\<close> and
  \<open>u64\<close> are machine words.  \<open>BTreeMap\<close> and \<open>BTreeSet\<close> are lists kept in
  strictly ascending key order.  The locales at the end are the interfaces that
  several components share: a lifecycle with terminal states, and a ledger in
  which every key is spent at most once.
\<close>

named_theorems ag_json \<open>Serde encodings of the model's types\<close>
named_theorems ag_check \<open>sequences of guards, unfolded to their conditions\<close>

section \<open>Machine integers and text\<close>

type_synonym u32 = "32 word"
type_synonym u64 = "64 word"
type_synonym bytes = string

definition checked_add_u64 :: "u64 \<Rightarrow> u64 \<Rightarrow> u64 option" where
  "checked_add_u64 a b = (if unat a + unat b < 2 ^ 64 then Some (a + b) else None)"

lemma checked_add_u64_Some_iff:
  "checked_add_u64 a b = Some c \<longleftrightarrow> unat a + unat b < 2 ^ 64 \<and> unat c = unat a + unat b"
proof -
  have "unat (a + b) = unat a + unat b" if "unat a + unat b < 2 ^ 64"
    using that by (simp add: unat_word_ariths)
  then show ?thesis
    by (simp add: checked_add_u64_def word_unat_eq_iff eq_commute)
qed

lemma checked_add_u64_None_iff:
  "checked_add_u64 a b = None \<longleftrightarrow> 2 ^ 64 \<le> unat a + unat b"
  by (auto simp: checked_add_u64_def)

lemma unat_u64_less: "unat (w :: u64) < 2 ^ 64"
  using unsigned_less [of w] by simp

lemma of_nat_u64_iff: "n < 2 ^ 64 \<and> (of_nat n :: u64) = w \<longleftrightarrow> n = unat w"
  using unat_u64_less [of w] by (auto simp: unat_of_nat take_bit_nat_eq_self)

definition is_ascii_digit :: "char \<Rightarrow> bool" where
  "is_ascii_digit c \<longleftrightarrow> CHR ''0'' \<le> c \<and> c \<le> CHR ''9''"

definition is_ascii_lowercase :: "char \<Rightarrow> bool" where
  "is_ascii_lowercase c \<longleftrightarrow> CHR ''a'' \<le> c \<and> c \<le> CHR ''z''"

definition is_ascii_uppercase :: "char \<Rightarrow> bool" where
  "is_ascii_uppercase c \<longleftrightarrow> CHR ''A'' \<le> c \<and> c \<le> CHR ''Z''"

definition is_ascii_alphanumeric :: "char \<Rightarrow> bool" where
  "is_ascii_alphanumeric c \<longleftrightarrow>
     is_ascii_digit c \<or> is_ascii_lowercase c \<or> is_ascii_uppercase c"

definition is_ascii_control :: "char \<Rightarrow> bool" where
  "is_ascii_control c \<longleftrightarrow> c < CHR '' '' \<or> c = CHR 0x7F"

definition is_lower_hex :: "char \<Rightarrow> bool" where
  "is_lower_hex c \<longleftrightarrow> is_ascii_digit c \<or> (CHR ''a'' \<le> c \<and> c \<le> CHR ''f'')"

lemmas ascii_defs = is_ascii_digit_def is_ascii_lowercase_def is_ascii_uppercase_def
  is_ascii_alphanumeric_def is_ascii_control_def is_lower_hex_def

definition starts_with :: "string \<Rightarrow> string \<Rightarrow> bool" where
  "starts_with p s \<longleftrightarrow> take (length p) s = p"

definition ends_with :: "string \<Rightarrow> string \<Rightarrow> bool" where
  "ends_with p s \<longleftrightarrow> starts_with (rev p) (rev s)"

fun str_contains :: "string \<Rightarrow> string \<Rightarrow> bool" where
  "str_contains p [] = (p = [])"
| "str_contains p (c # s) = (starts_with p (c # s) \<or> str_contains p s)"

lemma starts_with_iff: "starts_with p s \<longleftrightarrow> (\<exists>t. s = p @ t)"
  unfolding starts_with_def by (metis append_eq_conv_conj)

lemma ends_with_iff: "ends_with p s \<longleftrightarrow> (\<exists>t. s = t @ p)"
proof
  assume "ends_with p s"
  then obtain t where "rev s = rev p @ t" by (auto simp: ends_with_def starts_with_iff)
  then have "rev (rev s) = rev (rev p @ t)" by simp
  then show "\<exists>t. s = t @ p" by auto
next
  assume "\<exists>t. s = t @ p"
  then show "ends_with p s" by (auto simp: ends_with_def starts_with_iff)
qed

lemma str_contains_iff: "str_contains p s \<longleftrightarrow> (\<exists>a b. s = a @ p @ b)"
proof (induction s)
  case Nil
  then show ?case by simp
next
  case (Cons c s)
  have "(\<exists>a b. c # s = a @ p @ b) \<longleftrightarrow>
      (\<exists>b. c # s = p @ b) \<or> (\<exists>a b. s = a @ p @ b)"
    (is "?L \<longleftrightarrow> ?R")
  proof
    assume ?L
    then obtain a b where ab: "c # s = a @ p @ b" by blast
    then show ?R by (cases a) auto
  next
    assume ?R
    then show ?L
    proof
      assume "\<exists>b. c # s = p @ b"
      then obtain b where "c # s = [] @ p @ b" by auto
      then show ?L by blast
    next
      assume "\<exists>a b. s = a @ p @ b"
      then obtain a b where "c # s = (c # a) @ p @ b" by auto
      then show ?L by blast
    qed
  qed
  then show ?case by (simp add: Cons.IH starts_with_iff)
qed

text \<open>The first element that fails a test, with its position, as \<open>char_indices().find\<close>.\<close>

fun find_index_from :: "nat \<Rightarrow> ('a \<Rightarrow> bool) \<Rightarrow> 'a list \<Rightarrow> (nat \<times> 'a) option" where
  "find_index_from i P [] = None"
| "find_index_from i P (x # xs) = (if P x then Some (i, x) else find_index_from (Suc i) P xs)"

lemma find_index_from_None_iff:
  "find_index_from i P xs = None \<longleftrightarrow> list_all (\<lambda>x. \<not> P x) xs"
  by (induction xs arbitrary: i) auto

lemma find_index_from_Some:
  "find_index_from i P xs = Some r \<Longrightarrow> \<not> list_all (\<lambda>x. \<not> P x) xs"
  using find_index_from_None_iff [of i P xs] by simp

subsection \<open>Decimal text\<close>

definition digit_char :: "nat \<Rightarrow> char" where
  "digit_char d = ''0123456789'' ! d"

definition digit_val :: "char \<Rightarrow> nat" where
  "digit_val c = of_char c - 48"

fun show_nat :: "nat \<Rightarrow> string" where
  "show_nat n = (if n < 10 then [digit_char n] else show_nat (n div 10) @ [digit_char (n mod 10)])"

declare show_nat.simps [simp del]

definition decimal_val :: "string \<Rightarrow> nat" where
  "decimal_val s = foldl (\<lambda>a c. 10 * a + digit_val c) 0 s"

text \<open>\<open>str::parse::<u64>\<close> on text that holds only digits: the value, or an overflow error.\<close>

definition parse_u64_digits :: "string \<Rightarrow> u64 option" where
  "parse_u64_digits s = (if decimal_val s < 2 ^ 64 then Some (of_nat (decimal_val s)) else None)"

lemma digit_char_sound:
  assumes "d < 10"
  shows "is_ascii_digit (digit_char d) \<and> digit_val (digit_char d) = d \<and>
    (digit_char d = CHR ''0'' \<longleftrightarrow> d = 0)"
proof -
  have "list_all (\<lambda>d. is_ascii_digit (digit_char d) \<and> digit_val (digit_char d) = d \<and>
      (digit_char d = CHR ''0'' \<longleftrightarrow> d = 0)) [0..<10]"
    by code_simp
  with assms show ?thesis by (simp only: list_all_iff set_upt) simp
qed

lemma digit_char_val:
  assumes "is_ascii_digit c"
  shows "digit_val c < 10 \<and> digit_char (digit_val c) = c"
proof -
  have "48 \<le> (of_char c :: nat)" "of_char c \<le> (57 :: nat)"
    using assms by (simp_all add: is_ascii_digit_def less_eq_char_def)
  then have lt: "digit_val c < 10" by (simp add: digit_val_def)
  have "list_all (\<lambda>d. of_char (digit_char d) = d + 48) [0..<10]" by code_simp
  with lt have "of_char (digit_char (digit_val c)) = digit_val c + 48"
    by (simp only: list_all_iff set_upt) simp
  then have "of_char (digit_char (digit_val c)) = (of_char c :: nat)"
    using \<open>48 \<le> of_char c\<close> by (simp add: digit_val_def)
  with lt show ?thesis by simp
qed

lemma decimal_val_snoc [simp]: "decimal_val (s @ [c]) = 10 * decimal_val s + digit_val c"
  by (simp add: decimal_val_def)

lemma decimal_val_Nil [simp]: "decimal_val [] = 0"
  by (simp add: decimal_val_def)

text \<open>Canonical decimal text: digits only, not empty, no leading zero.\<close>

definition canonical_decimal :: "string \<Rightarrow> bool" where
  "canonical_decimal s \<longleftrightarrow> s \<noteq> [] \<and> list_all is_ascii_digit s \<and>
     \<not> (length s > 1 \<and> hd s = CHR ''0'')"

lemma show_nat_nonempty [simp]: "show_nat n \<noteq> []"
  by (subst show_nat.simps) simp

lemma show_nat_hd: "hd (show_nat n) = CHR ''0'' \<longleftrightarrow> n = 0"
proof (induction n rule: show_nat.induct)
  case (1 n)
  show ?case
  proof (cases "n < 10")
    case True
    then show ?thesis by (subst show_nat.simps) (simp add: digit_char_sound)
  next
    case False
    then have "hd (show_nat n) = hd (show_nat (n div 10))" by (subst show_nat.simps) simp
    with 1 False show ?thesis by (simp add: div_eq_0_iff)
  qed
qed

lemma show_nat_sound: "decimal_val (show_nat n) = n \<and> list_all is_ascii_digit (show_nat n)"
proof (induction n rule: show_nat.induct)
  case (1 n)
  show ?case
  proof (cases "n < 10")
    case True
    then have "show_nat n = [] @ [digit_char n]" by (subst show_nat.simps) simp
    with True show ?thesis by (simp only: decimal_val_snoc) (simp add: digit_char_sound)
  next
    case False
    then have "show_nat n = show_nat (n div 10) @ [digit_char (n mod 10)]"
      by (subst show_nat.simps) simp
    with 1 False show ?thesis by (simp add: digit_char_sound)
  qed
qed

lemma show_nat_canonical: "canonical_decimal (show_nat n)"
proof (cases "n = 0")
  case True
  then show ?thesis
    by (subst show_nat.simps) (simp add: canonical_decimal_def digit_char_sound)
next
  case False
  then show ?thesis by (simp add: canonical_decimal_def show_nat_sound show_nat_hd)
qed

lemma decimal_val_pos:
  "list_all is_ascii_digit s \<Longrightarrow> s \<noteq> [] \<Longrightarrow> hd s \<noteq> CHR ''0'' \<Longrightarrow> 0 < decimal_val s"
proof (induction s rule: rev_induct)
  case Nil
  then show ?case by simp
next
  case (snoc c s)
  show ?case
  proof (cases "s = []")
    case True
    with snoc.prems have "digit_val c \<noteq> 0"
      using digit_char_val [of c] digit_char_sound [of "digit_val c"] by auto
    with True show ?thesis by (simp add: decimal_val_def)
  next
    case False
    with snoc show ?thesis by simp
  qed
qed

lemma show_decimal_val: "canonical_decimal s \<Longrightarrow> show_nat (decimal_val s) = s"
proof (induction s rule: rev_induct)
  case Nil
  then show ?case by (simp add: canonical_decimal_def)
next
  case (snoc c s)
  have c: "digit_val c < 10" "digit_char (digit_val c) = c"
    using snoc.prems digit_char_val [of c] by (simp_all add: canonical_decimal_def)
  show ?case
  proof (cases "s = []")
    case True
    with c show ?thesis by (subst show_nat.simps) (simp add: decimal_val_def)
  next
    case False
    with snoc.prems have s: "list_all is_ascii_digit s" "hd s \<noteq> CHR ''0''"
      by (auto simp: canonical_decimal_def)
    with False have can: "canonical_decimal s" by (simp add: canonical_decimal_def)
    have "0 < decimal_val s" using decimal_val_pos s False by blast
    then have "show_nat (10 * decimal_val s + digit_val c) = show_nat (decimal_val s) @ [c]"
      using c by (subst show_nat.simps) simp
    with snoc.IH [OF can] show ?thesis by simp
  qed
qed

lemma decimal_roundtrip: "canonical_decimal s \<and> decimal_val s = n \<longleftrightarrow> s = show_nat n"
  using show_decimal_val show_nat_canonical show_nat_sound by metis

subsection \<open>Searching lists by a key\<close>

lemma find_unique:
  assumes "distinct (map f xs)" and "x \<in> set xs"
  shows "find (\<lambda>y. f y = f x) xs = Some x"
  using assms by (induction xs) (auto simp: image_iff)

lemma filter_unique:
  assumes "distinct (map f xs)" and "x \<in> set xs"
  shows "filter (\<lambda>y. f y = f x) xs = [x]"
  using assms by (induction xs) (auto simp: image_iff filter_empty_conv)

lemma find_of_filter: "filter P xs = y # ys \<Longrightarrow> find P xs = Some y"
  by (induction xs) (auto split: if_splits)

lemma list_ex_key: "list_ex (\<lambda>y. f y = k) xs \<longleftrightarrow> k \<in> f ` set xs"
  unfolding list_ex_iff image_iff by metis

section \<open>Results\<close>

abbreviation (input) Err :: "'e \<Rightarrow> 'e + 'a" where "Err \<equiv> Inl"
abbreviation (input) Ok :: "'a \<Rightarrow> 'e + 'a" where "Ok \<equiv> Inr"

definition res_bind :: "'e + 'a \<Rightarrow> ('a \<Rightarrow> 'e + 'b) \<Rightarrow> 'e + 'b" where
  "res_bind r f = (case r of Inl e \<Rightarrow> Inl e | Inr x \<Rightarrow> f x)"

definition map_err :: "('e \<Rightarrow> 'f) \<Rightarrow> 'e + 'a \<Rightarrow> 'f + 'a" where
  "map_err g r = (case r of Inl e \<Rightarrow> Inl (g e) | Inr x \<Rightarrow> Inr x)"

definition ok_or :: "'e \<Rightarrow> 'a option \<Rightarrow> 'e + 'a" where
  "ok_or e v = (case v of None \<Rightarrow> Inl e | Some x \<Rightarrow> Inr x)"

definition is_ok :: "'e + 'a \<Rightarrow> bool" where
  "is_ok r = (case r of Inl _ \<Rightarrow> False | Inr _ \<Rightarrow> True)"

fun try_for_each :: "('a \<Rightarrow> 'e + unit) \<Rightarrow> 'a list \<Rightarrow> 'e + unit" where
  "try_for_each f [] = Inr ()"
| "try_for_each f (x # xs) = res_bind (f x) (\<lambda>_. try_for_each f xs)"

fun try_map :: "('a \<Rightarrow> 'e + 'b) \<Rightarrow> 'a list \<Rightarrow> 'e + 'b list" where
  "try_map f [] = Inr []"
| "try_map f (x # xs) =
     res_bind (f x) (\<lambda>y. res_bind (try_map f xs) (\<lambda>ys. Inr (y # ys)))"

lemma res_bind_simps [simp]:
  "res_bind (Inl e) f = Inl e" "res_bind (Inr x) f = f x"
  by (simp_all add: res_bind_def)

lemma map_err_simps [simp]:
  "map_err g (Inl e) = Inl (g e)" "map_err g (Inr x) = Inr x"
  by (simp_all add: map_err_def)

lemma ok_or_simps [simp]: "ok_or e None = Inl e" "ok_or e (Some x) = Inr x"
  by (simp_all add: ok_or_def)

lemma is_ok_simps [simp]: "\<not> is_ok (Inl e)" "is_ok (Inr x)"
  by (simp_all add: is_ok_def)

lemma is_ok_bind: "is_ok (res_bind r f) \<longleftrightarrow> (\<exists>x. r = Inr x \<and> is_ok (f x))"
  by (cases r) simp_all

lemma res_bind_Inr_iff [ag_check]:
  "res_bind r f = Inr y \<longleftrightarrow> (\<exists>x. r = Inr x \<and> f x = Inr y)"
  by (cases r) auto

lemma map_err_Inr_iff [ag_check]: "map_err g r = Inr x \<longleftrightarrow> r = Inr x"
  by (cases r) auto

lemma ok_or_Inr_iff [ag_check]: "ok_or e v = Inr x \<longleftrightarrow> v = Some x"
  by (cases v) auto

lemma is_ok_iff: "is_ok r \<longleftrightarrow> (\<exists>x. r = Inr x)"
  by (cases r) auto

lemma guard_Inr_iff [ag_check]: "(if c then Inl e else r) = Inr x \<longleftrightarrow> \<not> c \<and> r = Inr x"
  by simp

lemma guard_Some_Inr_iff [ag_check]:
  "(if c then Some (Inl e) else r) = Some (Inr x) \<longleftrightarrow> \<not> c \<and> r = Some (Inr x)"
  by simp

lemma try_for_each_Inr_iff [ag_check]:
  "try_for_each f xs = Inr () \<longleftrightarrow> (\<forall>x \<in> set xs. f x = Inr ())"
  by (induction xs) (auto simp: ag_check)

lemma try_map_Inr_iff:
  "try_map f xs = Inr ys \<longleftrightarrow> list_all2 (\<lambda>x y. f x = Inr y) xs ys"
  by (induction xs arbitrary: ys) (auto simp: ag_check list_all2_Cons1)

section \<open>Ordered maps and sets of the standard library\<close>

type_synonym ('k, 'v) btree_map = "('k \<times> 'v) list"
type_synonym 'k btree_set = "'k list"

definition bt_wf :: "('k::linorder, 'v) btree_map \<Rightarrow> bool" where
  "bt_wf m \<longleftrightarrow> sorted_wrt (<) (map fst m)"

abbreviation bt_get :: "('k, 'v) btree_map \<Rightarrow> 'k \<Rightarrow> 'v option" where
  "bt_get \<equiv> map_of"

fun bt_insert :: "'k::linorder \<Rightarrow> 'v \<Rightarrow> ('k, 'v) btree_map \<Rightarrow> ('k, 'v) btree_map" where
  "bt_insert k v [] = [(k, v)]"
| "bt_insert k v ((k', v') # m) =
     (if k < k' then (k, v) # (k', v') # m
      else if k = k' then (k, v) # m
      else (k', v') # bt_insert k v m)"

fun bs_insert :: "'k::linorder \<Rightarrow> 'k btree_set \<Rightarrow> 'k btree_set" where
  "bs_insert k [] = [k]"
| "bs_insert k (k' # s) =
     (if k < k' then k # k' # s else if k = k' then k' # s else k' # bs_insert k s)"

definition bs_collect :: "'k::linorder list \<Rightarrow> 'k btree_set" where
  "bs_collect xs = foldl (\<lambda>s x. bs_insert x s) [] xs"

lemma bt_get_insert [simp]: "bt_get (bt_insert k v m) = (bt_get m)(k \<mapsto> v)"
  by (induction k v m rule: bt_insert.induct) auto

lemma fst_set_bt_insert: "fst ` set (bt_insert k v m) = insert k (fst ` set m)"
  by (induction k v m rule: bt_insert.induct) auto

lemma bt_wf_insert: "bt_wf m \<Longrightarrow> bt_wf (bt_insert k v m)"
proof (induction k v m rule: bt_insert.induct)
  case (1 k v)
  then show ?case by (simp add: bt_wf_def)
next
  case (2 k v k' v' m)
  have tl: "bt_wf m" using "2.prems" by (simp add: bt_wf_def)
  have keys: "set (map fst (bt_insert k v m)) = insert k (set (map fst m))"
    using fst_set_bt_insert [of k v m] by simp
  show ?case
    using "2.prems" "2.IH" tl keys by (auto simp: bt_wf_def)
qed

lemma set_bs_insert [simp]: "set (bs_insert k s) = insert k (set s)"
  by (induction k s rule: bs_insert.induct) auto

lemma set_bs_collect [simp]: "set (bs_collect xs) = set xs"
proof -
  have "set (foldl (\<lambda>s x. bs_insert x s) acc xs) = set acc \<union> set xs" for acc
    by (induction xs arbitrary: acc) auto
  then show ?thesis by (simp add: bs_collect_def)
qed

lemma sorted_bs_insert: "sorted_wrt (<) s \<Longrightarrow> sorted_wrt (<) (bs_insert k s)"
  by (induction k s rule: bs_insert.induct) auto

lemma sorted_bs_collect: "sorted_wrt (<) (bs_collect xs)"
proof -
  have "sorted_wrt (<) acc \<Longrightarrow> sorted_wrt (<) (foldl (\<lambda>s x. bs_insert x s) acc xs)" for acc
    by (induction xs arbitrary: acc) (auto intro: sorted_bs_insert)
  then show ?thesis by (simp add: bs_collect_def)
qed

text \<open>Two ordered sets are equal exactly when they have the same elements.\<close>

lemma bs_eq_iff:
  fixes s t :: "'k::linorder btree_set"
  assumes "sorted_wrt (<) s" and "sorted_wrt (<) t"
  shows "s = t \<longleftrightarrow> set s = set t"
  using strict_sorted_equal [OF assms] by auto

section \<open>Runs of a lifecycle\<close>

fun run_events :: "('s \<Rightarrow> 'ev \<Rightarrow> 'err + 's) \<Rightarrow> 's \<Rightarrow> 'ev list \<Rightarrow> 'err + 's" where
  "run_events step s [] = Inr s"
| "run_events step s (e # es) = res_bind (step s e) (\<lambda>s'. run_events step s' es)"

lemma run_events_append:
  "run_events step s (es @ fs) = res_bind (run_events step s es) (\<lambda>t. run_events step t fs)"
proof (induction es arbitrary: s)
  case Nil
  then show ?case by simp
next
  case (Cons e es)
  then show ?case by (cases "step s e") simp_all
qed

lemma run_events_last:
  "run_events step s es = Inr t \<longleftrightarrow>
     es = [] \<and> t = s \<or> (\<exists>fs e u. es = fs @ [e] \<and> run_events step s fs = Inr u \<and> step u e = Inr t)"
  by (cases es rule: rev_cases) (auto simp: run_events_append ag_check)

lemma run_events_invariant:
  assumes "run_events step s es = Inr t" and "I s"
    and "\<And>s e s'. I s \<Longrightarrow> step s e = Inr s' \<Longrightarrow> I s'"
  shows "I t"
  using assms(1,2)
proof (induction es arbitrary: s)
  case Nil
  then show ?case by simp
next
  case (Cons e es)
  from Cons.prems(1) obtain s' where s': "step s e = Inr s'" and t: "run_events step s' es = Inr t"
    by (auto simp: ag_check)
  from t assms(3) [OF Cons.prems(2) s'] show ?case by (rule Cons.IH)
qed

locale lifecycle =
  fixes step :: "'s \<Rightarrow> 'ev \<Rightarrow> 'err + 's"
    and terminal :: "'s \<Rightarrow> bool"
  assumes terminal_stuck: "terminal s \<Longrightarrow> \<not> is_ok (step s e)"
begin

lemma terminal_no_step: "terminal s \<Longrightarrow> step s e \<noteq> Inr s'"
  using terminal_stuck [of s e] by auto

lemma terminal_run_empty: "terminal s \<Longrightarrow> run_events step s es = Inr t \<Longrightarrow> es = [] \<and> t = s"
  by (cases es) (auto simp: ag_check terminal_no_step)

lemma nothing_after_terminal:
  assumes "run_events step s (es @ fs) = Inr t" and "run_events step s es = Inr m" and "terminal m"
  shows "fs = [] \<and> t = m"
  using assms terminal_run_empty by (simp add: run_events_append)

end

text \<open>
  A sharper interface: every step moves to a strictly later rank, so no run is longer than
  the largest rank, and an event whose rank window has passed can never be accepted again.
\<close>

locale ranked_lifecycle = lifecycle step terminal
  for step :: "'s \<Rightarrow> 'ev \<Rightarrow> 'err + 's" and terminal :: "'s \<Rightarrow> bool" +
  fixes rank :: "'s \<Rightarrow> nat"
    and top_rank :: nat
  assumes step_rank: "step s e = Inr s' \<Longrightarrow> rank s < rank s'"
    and rank_bound: "rank s \<le> top_rank"
begin

lemma run_rank: "run_events step s es = Inr t \<Longrightarrow> rank s + length es \<le> rank t"
proof (induction es arbitrary: s)
  case Nil
  then show ?case by simp
next
  case (Cons e es)
  from Cons.prems obtain s' where s': "step s e = Inr s'" and t: "run_events step s' es = Inr t"
    by (auto simp: ag_check)
  from Cons.IH [OF t] step_rank [OF s'] show ?case by simp
qed

lemma run_length_bound: "run_events step s es = Inr t \<Longrightarrow> length es \<le> top_rank"
  using run_rank [of s es t] rank_bound [of t] by linarith

lemma events_once:
  assumes "run_events step s es = Inr t" and "\<And>u e v. P e \<Longrightarrow> step u e = Inr v \<Longrightarrow> rank u = r"
  shows "length (filter P es) \<le> 1"
  using assms(1)
proof (induction es arbitrary: s)
  case Nil
  then show ?case by simp
next
  case (Cons x xs)
  from Cons.prems obtain s' where s': "step s x = Inr s'" and t: "run_events step s' xs = Inr t"
    by (auto simp: ag_check)
  show ?case
  proof (cases "P x")
    case False
    with Cons.IH [OF t] show ?thesis by simp
  next
    case True
    have "\<not> P e" if e: "e \<in> set xs" for e
    proof
      assume "P e"
      from e obtain as bs where xs: "xs = as @ e # bs" by (auto dest: split_list)
      with t obtain u v where u: "run_events step s' as = Inr u" and v: "step u e = Inr v"
        by (auto simp: run_events_append ag_check)
      have "rank s = r" "rank u = r" using assms(2) True \<open>P e\<close> s' v by auto
      with run_rank [OF u] step_rank [OF s'] show False by simp
    qed
    then have "filter P xs = []" by (simp add: filter_empty_conv)
    with True show ?thesis by simp
  qed
qed

end

section \<open>One-use ledgers\<close>

text \<open>
  A ledger with an operation that spends a key: the result and the ledger after the call.
  The interface asks that a successful call found the key unspent and leaves it spent, and that
  nothing spent is ever forgotten; a failed call may or may not burn its key.
\<close>

fun consume_all ::
  "('l \<Rightarrow> 'req \<Rightarrow> ('err + 'r) \<times> 'l) \<Rightarrow> 'l \<Rightarrow> 'req list \<Rightarrow> ('err + 'r) list \<times> 'l" where
  "consume_all f l [] = ([], l)"
| "consume_all f l (q # qs) =
     (let (r, l') = f l q; (rs, l'') = consume_all f l' qs in (r # rs, l''))"

text \<open>The keys of the calls of a sequence that succeed, in order.\<close>

definition granted ::
  "('l \<Rightarrow> 'req \<Rightarrow> ('err + 'r) \<times> 'l) \<Rightarrow> ('req \<Rightarrow> 'k) \<Rightarrow> 'l \<Rightarrow> 'req list \<Rightarrow> 'k list" where
  "granted f key l qs = map (key \<circ> fst) (filter (is_ok \<circ> snd) (zip qs (fst (consume_all f l qs))))"

lemma granted_Cons:
  "f l q = (r, l') \<Longrightarrow>
     granted f key l (q # qs) = (if is_ok r then [key q] else []) @ granted f key l' qs"
  by (simp add: granted_def case_prod_unfold Let_def)

lemma consume_all_invariant:
  assumes "I l" and "\<And>l q. I l \<Longrightarrow> I (snd (f l q))"
  shows "I (snd (consume_all f l qs))"
  using assms(1)
proof (induction qs arbitrary: l)
  case Nil
  then show ?case by simp
next
  case (Cons q qs)
  from Cons.IH [OF assms(2) [OF Cons.prems]] show ?case by (simp add: case_prod_unfold Let_def)
qed

locale burning_ledger =
  fixes consume :: "'l \<Rightarrow> 'req \<Rightarrow> ('err + 'r) \<times> 'l"
    and key :: "'req \<Rightarrow> 'k"
    and spent :: "'l \<Rightarrow> 'k set"
  assumes burn_ok: "consume l q = (Inr r, l') \<Longrightarrow> key q \<notin> spent l \<and> key q \<in> spent l'"
    and burn_mono: "consume l q = (x, l') \<Longrightarrow> spent l \<subseteq> spent l'"
begin

lemma spent_mono: "spent l \<subseteq> spent (snd (consume l q))"
  using burn_mono [of l q] by (cases "consume l q") auto

lemma spent_refused: "key q \<in> spent l \<Longrightarrow> \<not> is_ok (fst (consume l q))"
  by (cases "consume l q"; cases "fst (consume l q)") (auto dest: burn_ok)

lemma consume_all_spent_mono: "spent l \<subseteq> spent (snd (consume_all consume l qs))"
proof (induction qs arbitrary: l)
  case Nil
  then show ?case by simp
next
  case (Cons q qs)
  have "spent l \<subseteq> spent (snd (consume l q))" by (rule spent_mono)
  also have "\<dots> \<subseteq> spent (snd (consume_all consume (snd (consume l q)) qs))" by (rule Cons.IH)
  finally show ?case by (simp add: case_prod_unfold Let_def)
qed

lemma spent_stays_refused:
  assumes "key q \<in> spent l"
  shows "\<not> is_ok (fst (consume (snd (consume_all consume l qs)) q))"
  by (rule spent_refused) (use assms consume_all_spent_mono [of l qs] in blast)

text \<open>The keys of the successful calls of a sequence are fresh, and pairwise distinct.\<close>

lemma granted_fresh: "k \<in> set (granted consume key l qs) \<Longrightarrow> k \<notin> spent l"
proof (induction qs arbitrary: l)
  case Nil
  then show ?case by (simp add: granted_def)
next
  case (Cons q qs)
  obtain r l' where c: "consume l q = (r, l')" by fastforce
  show ?case
  proof (cases "k \<in> set (granted consume key l' qs)")
    case True
    then have "k \<notin> spent l'" by (rule Cons.IH)
    with burn_mono [OF c] show ?thesis by auto
  next
    case False
    with Cons.prems c have "is_ok r" "k = key q" by (auto simp: granted_Cons split: if_splits)
    with c burn_ok show ?thesis by (auto simp: is_ok_iff)
  qed
qed

lemma granted_distinct: "distinct (granted consume key l qs)"
proof (induction qs arbitrary: l)
  case Nil
  then show ?case by (simp add: granted_def)
next
  case (Cons q qs)
  obtain r l' where c: "consume l q = (r, l')" by fastforce
  have "is_ok r \<Longrightarrow> key q \<notin> set (granted consume key l' qs)"
    using c burn_ok granted_fresh [of "key q" l' qs] by (auto simp: is_ok_iff)
  with Cons.IH [of l'] show ?case by (simp add: granted_Cons [of consume, OF c])
qed

lemma granted_spent: "set (granted consume key l qs) \<subseteq> spent (snd (consume_all consume l qs))"
proof (induction qs arbitrary: l)
  case Nil
  then show ?case by (simp add: granted_def)
next
  case (Cons q qs)
  obtain r l' where c: "consume l q = (r, l')" by fastforce
  have "is_ok r \<Longrightarrow> key q \<in> spent (snd (consume_all consume l' qs))"
    using c burn_ok consume_all_spent_mono [of l' qs] by (auto simp: is_ok_iff)
  with Cons.IH [of l'] c show ?case by (auto simp: granted_Cons [of consume, OF c] Let_def case_prod_unfold)
qed

end

text \<open>A ledger that spends nothing but the keys of successful calls.\<close>

locale one_use_ledger = burning_ledger consume key spent
  for consume :: "'l \<Rightarrow> 'req \<Rightarrow> ('err + 'r) \<times> 'l" and key :: "'req \<Rightarrow> 'k"
    and spent :: "'l \<Rightarrow> 'k set" +
  assumes spent_exact:
    "consume l q = (r, l') \<Longrightarrow> spent l' \<subseteq> (if is_ok r then insert (key q) (spent l) else spent l)"
begin

lemma consume_all_spent:
  "spent (snd (consume_all consume l qs)) = spent l \<union> set (granted consume key l qs)"
proof
  show "spent (snd (consume_all consume l qs)) \<subseteq> spent l \<union> set (granted consume key l qs)"
  proof (induction qs arbitrary: l)
    case Nil
    then show ?case by (simp add: granted_def)
  next
    case (Cons q qs)
    obtain r l' where c: "consume l q = (r, l')" by fastforce
    from Cons.IH [of l'] spent_exact [OF c] c show ?case
      by (auto simp: granted_Cons [of consume, OF c] case_prod_unfold Let_def split: if_splits)
  qed
qed (use consume_all_spent_mono granted_spent in blast)

end

text \<open>
  A metered ledger: a call that succeeds found its meter below the limit and advanced it, and no
  call turns a meter back.
\<close>

locale metered_ledger =
  fixes consume :: "'l \<Rightarrow> 'req \<Rightarrow> ('err + 'r) \<times> 'l"
    and meter :: "'req \<Rightarrow> 'm"
    and used :: "'l \<Rightarrow> 'm \<Rightarrow> nat"
    and limit :: "'m \<Rightarrow> nat"
  assumes meter_ok: "consume l q = (Inr r, l') \<Longrightarrow>
      used l (meter q) < limit (meter q) \<and> used l (meter q) < used l' (meter q)"
    and meter_mono: "consume l q = (x, l') \<Longrightarrow> used l m \<le> used l' m"
begin

lemma granted_metered: "count_list (granted consume meter l qs) m \<le> limit m - used l m"
proof (induction qs arbitrary: l)
  case Nil
  then show ?case by (simp add: granted_def)
next
  case (Cons q qs)
  obtain x l' where c: "consume l q = (x, l')" by fastforce
  have "used l m < limit m \<and> used l m < used l' m" if "is_ok x" "meter q = m"
    using that c meter_ok [of l q _ l'] by (auto simp: is_ok_iff)
  with Cons.IH [of l'] meter_mono [OF c, of m] show ?case
    by (cases "is_ok x"; cases "meter q = m") (auto simp: granted_Cons [of consume, OF c])
qed

end

end
