(* ===== verification/AG_Digest.thy ===== *)
theory AG_Digest
  imports AG_Prelude
begin

text \<open>
  \<open>crates/ag-primitives/src/digest.rs\<close>: algorithm-qualified SHA-256 digests, domain-separated
  hashing, and the strict integer-only JSON policy behind every canonical document.

  SHA-256, the hexadecimal codec, the JSON tokenizer and the RFC 8785 printer are third-party
  crates; they are the fields of the record \<open>env\<close>, an argument of every definition that reaches
  them.  \<open>codec_ok\<close> states the documented behaviour of the two byte codecs.  A value handed to
  the printer is the JSON tree its Serde implementation emits.
\<close>

section \<open>JSON trees and the third-party codecs\<close>

datatype json =
    JNull
  | JBool bool
  | JNum int
  | JFloat u64
  | JStr string
  | JArr "json list"
  | JObj "(string \<times> json) list"

record env =
  env_sha256 :: "bytes \<Rightarrow> bytes"
  env_hex_encode :: "bytes \<Rightarrow> string"
  env_hex_decode :: "string \<Rightarrow> bytes option"
  env_jcs_to_vec :: "json \<Rightarrow> string + bytes"
  env_json_tree :: "bytes \<Rightarrow> string + json"

definition codec_ok :: "env \<Rightarrow> bool" where
  "codec_ok E \<longleftrightarrow>
     (\<forall>b. length (env_sha256 E b) = 32) \<and>
     (\<forall>b. length (env_hex_encode E b) = 2 * length b) \<and>
     (\<forall>b. list_all is_lower_hex (env_hex_encode E b)) \<and>
     (\<forall>b. env_hex_decode E (env_hex_encode E b) = Some b) \<and>
     (\<forall>s. even (length s) \<longrightarrow> list_all is_lower_hex s \<longrightarrow>
        (\<exists>b. env_hex_decode E s = Some b \<and> 2 * length b = length s))"

lemma decode_total:
  assumes "codec_ok E" and "length h = 64" and "list_all is_lower_hex h"
  obtains b where "env_hex_decode E h = Some b" and "length b = 32"
proof -
  from assms(1) have "\<forall>s. even (length s) \<longrightarrow> list_all is_lower_hex s \<longrightarrow>
      (\<exists>b. env_hex_decode E s = Some b \<and> 2 * length b = length s)"
    by (simp add: codec_ok_def)
  with assms(2,3) obtain b where "env_hex_decode E h = Some b" "2 * length b = length h"
    by (metis even_numeral)
  with assms(2) that show thesis by simp
qed

section \<open>Digests\<close>

datatype digest = Digest (as_str: string)

instantiation digest :: linorder
begin

definition less_eq_digest :: "digest \<Rightarrow> digest \<Rightarrow> bool" where
  "less_eq_digest a b \<longleftrightarrow> as_str a \<le> as_str b"

definition less_digest :: "digest \<Rightarrow> digest \<Rightarrow> bool" where
  "less_digest a b \<longleftrightarrow> as_str a < as_str b"

instance
  by standard (auto simp: less_eq_digest_def less_digest_def intro: digest.expand)

end

datatype digest_parse_error =
    DigestLength nat
  | DigestAlgorithm
  | DigestHex nat char
  | DigestInternalHexInvariant

definition sha256_prefix :: string where "sha256_prefix = ''sha256:''"

definition hash_bytes :: "env \<Rightarrow> bytes \<Rightarrow> digest" where
  "hash_bytes E b = Digest (sha256_prefix @ env_hex_encode E (env_sha256 E b))"

definition of_bytes :: "env \<Rightarrow> bytes \<Rightarrow> digest" where
  "of_bytes E b = hash_bytes E b"

fun be_bytes :: "nat \<Rightarrow> nat \<Rightarrow> bytes" where
  "be_bytes 0 n = []"
| "be_bytes (Suc k) n = be_bytes k (n div 256) @ [char_of (n mod 256)]"

definition u128_be :: "nat \<Rightarrow> bytes" where
  "u128_be n = be_bytes 16 n"

definition domain_tag :: bytes where
  "domain_tag = ''ag-ng'' @ [CHR 0x00] @ ''digest'' @ [CHR 0x00] @ ''v1'' @ [CHR 0x00]"

definition domain_preimage :: "string \<Rightarrow> bytes \<Rightarrow> bytes" where
  "domain_preimage domain payload =
     domain_tag @ u128_be (length domain) @ domain @ u128_be (length payload) @ payload"

definition hash_domain :: "env \<Rightarrow> string \<Rightarrow> bytes \<Rightarrow> digest" where
  "hash_domain E domain payload =
     Digest (sha256_prefix @ env_hex_encode E (env_sha256 E (domain_preimage domain payload)))"

definition digest_from_str :: "env \<Rightarrow> string \<Rightarrow> digest_parse_error + digest" where
  "digest_from_str E value =
     (if length value \<noteq> 71 then Err (DigestLength (length value))
      else if \<not> starts_with sha256_prefix value then Err DigestAlgorithm
      else
        let encoded = drop (length sha256_prefix) value in
        case find_index_from 0 (\<lambda>c. \<not> is_lower_hex c) encoded of
          Some (i, c) \<Rightarrow> Err (DigestHex i c)
        | None \<Rightarrow>
            (case env_hex_decode E encoded of
               Some raw \<Rightarrow> if length raw = 32 then Ok (Digest value) else Err DigestInternalHexInvariant
             | None \<Rightarrow> Err DigestInternalHexInvariant))"

text \<open>\<open>raw_bytes\<close> panics where the decoder fails; the panic is \<open>None\<close>.\<close>

definition raw_bytes :: "env \<Rightarrow> digest \<Rightarrow> bytes option" where
  "raw_bytes E d =
     (case env_hex_decode E (drop (length sha256_prefix) (as_str d)) of
        Some raw \<Rightarrow> if length raw = 32 then Some raw else None
      | None \<Rightarrow> None)"

definition digest_json :: "digest \<Rightarrow> json" where
  "digest_json d = JStr (as_str d)"

definition digest_deserialize :: "env \<Rightarrow> json \<Rightarrow> string + digest" where
  "digest_deserialize E j =
     (case j of
        JStr s \<Rightarrow> map_err (\<lambda>_. ''invalid digest'') (digest_from_str E s)
      | _ \<Rightarrow> Err ''expected a canonical sha256:<64 lowercase hex> digest'')"

text \<open>\<open>digest_text\<close>: the exact text form that every constructor establishes.\<close>

definition digest_text :: "string \<Rightarrow> bool" where
  "digest_text s \<longleftrightarrow> (\<exists>h. s = sha256_prefix @ h \<and> length h = 64 \<and> list_all is_lower_hex h)"

lemma sha256_prefix_length [simp]: "length sha256_prefix = 7"
  by (simp add: sha256_prefix_def)

lemma hash_bytes_text: "codec_ok E \<Longrightarrow> digest_text (as_str (hash_bytes E b))"
  by (simp add: codec_ok_def hash_bytes_def digest_text_def)

lemma hash_domain_text: "codec_ok E \<Longrightarrow> digest_text (as_str (hash_domain E d b))"
  by (simp add: codec_ok_def hash_domain_def digest_text_def)

lemma hash_domain_eq: "hash_domain E d p = hash_bytes E (domain_preimage d p)"
  by (simp add: hash_domain_def hash_bytes_def)

lemma be_bytes_length [simp]: "length (be_bytes k n) = k"
  by (induction k arbitrary: n) simp_all

lemma be_bytes_inject:
  assumes "m < 256 ^ k" and "n < 256 ^ k" and "be_bytes k m = be_bytes k n"
  shows "m = n"
  using assms
proof (induction k arbitrary: m n)
  case 0
  then show ?case by simp
next
  case (Suc k)
  have "m div 256 = n div 256"
  proof (rule Suc.IH)
    show "m div 256 < 256 ^ k" "n div 256 < 256 ^ k"
      using Suc.prems(1,2) by (simp_all add: less_mult_imp_div_less mult.commute)
    show "be_bytes k (m div 256) = be_bytes k (n div 256)"
      using Suc.prems(3) by simp
  qed
  moreover have "char_of (m mod 256) = (char_of (n mod 256) :: char)"
    using Suc.prems(3) by (simp only: be_bytes.simps append1_eq_conv)
  then have "of_char (char_of (m mod 256)) = (of_char (char_of (n mod 256)) :: nat)"
    by (rule arg_cong)
  then have "m mod 256 = n mod 256" by (simp only: of_char_of mod_mod_trivial)
  ultimately show ?case by (metis div_mult_mod_eq)
qed

lemma domain_preimage_inject:
  assumes "length d < 2 ^ 128" "length d' < 2 ^ 128"
    and "domain_preimage d p = domain_preimage d' p'"
  shows "d = d' \<and> p = p'"
proof -
  from assms(3) have "u128_be (length d) @ d @ u128_be (length p) @ p =
      u128_be (length d') @ d' @ u128_be (length p') @ p'"
    by (simp add: domain_preimage_def)
  then have len: "u128_be (length d) = u128_be (length d')"
    and rest: "d @ u128_be (length p) @ p = d' @ u128_be (length p') @ p'"
    by (simp_all add: u128_be_def)
  from len assms(1,2) have "length d = length d'"
    by (auto simp: u128_be_def dest: be_bytes_inject [rotated 2])
  with rest show ?thesis by (simp add: u128_be_def)
qed

lemma digest_text_iff:
  "digest_text s \<longleftrightarrow> length s = 71 \<and> starts_with sha256_prefix s \<and>
     list_all is_lower_hex (drop (length sha256_prefix) s)"
  by (auto simp: digest_text_def starts_with_iff)

lemma raw_bytes_hash: "codec_ok E \<Longrightarrow> raw_bytes E (hash_bytes E b) = Some (env_sha256 E b)"
  by (simp add: raw_bytes_def hash_bytes_def codec_ok_def)

lemma hash_domain_inject:
  assumes "codec_ok E" and "length d < 2 ^ 128" and "length d' < 2 ^ 128"
    and "inj_on (env_sha256 E) {domain_preimage d p, domain_preimage d' p'}"
    and "hash_domain E d p = hash_domain E d' p'"
  shows "d = d' \<and> p = p'"
proof -
  from assms(5) have "raw_bytes E (hash_domain E d p) = raw_bytes E (hash_domain E d' p')" by simp
  then have "env_sha256 E (domain_preimage d p) = env_sha256 E (domain_preimage d' p')"
    by (simp add: hash_domain_eq raw_bytes_hash assms(1))
  then have "domain_preimage d p = domain_preimage d' p'"
    by (rule inj_onD [OF assms(4)]) simp_all
  then show ?thesis by (rule domain_preimage_inject [OF assms(2,3)])
qed

section \<open>The strict JSON policy\<close>

datatype jcs_error =
    JcsParse string
  | JcsSerialization string
  | JcsDeserialization string
  | JcsNotCanonical

function (sequential)
  strict_value :: "json \<Rightarrow> string + json" and
  strict_seq :: "json list \<Rightarrow> string + json list" and
  strict_map :: "string list \<Rightarrow> (string, json) btree_map \<Rightarrow> (string \<times> json) list
    \<Rightarrow> string + (string, json) btree_map"
where
  "strict_value JNull = Ok JNull"
| "strict_value (JBool b) = Ok (JBool b)"
| "strict_value (JNum n) = Ok (JNum n)"
| "strict_value (JFloat f) = Err ''floating-point JSON values are forbidden''"
| "strict_value (JStr s) = Ok (JStr s)"
| "strict_value (JArr vs) = res_bind (strict_seq vs) (\<lambda>ws. Ok (JArr ws))"
| "strict_value (JObj ms) = res_bind (strict_map [] [] ms) (\<lambda>ws. Ok (JObj ws))"
| "strict_seq [] = Ok []"
| "strict_seq (v # vs) =
     res_bind (strict_value v) (\<lambda>w. res_bind (strict_seq vs) (\<lambda>ws. Ok (w # ws)))"
| "strict_map keys vals [] = Ok vals"
| "strict_map keys vals ((k, v) # ms) =
     (if k \<in> set keys then Err ''duplicate JSON object key''
      else res_bind (strict_value v) (\<lambda>w. strict_map (k # keys) (bt_insert k w vals) ms))"
  by pat_completeness auto
termination
  by (relation "measure (\<lambda>x. case x of
        Inl v \<Rightarrow> 2 * size v
      | Inr (Inl vs) \<Rightarrow> 2 * size_list size vs + 1
      | Inr (Inr (_, _, ms)) \<Rightarrow> 2 * size_list (size_prod (\<lambda>_. 0) size) ms + 1)") auto

definition parse_strict_value :: "env \<Rightarrow> bytes \<Rightarrow> jcs_error + json" where
  "parse_strict_value E input =
     map_err JcsParse (res_bind (env_json_tree E input) strict_value)"

definition canonicalize :: "env \<Rightarrow> json \<Rightarrow> jcs_error + bytes" where
  "canonicalize E v =
     res_bind (map_err JcsSerialization (env_jcs_to_vec E v)) (\<lambda>encoded.
     res_bind (parse_strict_value E encoded) (\<lambda>strict.
     map_err JcsSerialization (env_jcs_to_vec E strict)))"

definition jcs_parse :: "env \<Rightarrow> bytes \<Rightarrow> jcs_error + bytes" where
  "jcs_parse E input =
     res_bind (parse_strict_value E input) (\<lambda>v.
     map_err JcsSerialization (env_jcs_to_vec E v))"

definition from_canonical_bytes :: "env \<Rightarrow> bytes \<Rightarrow> jcs_error + bytes" where
  "from_canonical_bytes E input =
     res_bind (jcs_parse E input) (\<lambda>doc. if doc \<noteq> input then Err JcsNotCanonical else Ok doc)"

definition from_serializable :: "env \<Rightarrow> json \<Rightarrow> jcs_error + digest" where
  "from_serializable E v = res_bind (canonicalize E v) (\<lambda>b. Ok (hash_bytes E b))"

text \<open>
  \<open>json_clean\<close> is the policy itself: no floating-point number and no repeated object key
  anywhere.  \<open>json_strict\<close> adds the key order in which the accepted tree is stored.
\<close>

fun json_clean :: "json \<Rightarrow> bool" where
  "json_clean (JFloat f) = False"
| "json_clean (JArr vs) = list_all json_clean vs"
| "json_clean (JObj ms) = (distinct (map fst ms) \<and> list_all (\<lambda>m. json_clean (snd m)) ms)"
| "json_clean _ = True"

fun json_strict :: "json \<Rightarrow> bool" where
  "json_strict (JFloat f) = False"
| "json_strict (JArr vs) = list_all json_strict vs"
| "json_strict (JObj ms) = (bt_wf ms \<and> list_all (\<lambda>m. json_strict (snd m)) ms)"
| "json_strict _ = True"

subsection \<open>Acceptance, key order and stability of the strict reader\<close>

lemma strict_accepts_clean:
  "is_ok (strict_value v) \<longleftrightarrow> json_clean v"
  "is_ok (strict_seq vs) \<longleftrightarrow> list_all json_clean vs"
  "is_ok (strict_map keys vals ms) \<longleftrightarrow>
     distinct (map fst ms) \<and> set keys \<inter> fst ` set ms = {} \<and>
     list_all (\<lambda>m. json_clean (snd m)) ms"
proof (induction v and vs and keys vals ms rule: strict_value_strict_seq_strict_map.induct)
  case (9 v vs)
  then show ?case by (cases "strict_value v"; cases "strict_seq vs") simp_all
next
  case (11 keys vals k v ms)
  show ?case
  proof (cases "k \<in> set keys")
    case True
    then show ?thesis by auto
  next
    case False
    with 11 show ?thesis by (cases "strict_value v") auto
  qed
qed (auto simp: is_ok_bind is_ok_iff [symmetric])

lemma set_bt_insert_subset: "set (bt_insert k v m) \<subseteq> insert (k, v) (set m)"
  by (induction k v m rule: bt_insert.induct) auto

lemma bt_insert_last:
  "\<forall>x \<in> fst ` set m. x < k \<Longrightarrow> bt_insert k v m = m @ [(k, v)]"
  by (induction k v m rule: bt_insert.induct) auto

lemma strict_result_strict:
  "strict_value v = Inr w \<Longrightarrow> json_strict w"
  "strict_seq vs = Inr ws \<Longrightarrow> list_all json_strict ws"
  "strict_map keys vals ms = Inr us \<Longrightarrow>
     bt_wf vals \<Longrightarrow> list_all (\<lambda>m. json_strict (snd m)) vals \<Longrightarrow>
     bt_wf us \<and> list_all (\<lambda>m. json_strict (snd m)) us"
proof (induction v and vs and keys vals ms arbitrary: w and ws and us
    rule: strict_value_strict_seq_strict_map.induct)
  case (7 ms)
  then show ?case by (auto simp: ag_check bt_wf_def)
next
  case (11 keys vals k v ms)
  then obtain w where new: "k \<notin> set keys" and w: "strict_value v = Inr w"
    and us: "strict_map (k # keys) (bt_insert k w vals) ms = Inr us"
    by (auto simp: ag_check split: if_splits)
  have "json_strict w" using "11.IH"(1) [OF new w] .
  then have "list_all (\<lambda>m. json_strict (snd m)) (bt_insert k w vals)"
    using "11.prems"(3) set_bt_insert_subset [of k w vals] by (fastforce simp: list_all_iff)
  with "11.IH"(2) [OF new us] "11.prems"(2) show ?case by (simp add: bt_wf_insert)
qed (auto simp: ag_check)

lemma strict_stable:
  "json_strict v \<Longrightarrow> strict_value v = Inr v"
  "list_all json_strict vs \<Longrightarrow> strict_seq vs = Inr vs"
  "bt_wf (vals @ ms) \<Longrightarrow> set keys \<subseteq> fst ` set vals \<Longrightarrow>
     list_all (\<lambda>m. json_strict (snd m)) ms \<Longrightarrow> strict_map keys vals ms = Inr (vals @ ms)"
proof (induction v and vs and keys vals ms rule: strict_value_strict_seq_strict_map.induct)
  case (11 keys vals k v ms)
  have last: "\<forall>x \<in> fst ` set vals. x < k"
    using "11.prems"(1) by (auto simp: bt_wf_def sorted_wrt_append)
  have new: "k \<notin> set keys"
    using last "11.prems"(2) by auto
  have v: "strict_value v = Inr v"
    using "11.IH"(1) [OF new] "11.prems"(3) by simp
  have "strict_map (k # keys) (bt_insert k v vals) ms = Inr (bt_insert k v vals @ ms)"
    using "11.prems" last by (intro "11.IH"(2) [OF new]) (auto simp: bt_insert_last bt_wf_def)
  with new v last show ?case by (simp add: bt_insert_last)
qed auto

section \<open>A concrete environment\<close>

text \<open>
  \<open>sample_env\<close> instantiates the parameters with small computable functions, for closed
  examples: the hexadecimal formatter of \<open>docket_issuance.rs\<close> and its inverse, a
  rotating exclusive-or checksum in place of SHA-256, and a printer that writes JSON text with
  one-digit numbers.  Its reader hands the text back as one string, which its printer leaves
  unchanged.
\<close>

definition hex_nibble :: "bool \<Rightarrow> bool \<Rightarrow> bool \<Rightarrow> bool \<Rightarrow> char" where
  "hex_nibble b8 b4 b2 b1 =
     (if b8 then
        if b4 then if b2 then if b1 then CHR ''f'' else CHR ''e'' else if b1 then CHR ''d'' else CHR ''c''
        else if b2 then if b1 then CHR ''b'' else CHR ''a'' else if b1 then CHR ''9'' else CHR ''8''
      else
        if b4 then if b2 then if b1 then CHR ''7'' else CHR ''6'' else if b1 then CHR ''5'' else CHR ''4''
        else if b2 then if b1 then CHR ''3'' else CHR ''2'' else if b1 then CHR ''1'' else CHR ''0'')"

fun hex_byte :: "char \<Rightarrow> string" where
  "hex_byte (Char b0 b1 b2 b3 b4 b5 b6 b7) = [hex_nibble b7 b6 b5 b4, hex_nibble b3 b2 b1 b0]"

definition hex_lower :: "bytes \<Rightarrow> string" where
  "hex_lower b = foldl (\<lambda>s c. s @ hex_byte c) [] b"

definition unhex_nibble :: "char \<Rightarrow> (bool \<times> bool \<times> bool \<times> bool) option" where
  "unhex_nibble = map_of (zip ''0123456789abcdef''
     [(False, False, False, False), (False, False, False, True), (False, False, True, False),
      (False, False, True, True), (False, True, False, False), (False, True, False, True),
      (False, True, True, False), (False, True, True, True), (True, False, False, False),
      (True, False, False, True), (True, False, True, False), (True, False, True, True),
      (True, True, False, False), (True, True, False, True), (True, True, True, False),
      (True, True, True, True)])"

fun unhex :: "string \<Rightarrow> bytes option" where
  "unhex [] = Some []"
| "unhex [c] = None"
| "unhex (c # d # s) =
     (case (unhex_nibble c, unhex_nibble d, unhex s) of
        (Some (b7, b6, b5, b4), Some (b3, b2, b1, b0), Some b) \<Rightarrow> Some (Char b0 b1 b2 b3 b4 b5 b6 b7 # b)
      | _ \<Rightarrow> None)"

fun xor_char :: "char \<Rightarrow> char \<Rightarrow> char" where
  "xor_char (Char a0 a1 a2 a3 a4 a5 a6 a7) (Char b0 b1 b2 b3 b4 b5 b6 b7) =
     Char (a0 \<noteq> b0) (a1 \<noteq> b1) (a2 \<noteq> b2) (a3 \<noteq> b3) (a4 \<noteq> b4) (a5 \<noteq> b5) (a6 \<noteq> b6) (a7 \<noteq> b7)"

fun sample_absorb :: "bytes \<Rightarrow> char \<Rightarrow> bytes" where
  "sample_absorb [] c = []"
| "sample_absorb (h # s) c = s @ [xor_char h c]"

definition sample_sha256 :: "bytes \<Rightarrow> bytes" where
  "sample_sha256 b = foldl sample_absorb
     [CHR 0x00, CHR 0x01, CHR 0x02, CHR 0x03, CHR 0x04, CHR 0x05, CHR 0x06, CHR 0x07,
      CHR 0x08, CHR 0x09, CHR 0x0A, CHR 0x0B, CHR 0x0C, CHR 0x0D, CHR 0x0E, CHR 0x0F,
      CHR 0x10, CHR 0x11, CHR 0x12, CHR 0x13, CHR 0x14, CHR 0x15, CHR 0x16, CHR 0x17,
      CHR 0x18, CHR 0x19, CHR 0x1A, CHR 0x1B, CHR 0x1C, CHR 0x1D, CHR 0x1E, CHR 0x1F] b"

definition sample_digits :: "int \<Rightarrow> string" where
  "sample_digits n =
     (if n = 0 then ''0'' else if n = 1 then ''1'' else if n = 2 then ''2'' else if n = 3 then ''3''
      else if n = 4 then ''4'' else if n = 5 then ''5'' else if n = 6 then ''6''
      else if n = 7 then ''7'' else if n = 8 then ''8'' else ''9'')"

function (sequential) sample_print :: "json \<Rightarrow> string" and
  sample_elems :: "json list \<Rightarrow> string" and
  sample_members :: "(string \<times> json) list \<Rightarrow> string"
where
  "sample_print JNull = ''null''"
| "sample_print (JBool b) = (if b then ''true'' else ''false'')"
| "sample_print (JNum n) = sample_digits n"
| "sample_print (JFloat f) = ''0.5''"
| "sample_print (JStr s) = CHR 0x22 # s @ [CHR 0x22]"
| "sample_print (JArr vs) = ''['' @ sample_elems vs @ '']''"
| "sample_print (JObj ms) = ''{'' @ sample_members ms @ ''}''"
| "sample_elems [] = []"
| "sample_elems (v # vs) = sample_print v @ '','' @ sample_elems vs"
| "sample_members [] = []"
| "sample_members ((k, v) # ms) =
     CHR 0x22 # k @ CHR 0x22 # '':'' @ sample_print v @ '','' @ sample_members ms"
  by pat_completeness auto
termination
  by (relation "measure (\<lambda>x. case x of
        Inl v \<Rightarrow> 2 * size v
      | Inr (Inl vs) \<Rightarrow> 2 * size_list size vs + 1
      | Inr (Inr ms) \<Rightarrow> 2 * size_list (size_prod (\<lambda>_. 0) size) ms + 1)") auto

definition sample_to_vec :: "json \<Rightarrow> string + bytes" where
  "sample_to_vec v = (case v of JStr s \<Rightarrow> Ok s | _ \<Rightarrow> Ok (sample_print v))"

definition sample_env :: env where
  "sample_env = \<lparr>env_sha256 = sample_sha256, env_hex_encode = hex_lower, env_hex_decode = unhex,
     env_jcs_to_vec = sample_to_vec, env_json_tree = (\<lambda>b. Ok (JStr b))\<rparr>"

lemma sample_absorb_length [simp]: "length (sample_absorb s c) = length s"
  by (cases s) simp_all

lemma sample_sha256_length [simp]: "length (sample_sha256 b) = 32"
proof -
  have "length (foldl sample_absorb s b) = length s" for s
    by (induction b arbitrary: s) simp_all
  then show ?thesis by (simp add: sample_sha256_def)
qed

lemma hex_nibble_lower:
  "is_lower_hex (hex_nibble b8 b4 b2 b1)"
  "unhex_nibble (hex_nibble b8 b4 b2 b1) = Some (b8, b4, b2, b1)"
  by (cases b8; cases b4; cases b2; cases b1;
      simp add: hex_nibble_def ascii_defs unhex_nibble_def)+

lemma unhex_nibble_total:
  assumes "is_lower_hex c"
  shows "\<exists>n. unhex_nibble c = Some n"
proof -
  define n :: nat where "n = of_char c"
  have "48 \<le> n \<and> n \<le> 57 \<or> 97 \<le> n \<and> n \<le> 102"
    using assms by (auto simp: n_def ascii_defs less_eq_char_def)
  then have "n \<in> set ([48..<58] @ [97..<103])"
    unfolding set_append set_upt Un_iff atLeastLessThan_iff by linarith
  moreover have "list_all (\<lambda>n. unhex_nibble (char_of n) \<noteq> None) ([48..<58] @ [97..<103] :: nat list)"
    by code_simp
  moreover have "c = char_of n" by (simp add: n_def)
  ultimately show ?thesis by (simp only: list_all_iff) auto
qed

lemma hex_lower_simps [simp]:
  "hex_lower [] = []"
  "hex_lower (c # b) = hex_byte c @ hex_lower b"
proof -
  have "foldl (\<lambda>s c. s @ hex_byte c) acc b = acc @ foldl (\<lambda>s c. s @ hex_byte c) [] b" for acc
  proof (induction b arbitrary: acc)
    case Nil
    then show ?case by simp
  next
    case (Cons c b)
    from Cons [of "acc @ hex_byte c"] Cons [of "hex_byte c"] show ?case by simp
  qed
  from this [of "hex_byte c"] show "hex_lower (c # b) = hex_byte c @ hex_lower b"
    by (simp add: hex_lower_def)
qed (simp add: hex_lower_def)

lemma hex_lower_sound:
  "length (hex_lower b) = 2 * length b \<and> list_all is_lower_hex (hex_lower b) \<and>
     unhex (hex_lower b) = Some b"
proof (induction b)
  case Nil
  then show ?case by simp
next
  case (Cons c b)
  then show ?case by (cases c) (simp add: hex_nibble_lower)
qed

lemma unhex_total:
  "even (length s) \<Longrightarrow> list_all is_lower_hex s \<Longrightarrow> \<exists>b. unhex s = Some b \<and> 2 * length b = length s"
proof (induction s rule: unhex.induct)
  case (3 c d s)
  then obtain b where "unhex s = Some b" "2 * length b = length s" by auto
  moreover obtain m n where "unhex_nibble c = Some m" "unhex_nibble d = Some n"
    using "3.prems" unhex_nibble_total [of c] unhex_nibble_total [of d] by auto
  ultimately show ?case by (cases m; cases n) auto
qed auto

lemma sample_env_ok: "codec_ok sample_env"
  using unhex_total by (simp add: codec_ok_def sample_env_def hex_lower_sound)

lemma sample_to_vec_ok: "\<exists>b. env_jcs_to_vec sample_env v = Inr b"
  by (cases v) (simp_all add: sample_env_def sample_to_vec_def)

lemma sample_canonicalize_ok: "\<exists>b. canonicalize sample_env v = Inr b"
proof -
  obtain b where b: "env_jcs_to_vec sample_env v = Inr b" using sample_to_vec_ok by blast
  have "env_json_tree sample_env b = Inr (JStr b)" "env_jcs_to_vec sample_env (JStr b) = Inr b"
    by (simp_all add: sample_env_def sample_to_vec_def)
  with b show ?thesis by (simp add: canonicalize_def parse_strict_value_def)
qed

section \<open>Properties\<close>

text \<open>
  The digest parser accepts exactly the text \<open>sha256:\<close> followed by sixty-four lowercase
  hexadecimal characters, returns that text unchanged, and never reaches its internal
  decoding error.
\<close>

theorem digest_parse_exact:
  assumes "codec_ok E"
  shows "(digest_from_str E s = Ok d \<longleftrightarrow> d = Digest s \<and> digest_text s) \<and>
    digest_from_str E s \<noteq> Err DigestInternalHexInvariant"
  using decode_total [OF assms, of "drop (length sha256_prefix) s"]
  by (auto simp: digest_from_str_def digest_text_iff Let_def find_index_from_None_iff
      dest: find_index_from_Some split: option.splits)

theorem digest_parse_exact_witness:
  "digest_from_str sample_env (as_str (hash_bytes sample_env ''ag'')) = Ok (hash_bytes sample_env ''ag'')"
  using digest_parse_exact [OF sample_env_ok] hash_bytes_text [OF sample_env_ok, of "''ag''"]
  by simp

text \<open>
  Domain separation.  Where SHA-256 does not collide on the two framed preimages
  themselves, two domain-separated digests agree exactly when both the domain string and the
  payload agree: no byte can move between domain and payload.
\<close>

theorem hash_domain_separates:
  assumes "codec_ok E" and "length d < 2 ^ 128" and "length d' < 2 ^ 128"
    and "inj_on (env_sha256 E) {domain_preimage d p, domain_preimage d' p'}"
  shows "hash_domain E d p = hash_domain E d' p' \<longleftrightarrow> d = d' \<and> p = p'"
  using hash_domain_inject [OF assms] by blast

theorem hash_domain_separates_witness:
  "hash_domain sample_env ''ab'' ''c'' \<noteq> hash_domain sample_env ''a'' ''bc''"
proof -
  have "env_sha256 sample_env (domain_preimage ''ab'' ''c'')
      \<noteq> env_sha256 sample_env (domain_preimage ''a'' ''bc'')"
    by code_simp
  then have "inj_on (env_sha256 sample_env)
      {domain_preimage ''ab'' ''c'', domain_preimage ''a'' ''bc''}"
    by (auto simp: inj_on_def)
  then show ?thesis
    using hash_domain_separates [OF sample_env_ok, of "''ab''" "''a''" "''c''" "''bc''"] by simp
qed

text \<open>
  The strict reader accepts a JSON tree exactly when it holds no floating-point number and
  no repeated object key at any depth; what it returns has strictly ascending keys in every
  object, and reading that result again returns it unchanged.
\<close>

theorem strict_reader_policy:
  "(is_ok (strict_value v) \<longleftrightarrow> json_clean v) \<and>
   (\<forall>w. strict_value v = Ok w \<longrightarrow> json_strict w \<and> strict_value w = Ok w)"
  using strict_accepts_clean(1) strict_result_strict(1) strict_stable(1) by blast

theorem strict_reader_policy_witness:
  "strict_value (JObj [(''b'', JNum 1), (''a'', JArr [JNull])]) =
     Ok (JObj [(''a'', JArr [JNull]), (''b'', JNum 1)]) \<and>
   json_strict (JObj [(''a'', JArr [JNull]), (''b'', JNum 1)])"
proof -
  have "strict_value (JObj [(''b'', JNum 1), (''a'', JArr [JNull])]) =
      Ok (JObj [(''a'', JArr [JNull]), (''b'', JNum 1)])" by code_simp
  then show ?thesis
    using strict_reader_policy [of "JObj [(''b'', JNum 1), (''a'', JArr [JNull])]"] by blast
qed

end
