(* ===== verification/AG_Origin.thy ===== *)
theory AG_Origin
  imports AG_Digest
begin

text \<open>
  \<open>crates/ag-primitives/src/origin.rs\<close>: validated identifiers, authority epochs, lifecycle
  nonces and the four kinds of book reference.  The Rust tag trait \<open>BookTag\<close> is a phantom type
  parameter together with its \<open>KIND\<close> constant as an argument.  The locale
  \<open>identifier_validator\<close> is the contract that the repository's three name validators share.

  The \<open>serde\<close> reading of a derived struct is \<open>struct_fields\<close>: an object with exactly the
  declared keys, or an array with one element per field.
\<close>

section \<open>Reading derived structs and enums\<close>

definition take_field :: "(string \<times> json) list \<Rightarrow> string \<Rightarrow> string + json" where
  "take_field ms f =
     (case filter (\<lambda>m. fst m = f) ms of
        [] \<Rightarrow> Err ''missing field''
      | [m] \<Rightarrow> Ok (snd m)
      | _ \<Rightarrow> Err ''duplicate field'')"

definition struct_fields :: "string list \<Rightarrow> json \<Rightarrow> string + json list" where
  "struct_fields fs j =
     (case j of
        JObj ms \<Rightarrow>
          if list_all (\<lambda>m. fst m \<in> set fs) ms then try_map (take_field ms) fs
          else Err ''unknown field''
      | JArr vs \<Rightarrow> if length vs = length fs then Ok vs else Err ''invalid length''
      | _ \<Rightarrow> Err ''invalid type'')"

definition unit_variant :: "json \<Rightarrow> string + string" where
  "unit_variant j =
     (case j of
        JStr s \<Rightarrow> Ok s
      | JObj [(s, JNull)] \<Rightarrow> Ok s
      | _ \<Rightarrow> Err ''invalid variant'')"

definition u64_deserialize :: "json \<Rightarrow> string + u64" where
  "u64_deserialize j =
     (case j of
        JNum n \<Rightarrow> if 0 \<le> n \<and> n < 2 ^ 64 then Ok (of_int n) else Err ''invalid u64''
      | _ \<Rightarrow> Err ''invalid type'')"

definition u64_json :: "u64 \<Rightarrow> json" where
  "u64_json w = JNum (uint w)"

definition option_json :: "('a \<Rightarrow> json) \<Rightarrow> 'a option \<Rightarrow> json" where
  "option_json f v = (case v of None \<Rightarrow> JNull | Some x \<Rightarrow> f x)"

lemma u64_roundtrip [simp]: "u64_deserialize (u64_json w) = Inr w"
proof -
  have "uint w < 2 ^ 64" using uint_lt2p [of w] by simp
  then show ?thesis by (simp add: u64_deserialize_def u64_json_def)
qed

lemma struct_fields_roundtrip:
  assumes "distinct fs" and "length fs = length vs"
  shows "struct_fields fs (JObj (zip fs vs)) = Inr vs"
proof -
  have "filter (\<lambda>m. fst m = fs ! i) (zip fs vs) = [(fs ! i, vs ! i)]" if "i < length fs" for i
    using assms that
  proof (induction fs vs arbitrary: i rule: list_induct2')
    case (4 f fs v vs)
    show ?case
    proof (cases i)
      case 0
      with 4 have "filter (\<lambda>m. fst m = f) (zip fs vs) = []"
        by (auto simp: filter_empty_conv dest: set_zip_leftD)
      with 0 show ?thesis by simp
    next
      case (Suc j)
      with 4 show ?thesis by auto
    qed
  qed auto
  then have "list_all2 (\<lambda>f v. take_field (zip fs vs) f = Inr v) fs vs"
    using assms(2) by (simp add: list_all2_conv_all_nth take_field_def)
  moreover have "list_all (\<lambda>m. fst m \<in> set fs) (zip fs vs)"
    by (auto simp: list_all_iff dest: set_zip_leftD)
  ultimately show ?thesis by (simp add: struct_fields_def try_map_Inr_iff)
qed

section \<open>Identifier validation\<close>

datatype identifier_error =
    IdEmpty string
  | IdTooLong string nat nat
  | IdNonCanonical string
  | IdZeroEpoch
  | IdInvalidEpochText
  | IdEpochExhausted

definition id_endpoint :: "char \<Rightarrow> bool" where
  "id_endpoint c \<longleftrightarrow> is_ascii_lowercase c \<or> is_ascii_digit c"

definition id_admitted :: "char \<Rightarrow> bool" where
  "id_admitted c \<longleftrightarrow> id_endpoint c \<or> c \<in> set ''-_.:/''"

definition validate_identifier :: "string \<Rightarrow> string \<Rightarrow> identifier_error + unit" where
  "validate_identifier kind value =
     (if value = [] then Err (IdEmpty kind)
      else if length value > 128 then Err (IdTooLong kind 128 (length value))
      else if \<not> id_endpoint (value ! 0) \<or> \<not> id_endpoint (value ! (length value - 1))
        \<or> \<not> list_all id_admitted value then Err (IdNonCanonical kind)
      else Ok ())"

text \<open>
  The reference predicate: a nonempty bounded word over the lowercase identifier alphabet that
  starts and ends with a letter or digit.
\<close>

definition canonical_identifier :: "nat \<Rightarrow> string \<Rightarrow> bool" where
  "canonical_identifier maximum s \<longleftrightarrow>
     s \<noteq> [] \<and> length s \<le> maximum \<and> id_endpoint (hd s) \<and> id_endpoint (last s) \<and>
     (\<forall>c \<in> set s. id_admitted c)"

definition text_new :: "(string \<Rightarrow> string \<Rightarrow> 'e + unit) \<Rightarrow> string \<Rightarrow> (string \<Rightarrow> 'a) \<Rightarrow> string \<Rightarrow> 'e + 'a" where
  "text_new validate kind mk value = res_bind (validate kind value) (\<lambda>_. Ok (mk value))"

definition text_deserialize :: "(string \<Rightarrow> 'e + 'a) \<Rightarrow> json \<Rightarrow> string + 'a" where
  "text_deserialize parse j =
     (case j of
        JStr s \<Rightarrow> map_err (\<lambda>_. ''invalid identifier'') (parse s)
      | _ \<Rightarrow> Err ''expected a canonical AG-ng identifier'')"

locale identifier_validator =
  fixes validate :: "string \<Rightarrow> string \<Rightarrow> 'e + unit"
    and maximum :: nat
  assumes accepts: "validate kind s = Inr () \<longleftrightarrow> canonical_identifier maximum s"
begin

lemma new_iff: "text_new validate kind mk s = Inr x \<longleftrightarrow> x = mk s \<and> canonical_identifier maximum s"
  by (auto simp: text_new_def ag_check accepts)

lemma text_roundtrip:
  "canonical_identifier maximum s \<Longrightarrow>
     text_deserialize (text_new validate kind mk) (JStr s) = Inr (mk s)"
  by (simp add: text_deserialize_def new_iff [THEN iffD2])

lemma deserialized_canonical:
  "text_deserialize (text_new validate kind mk) j = Inr x \<Longrightarrow>
     \<exists>s. j = JStr s \<and> x = mk s \<and> canonical_identifier maximum s"
  by (auto simp: text_deserialize_def ag_check new_iff split: json.splits)

end

lemma canonical_identifier_nth:
  "canonical_identifier maximum s \<longleftrightarrow>
     s \<noteq> [] \<and> length s \<le> maximum \<and> id_endpoint (s ! 0) \<and>
     id_endpoint (s ! (length s - 1)) \<and> list_all id_admitted s"
  by (cases "s = []") (simp_all add: canonical_identifier_def hd_conv_nth last_conv_nth list_all_iff)

interpretation origin_id: identifier_validator validate_identifier 128
  by unfold_locales (auto simp: validate_identifier_def canonical_identifier_nth)

section \<open>Domains, epochs, nonces\<close>

datatype authority_domain_id = AuthorityDomainId (domain_str: string)

definition authority_domain_new :: "string \<Rightarrow> identifier_error + authority_domain_id" where
  "authority_domain_new = text_new validate_identifier ''authority domain'' AuthorityDomainId"

datatype epoch_id = EpochId (epoch_get: u64)

definition epoch_new :: "u64 \<Rightarrow> identifier_error + epoch_id" where
  "epoch_new v = (if v = 0 then Err IdZeroEpoch else Ok (EpochId v))"

definition epoch_parse :: "string \<Rightarrow> identifier_error + epoch_id" where
  "epoch_parse value =
     (if value = [] \<or> \<not> list_all is_ascii_digit value
        \<or> (length value > 1 \<and> starts_with ''0'' value)
      then Err IdInvalidEpochText
      else res_bind (ok_or IdInvalidEpochText (parse_u64_digits value)) epoch_new)"

definition epoch_checked_next :: "epoch_id \<Rightarrow> identifier_error + epoch_id" where
  "epoch_checked_next e =
     (case checked_add_u64 (epoch_get e) 1 of
        Some v \<Rightarrow> Ok (EpochId v)
      | None \<Rightarrow> Err IdEpochExhausted)"

definition epoch_display :: "epoch_id \<Rightarrow> string" where
  "epoch_display e = show_nat (unat (epoch_get e))"

definition epoch_json :: "epoch_id \<Rightarrow> json" where
  "epoch_json e = u64_json (epoch_get e)"

definition epoch_deserialize :: "json \<Rightarrow> string + epoch_id" where
  "epoch_deserialize j =
     res_bind (u64_deserialize j) (\<lambda>v. map_err (\<lambda>_. ''zero epoch'') (epoch_new v))"

datatype lifecycle_nonce = LifecycleNonce (nonce_bytes: bytes)

datatype nonce_parse_error =
    NonceLength nat
  | NonceHex nat char
  | NonceInternalHexInvariant

definition nonce_parse :: "env \<Rightarrow> string \<Rightarrow> nonce_parse_error + lifecycle_nonce" where
  "nonce_parse E value =
     (if length value \<noteq> 32 then Err (NonceLength (length value))
      else case find_index_from 0 (\<lambda>c. \<not> is_lower_hex c) value of
          Some (i, c) \<Rightarrow> Err (NonceHex i c)
        | None \<Rightarrow>
            (case env_hex_decode E value of
               Some raw \<Rightarrow> if length raw = 16 then Ok (LifecycleNonce raw) else Err NonceInternalHexInvariant
             | None \<Rightarrow> Err NonceInternalHexInvariant))"

definition nonce_json :: "env \<Rightarrow> lifecycle_nonce \<Rightarrow> json" where
  "nonce_json E n = JStr (env_hex_encode E (nonce_bytes n))"

definition nonce_deserialize :: "env \<Rightarrow> json \<Rightarrow> string + lifecycle_nonce" where
  "nonce_deserialize E j =
     (case j of
        JStr s \<Rightarrow> map_err (\<lambda>_. ''invalid nonce'') (nonce_parse E s)
      | _ \<Rightarrow> Err ''expected 32 lowercase hexadecimal nonce characters'')"

section \<open>Lifecycle origins and book references\<close>

record lifecycle_origin =
  lo_authority_domain :: authority_domain_id
  lo_epoch :: epoch_id
  lo_lifecycle_nonce :: lifecycle_nonce

datatype book_local_id = BookLocalId (local_str: string)

definition book_local_new :: "string \<Rightarrow> identifier_error + book_local_id" where
  "book_local_new = text_new validate_identifier ''book local ID'' BookLocalId"

datatype book_kind = Standing | Custody | Obligation | Capacity

datatype standing_book = StandingBook
datatype custody_book = CustodyBook
datatype obligation_book = ObligationBook
datatype capacity_book = CapacityBook

datatype 'k book_ref = BookRef (br_origin: lifecycle_origin) (br_local_id: book_local_id)

record any_book_ref =
  ab_book :: book_kind
  ab_origin :: lifecycle_origin
  ab_local_id :: book_local_id

datatype book_kind_mismatch = BookKindMismatch (bm_expected: book_kind) (bm_actual: book_kind)

definition book_ref_erase :: "book_kind \<Rightarrow> 'k book_ref \<Rightarrow> any_book_ref" where
  "book_ref_erase KIND r =
     \<lparr>ab_book = KIND, ab_origin = br_origin r, ab_local_id = br_local_id r\<rparr>"

definition try_typed :: "book_kind \<Rightarrow> any_book_ref \<Rightarrow> book_kind_mismatch + 'k book_ref" where
  "try_typed KIND a =
     (if ab_book a \<noteq> KIND then Err (BookKindMismatch KIND (ab_book a))
      else Ok (BookRef (ab_origin a) (ab_local_id a)))"

definition book_kind_str :: "book_kind \<Rightarrow> string" where
  "book_kind_str k =
     (case k of Standing \<Rightarrow> ''standing'' | Custody \<Rightarrow> ''custody''
      | Obligation \<Rightarrow> ''obligation'' | Capacity \<Rightarrow> ''capacity'')"

definition book_kind_deserialize :: "json \<Rightarrow> string + book_kind" where
  "book_kind_deserialize j =
     res_bind (unit_variant j) (\<lambda>s.
       if s = ''standing'' then Ok Standing else if s = ''custody'' then Ok Custody
       else if s = ''obligation'' then Ok Obligation else if s = ''capacity'' then Ok Capacity
       else Err ''unknown variant'')"

definition origin_fields :: "string list" where
  "origin_fields = [''authority_domain'', ''epoch'', ''lifecycle_nonce'']"

definition origin_json :: "env \<Rightarrow> lifecycle_origin \<Rightarrow> json" where
  "origin_json E o' = JObj (zip origin_fields
     [JStr (domain_str (lo_authority_domain o')), epoch_json (lo_epoch o'),
      nonce_json E (lo_lifecycle_nonce o')])"

definition origin_deserialize :: "env \<Rightarrow> json \<Rightarrow> string + lifecycle_origin" where
  "origin_deserialize E j =
     res_bind (struct_fields origin_fields j) (\<lambda>vs.
     res_bind (text_deserialize authority_domain_new (vs ! 0)) (\<lambda>d.
     res_bind (epoch_deserialize (vs ! 1)) (\<lambda>e.
     res_bind (nonce_deserialize E (vs ! 2)) (\<lambda>n.
       Ok \<lparr>lo_authority_domain = d, lo_epoch = e, lo_lifecycle_nonce = n\<rparr>))))"

definition book_ref_fields :: "string list" where
  "book_ref_fields = [''book'', ''origin'', ''local_id'']"

definition any_book_ref_json :: "env \<Rightarrow> any_book_ref \<Rightarrow> json" where
  "any_book_ref_json E w = JObj (zip book_ref_fields
     [JStr (book_kind_str (ab_book w)), origin_json E (ab_origin w),
      JStr (local_str (ab_local_id w))])"

definition any_book_ref_deserialize :: "env \<Rightarrow> json \<Rightarrow> string + any_book_ref" where
  "any_book_ref_deserialize E j =
     res_bind (struct_fields book_ref_fields j) (\<lambda>vs.
     res_bind (book_kind_deserialize (vs ! 0)) (\<lambda>k.
     res_bind (origin_deserialize E (vs ! 1)) (\<lambda>o'.
     res_bind (text_deserialize book_local_new (vs ! 2)) (\<lambda>l.
       Ok \<lparr>ab_book = k, ab_origin = o', ab_local_id = l\<rparr>))))"

text \<open>\<open>BookRefWire\<close> has the fields and attributes of \<open>AnyBookRef\<close>, so both share one codec.\<close>

definition book_ref_json :: "env \<Rightarrow> book_kind \<Rightarrow> 'k book_ref \<Rightarrow> json" where
  "book_ref_json E KIND r = any_book_ref_json E (book_ref_erase KIND r)"

definition book_ref_deserialize :: "env \<Rightarrow> book_kind \<Rightarrow> json \<Rightarrow> string + 'k book_ref" where
  "book_ref_deserialize E KIND j =
     res_bind (any_book_ref_deserialize E j) (\<lambda>wire.
       if ab_book wire \<noteq> KIND then Err ''expected another kind of book reference''
       else Ok (BookRef (ab_origin wire) (ab_local_id wire)))"

text \<open>What the validating constructors establish about a reference.\<close>

definition origin_wf :: "lifecycle_origin \<Rightarrow> bool" where
  "origin_wf o' \<longleftrightarrow>
     canonical_identifier 128 (domain_str (lo_authority_domain o')) \<and>
     epoch_get (lo_epoch o') \<noteq> 0 \<and> length (nonce_bytes (lo_lifecycle_nonce o')) = 16"

definition book_ref_wf :: "'k book_ref \<Rightarrow> bool" where
  "book_ref_wf r \<longleftrightarrow> origin_wf (br_origin r) \<and> canonical_identifier 128 (local_str (br_local_id r))"

lemma field_names [simp]:
  "distinct origin_fields" "length origin_fields = 3"
  "distinct book_ref_fields" "length book_ref_fields = 3"
  by (simp_all add: origin_fields_def book_ref_fields_def)

lemma epoch_roundtrip: "epoch_get e \<noteq> 0 \<Longrightarrow> epoch_deserialize (epoch_json e) = Inr e"
  by (simp add: epoch_deserialize_def epoch_json_def epoch_new_def)

lemma nonce_roundtrip:
  assumes "codec_ok E" and "length (nonce_bytes n) = 16"
  shows "nonce_deserialize E (nonce_json E n) = Inr n"
proof -
  let ?s = "env_hex_encode E (nonce_bytes n)"
  have "find_index_from 0 (\<lambda>c. \<not> is_lower_hex c) ?s = None" "length ?s = 32"
    "env_hex_decode E ?s = Some (nonce_bytes n)"
    using assms by (simp_all add: codec_ok_def find_index_from_None_iff)
  then show ?thesis
    using assms(2) by (simp add: nonce_deserialize_def nonce_json_def nonce_parse_def)
qed

lemma origin_roundtrip:
  "codec_ok E \<Longrightarrow> origin_wf o' \<Longrightarrow> origin_deserialize E (origin_json E o') = Inr o'"
  by (simp add: origin_deserialize_def origin_json_def struct_fields_roundtrip
      origin_wf_def authority_domain_new_def origin_id.text_roundtrip epoch_roundtrip
      nonce_roundtrip)

lemma book_kind_roundtrip [simp]: "book_kind_deserialize (JStr (book_kind_str k)) = Inr k"
  by (cases k) (simp_all add: book_kind_deserialize_def unit_variant_def book_kind_str_def)

lemma any_book_ref_roundtrip:
  "codec_ok E \<Longrightarrow> origin_wf (ab_origin w) \<Longrightarrow>
     canonical_identifier 128 (local_str (ab_local_id w)) \<Longrightarrow>
     any_book_ref_deserialize E (any_book_ref_json E w) = Inr w"
  by (simp add: any_book_ref_deserialize_def any_book_ref_json_def
      struct_fields_roundtrip origin_roundtrip book_local_new_def origin_id.text_roundtrip)

text \<open>The encodings lose nothing: equal JSON trees come from equal values.\<close>

lemma hex_encode_inject: "codec_ok E \<Longrightarrow> env_hex_encode E a = env_hex_encode E b \<longleftrightarrow> a = b"
  by (metis codec_ok_def option.inject)

lemma u64_json_inject [simp]: "u64_json a = u64_json b \<longleftrightarrow> a = b"
  by (simp add: u64_json_def word_uint_eq_iff)

lemma digest_json_inject [simp]: "digest_json a = digest_json b \<longleftrightarrow> a = b"
  by (cases a; cases b) (simp add: digest_json_def)

lemma epoch_json_inject [simp]: "epoch_json a = epoch_json b \<longleftrightarrow> a = b"
  by (cases a; cases b) (simp add: epoch_json_def)

lemma nonce_json_inject: "codec_ok E \<Longrightarrow> nonce_json E a = nonce_json E b \<longleftrightarrow> a = b"
  by (cases a; cases b) (simp add: nonce_json_def hex_encode_inject)

lemma origin_json_inject: "codec_ok E \<Longrightarrow> origin_json E a = origin_json E b \<longleftrightarrow> a = b"
  by (cases a; cases b)
    (auto simp: origin_json_def origin_fields_def nonce_json_inject intro: authority_domain_id.expand)

lemma book_kind_str_inject [simp]: "book_kind_str a = book_kind_str b \<longleftrightarrow> a = b"
  by (cases a; cases b) (simp_all add: book_kind_str_def)

lemma any_book_ref_json_inject:
  "codec_ok E \<Longrightarrow> any_book_ref_json E a = any_book_ref_json E b \<longleftrightarrow> a = b"
  by (cases a; cases b)
    (auto simp: any_book_ref_json_def book_ref_fields_def origin_json_inject intro: book_local_id.expand)

lemma book_ref_json_inject:
  "codec_ok E \<Longrightarrow> book_ref_json E K a = book_ref_json E K b \<longleftrightarrow> a = b"
  by (cases a; cases b)
    (simp add: book_ref_json_def book_ref_erase_def any_book_ref_json_inject)

section \<open>Properties\<close>

text \<open>
  The epoch parser accepts a text exactly when it is the decimal rendering of a nonzero
  epoch, and returns that epoch: signs, leading zeroes, zero and values past \<open>u64::MAX\<close> are all
  refused, and rendering then parsing is the identity.
\<close>

theorem epoch_parse_exact:
  "epoch_parse s = Ok e \<longleftrightarrow> epoch_get e \<noteq> 0 \<and> s = epoch_display e"
proof -
  have guard: "\<not> (s = [] \<or> \<not> list_all is_ascii_digit s \<or> (length s > 1 \<and> starts_with ''0'' s))
      \<longleftrightarrow> canonical_decimal s"
    by (cases s) (auto simp: canonical_decimal_def starts_with_def)
  have "epoch_parse s = Ok e \<longleftrightarrow> canonical_decimal s \<and> decimal_val s < 2 ^ 64 \<and>
      of_nat (decimal_val s) = epoch_get e \<and> epoch_get e \<noteq> 0"
    unfolding epoch_parse_def guard [symmetric]
    by (cases e) (auto simp: parse_u64_digits_def epoch_new_def)
  also have "\<dots> \<longleftrightarrow> canonical_decimal s \<and> decimal_val s = unat (epoch_get e) \<and> epoch_get e \<noteq> 0"
    using of_nat_u64_iff [of "decimal_val s" "epoch_get e"] by blast
  also have "\<dots> \<longleftrightarrow> epoch_get e \<noteq> 0 \<and> s = epoch_display e"
    using decimal_roundtrip [of s "unat (epoch_get e)"] by (auto simp: epoch_display_def)
  finally show ?thesis .
qed

text \<open>
  A serialized book reference reads back as itself under its own book kind, and reading it
  under any other kind is refused, so no reference changes book by crossing a wire.
\<close>

theorem book_ref_wire:
  fixes r :: "'k book_ref"
  assumes "codec_ok E" and "book_ref_wf r"
  shows "(book_ref_deserialize E K' (book_ref_json E K r) :: string + 'l book_ref) =
    (if K = K' then Ok (BookRef (br_origin r) (br_local_id r))
     else Err ''expected another kind of book reference'')"
  using assms by (simp add: book_ref_deserialize_def book_ref_json_def book_ref_erase_def
      any_book_ref_roundtrip book_ref_wf_def)

definition sample_ref :: "string \<Rightarrow> 'k book_ref" where
  "sample_ref l = BookRef \<lparr>lo_authority_domain = AuthorityDomainId ''prod'', lo_epoch = EpochId 3,
     lo_lifecycle_nonce = LifecycleNonce (replicate 16 (CHR ''n''))\<rparr> (BookLocalId l)"

lemma sample_ref_wf: "book_ref_wf (sample_ref ''s/1'' :: standing_book book_ref)"
  by code_simp

theorem book_ref_wire_witness:
  "book_ref_deserialize sample_env Standing
     (book_ref_json sample_env Standing (sample_ref ''s/1'' :: standing_book book_ref)) =
     Ok (sample_ref ''s/1'' :: standing_book book_ref) \<and>
   \<not> is_ok (book_ref_deserialize sample_env Custody
     (book_ref_json sample_env Standing (sample_ref ''s/1'' :: standing_book book_ref))
     :: string + custody_book book_ref)"
  by (simp add: book_ref_wire [OF sample_env_ok sample_ref_wf])

end
