(* ===== verification/AG_Inference.thy ===== *)
theory AG_Inference
  imports AG_Origin
begin

text \<open>
  The closed provider envelope, budgets and counted usage of
  \<open>crates/ag-primitives/src/capability.rs\<close>, which both worker principals and inference
  capabilities contain.  Usage counters are 64-bit words with checked addition.
\<close>

datatype capability_definition_error =
    CapInvalidLifetime
  | CapZeroRequestBudget
  | CapEmptyName string
  | CapNameTooLong string nat nat
  | CapNonCanonicalName string

definition validate_envelope_name :: "string \<Rightarrow> string \<Rightarrow> capability_definition_error + unit" where
  "validate_envelope_name kind value =
     (if value = [] then Err (CapEmptyName kind)
      else if length value > 192 then Err (CapNameTooLong kind 192 (length value))
      else if \<not> id_endpoint (value ! 0) \<or> \<not> id_endpoint (value ! (length value - 1))
        \<or> \<not> list_all id_admitted value then Err (CapNonCanonicalName kind)
      else Ok ())"

interpretation envelope_id: identifier_validator validate_envelope_name 192
  by unfold_locales (auto simp: validate_envelope_name_def canonical_identifier_nth)

datatype provider_endpoint_id = ProviderEndpointId (endpoint_str: string)
datatype model_id = ModelId (model_str: string)
datatype inference_method_id = InferenceMethodId (method_str: string)

definition provider_endpoint_new :: "string \<Rightarrow> capability_definition_error + provider_endpoint_id" where
  "provider_endpoint_new = text_new validate_envelope_name ''ProviderEndpointId'' ProviderEndpointId"

definition model_id_new :: "string \<Rightarrow> capability_definition_error + model_id" where
  "model_id_new = text_new validate_envelope_name ''ModelId'' ModelId"

definition inference_method_new :: "string \<Rightarrow> capability_definition_error + inference_method_id" where
  "inference_method_new = text_new validate_envelope_name ''InferenceMethodId'' InferenceMethodId"

record inference_envelope =
  ie_endpoint :: provider_endpoint_id
  ie_model :: model_id
  ie_method :: inference_method_id
  ie_protocol_digest :: digest

record inference_budget =
  ib_requests :: u64
  ib_input_bytes :: u64
  ib_output_bytes :: u64
  ib_cost_microunits :: u64

record inference_usage =
  iu_requests :: u64
  iu_input_bytes :: u64
  iu_output_bytes :: u64
  iu_cost_microunits :: u64

definition usage_default :: inference_usage where
  "usage_default = \<lparr>iu_requests = 0, iu_input_bytes = 0, iu_output_bytes = 0, iu_cost_microunits = 0\<rparr>"

definition budget_validate :: "inference_budget \<Rightarrow> capability_definition_error + unit" where
  "budget_validate b = (if ib_requests b = 0 then Err CapZeroRequestBudget else Ok ())"

definition usage_checked_add :: "inference_usage \<Rightarrow> inference_usage \<Rightarrow> inference_usage option" where
  "usage_checked_add u r =
     (case checked_add_u64 (iu_requests u) (iu_requests r) of None \<Rightarrow> None | Some a \<Rightarrow>
     (case checked_add_u64 (iu_input_bytes u) (iu_input_bytes r) of None \<Rightarrow> None | Some b \<Rightarrow>
     (case checked_add_u64 (iu_output_bytes u) (iu_output_bytes r) of None \<Rightarrow> None | Some c \<Rightarrow>
     (case checked_add_u64 (iu_cost_microunits u) (iu_cost_microunits r) of None \<Rightarrow> None | Some d \<Rightarrow>
        Some \<lparr>iu_requests = a, iu_input_bytes = b, iu_output_bytes = c, iu_cost_microunits = d\<rparr>))))"

datatype budget_dimension = DimRequests | DimInputBytes | DimOutputBytes | DimCostMicrounits

definition first_exceeded :: "inference_usage \<Rightarrow> inference_budget \<Rightarrow> budget_dimension option" where
  "first_exceeded u b =
     (if iu_requests u > ib_requests b then Some DimRequests
      else if iu_input_bytes u > ib_input_bytes b then Some DimInputBytes
      else if iu_output_bytes u > ib_output_bytes b then Some DimOutputBytes
      else if iu_cost_microunits u > ib_cost_microunits b then Some DimCostMicrounits
      else None)"

definition envelope_json :: "inference_envelope \<Rightarrow> json" where
  "envelope_json e = JObj
     [(''endpoint'', JStr (endpoint_str (ie_endpoint e))),
      (''model'', JStr (model_str (ie_model e))),
      (''method'', JStr (method_str (ie_method e))),
      (''protocol_digest'', digest_json (ie_protocol_digest e))]"

definition budget_json :: "inference_budget \<Rightarrow> json" where
  "budget_json b = JObj
     [(''requests'', u64_json (ib_requests b)),
      (''input_bytes'', u64_json (ib_input_bytes b)),
      (''output_bytes'', u64_json (ib_output_bytes b)),
      (''cost_microunits'', u64_json (ib_cost_microunits b))]"

text \<open>Usage within a budget, in every dimension and as natural numbers.\<close>

definition within_budget :: "inference_usage \<Rightarrow> inference_budget \<Rightarrow> bool" where
  "within_budget u b \<longleftrightarrow>
     unat (iu_requests u) \<le> unat (ib_requests b) \<and>
     unat (iu_input_bytes u) \<le> unat (ib_input_bytes b) \<and>
     unat (iu_output_bytes u) \<le> unat (ib_output_bytes b) \<and>
     unat (iu_cost_microunits u) \<le> unat (ib_cost_microunits b)"

lemma first_exceeded_None_iff: "first_exceeded u b = None \<longleftrightarrow> within_budget u b"
  by (auto simp: first_exceeded_def within_budget_def word_le_nat_alt [symmetric] not_less)

lemma usage_checked_add_Some_iff:
  "usage_checked_add u r = Some v \<longleftrightarrow>
     checked_add_u64 (iu_requests u) (iu_requests r) = Some (iu_requests v) \<and>
     checked_add_u64 (iu_input_bytes u) (iu_input_bytes r) = Some (iu_input_bytes v) \<and>
     checked_add_u64 (iu_output_bytes u) (iu_output_bytes r) = Some (iu_output_bytes v) \<and>
     checked_add_u64 (iu_cost_microunits u) (iu_cost_microunits r) = Some (iu_cost_microunits v)"
  by (auto simp: usage_checked_add_def split: option.splits)

end
