(* ===== verification/AG_Identity.thy ===== *)
theory AG_Identity
  imports AG_Inference
begin

text \<open>
  \<open>crates/ag-primitives/src/identity.rs\<close>: strict names, the four principal kinds with the JSON
  trees their digests commit to, linear principal chains, and the proposer/ratifier separation
  predicate.  \<open>id\<close> methods panic when the canonical printer fails; the panic is \<open>None\<close>.
\<close>

section \<open>Names\<close>

datatype principal_name_error =
    NameEmpty string
  | NameTooLong string nat nat
  | NameNonCanonical string

definition validate_name :: "string \<Rightarrow> string \<Rightarrow> principal_name_error + unit" where
  "validate_name kind value =
     (if value = [] then Err (NameEmpty kind)
      else if length value > 128 then Err (NameTooLong kind 128 (length value))
      else if \<not> id_endpoint (value ! 0) \<or> \<not> id_endpoint (value ! (length value - 1))
        \<or> \<not> list_all id_admitted value then Err (NameNonCanonical kind)
      else Ok ())"

interpretation name_id: identifier_validator validate_name 128
  by unfold_locales (auto simp: validate_name_def canonical_identifier_nth)

datatype enrollment_id = EnrollmentId (enrollment_str: string)
datatype role_id = RoleId (role_str: string)
datatype project_id = ProjectId (project_str: string)
datatype session_id = SessionId (session_str: string)
datatype systemd_unit_identity = SystemdUnitIdentity (unit_str: string)
datatype boot_identity = BootIdentity (boot_str: string)
datatype cgroup_identity = CgroupIdentity (cgroup_str: string)

definition enrollment_id_new :: "string \<Rightarrow> principal_name_error + enrollment_id" where
  "enrollment_id_new = text_new validate_name ''EnrollmentId'' EnrollmentId"
definition role_id_new :: "string \<Rightarrow> principal_name_error + role_id" where
  "role_id_new = text_new validate_name ''RoleId'' RoleId"
definition project_id_new :: "string \<Rightarrow> principal_name_error + project_id" where
  "project_id_new = text_new validate_name ''ProjectId'' ProjectId"
definition session_id_new :: "string \<Rightarrow> principal_name_error + session_id" where
  "session_id_new = text_new validate_name ''SessionId'' SessionId"
definition systemd_unit_new :: "string \<Rightarrow> principal_name_error + systemd_unit_identity" where
  "systemd_unit_new = text_new validate_name ''SystemdUnitIdentity'' SystemdUnitIdentity"
definition boot_identity_new :: "string \<Rightarrow> principal_name_error + boot_identity" where
  "boot_identity_new = text_new validate_name ''BootIdentity'' BootIdentity"
definition cgroup_identity_new :: "string \<Rightarrow> principal_name_error + cgroup_identity" where
  "cgroup_identity_new = text_new validate_name ''CgroupIdentity'' CgroupIdentity"

section \<open>Principals\<close>

record executable_identity =
  xi_sha256 :: digest
  xi_size :: u64
  xi_build_identity :: "digest option"

record launch_profile_identity =
  lp_profile_digest :: digest
  lp_protocol_schema_digest :: digest

record host_credential_observation =
  hc_uid :: u32
  hc_gid :: u32
  hc_pid :: u32
  hc_cgroup :: cgroup_identity

datatype worker_provider_route =
    RouteOffline
  | RouteConstrained (route_policy_digest: digest) (route_envelope: inference_envelope)
      (route_budget: inference_budget)

datatype principal_enrollment_state = EnrollmentActive | EnrollmentRevoked

datatype principal_id = PrincipalId (principal_digest: digest)

record operator_principal =
  op_authority_domain :: authority_domain_id
  op_epoch :: epoch_id
  op_enrollment_id :: enrollment_id
  op_configured_role :: role_id
  op_enrollment_policy_digest :: digest
  op_enrollment_lifecycle_nonce :: lifecycle_nonce
  op_enrollment_state :: principal_enrollment_state
  op_observed_credentials :: host_credential_observation

record daemon_principal =
  dp_authority_domain :: authority_domain_id
  dp_epoch :: epoch_id
  dp_configured_role :: role_id
  dp_service_unit :: systemd_unit_identity
  dp_executable :: executable_identity
  dp_launch_profile :: launch_profile_identity
  dp_service_instance_nonce :: lifecycle_nonce
  dp_boot_identity :: boot_identity
  dp_observed_credentials :: host_credential_observation

record service_principal =
  sp_authority_domain :: authority_domain_id
  sp_epoch :: epoch_id
  sp_enrollment_id :: enrollment_id
  sp_configured_role :: role_id
  sp_service_unit :: systemd_unit_identity
  sp_executable :: executable_identity
  sp_launch_profile :: launch_profile_identity
  sp_service_instance_nonce :: lifecycle_nonce
  sp_boot_identity :: boot_identity
  sp_enrollment_state :: principal_enrollment_state
  sp_observed_credentials :: host_credential_observation

record worker_session_principal =
  wp_authority_domain :: authority_domain_id
  wp_epoch :: epoch_id
  wp_project :: project_id
  wp_session_id :: session_id
  wp_session_nonce :: lifecycle_nonce
  wp_launcher :: principal_id
  wp_executable :: executable_identity
  wp_launch_profile :: launch_profile_identity
  wp_proposal_workspace_identity :: digest
  wp_security_profile_identity :: digest
  wp_candidate_ingress_key_identity :: digest
  wp_expires_at_unix_ms :: u64
  wp_output_budget_bytes :: u64
  wp_provider_route :: worker_provider_route
  wp_input_set_digest :: digest
  wp_observed_credentials :: host_credential_observation

datatype principal =
    Operator operator_principal
  | Daemon daemon_principal
  | Service service_principal
  | WorkerSession worker_session_principal

datatype principal_kind = KOperator | KDaemon | KService | KWorkerSession

fun kind_of :: "principal \<Rightarrow> principal_kind" where
  "kind_of (Operator v) = KOperator"
| "kind_of (Daemon v) = KDaemon"
| "kind_of (Service v) = KService"
| "kind_of (WorkerSession v) = KWorkerSession"

fun principal_domain :: "principal \<Rightarrow> authority_domain_id" where
  "principal_domain (Operator v) = op_authority_domain v"
| "principal_domain (Daemon v) = dp_authority_domain v"
| "principal_domain (Service v) = sp_authority_domain v"
| "principal_domain (WorkerSession v) = wp_authority_domain v"

fun principal_epoch :: "principal \<Rightarrow> epoch_id" where
  "principal_epoch (Operator v) = op_epoch v"
| "principal_epoch (Daemon v) = dp_epoch v"
| "principal_epoch (Service v) = sp_epoch v"
| "principal_epoch (WorkerSession v) = wp_epoch v"

subsection \<open>The JSON trees that principal digests commit to\<close>

definition u32_json :: "u32 \<Rightarrow> json" where
  "u32_json w = JNum (uint w)"

definition domain_json :: "authority_domain_id \<Rightarrow> json" where
  "domain_json d = JStr (domain_str d)"

definition principal_id_json :: "principal_id \<Rightarrow> json" where
  "principal_id_json p = digest_json (principal_digest p)"

definition executable_json :: "executable_identity \<Rightarrow> json" where
  "executable_json x = JObj
     [(''sha256'', digest_json (xi_sha256 x)), (''size'', u64_json (xi_size x)),
      (''build_identity'', option_json digest_json (xi_build_identity x))]"

definition launch_profile_json :: "launch_profile_identity \<Rightarrow> json" where
  "launch_profile_json p = JObj
     [(''profile_digest'', digest_json (lp_profile_digest p)),
      (''protocol_schema_digest'', digest_json (lp_protocol_schema_digest p))]"

definition credentials_json :: "host_credential_observation \<Rightarrow> json" where
  "credentials_json c = JObj
     [(''uid'', u32_json (hc_uid c)), (''gid'', u32_json (hc_gid c)), (''pid'', u32_json (hc_pid c)),
      (''cgroup'', JStr (cgroup_str (hc_cgroup c)))]"

fun provider_route_json :: "worker_provider_route \<Rightarrow> json" where
  "provider_route_json RouteOffline = JObj [(''route'', JStr ''offline'')]"
| "provider_route_json (RouteConstrained d e b) = JObj
     [(''route'', JStr ''constrained''), (''provider_policy_digest'', digest_json d),
      (''envelope'', envelope_json e), (''budget'', budget_json b)]"

fun enrollment_state_json :: "principal_enrollment_state \<Rightarrow> json" where
  "enrollment_state_json EnrollmentActive = JStr ''active''"
| "enrollment_state_json EnrollmentRevoked = JStr ''revoked''"

definition operator_json :: "env \<Rightarrow> operator_principal \<Rightarrow> json" where
  "operator_json E v = JObj
     [(''authority_domain'', domain_json (op_authority_domain v)),
      (''epoch'', epoch_json (op_epoch v)),
      (''enrollment_id'', JStr (enrollment_str (op_enrollment_id v))),
      (''configured_role'', JStr (role_str (op_configured_role v))),
      (''enrollment_policy_digest'', digest_json (op_enrollment_policy_digest v)),
      (''enrollment_lifecycle_nonce'', nonce_json E (op_enrollment_lifecycle_nonce v)),
      (''enrollment_state'', enrollment_state_json (op_enrollment_state v)),
      (''observed_credentials'', credentials_json (op_observed_credentials v))]"

definition daemon_json :: "env \<Rightarrow> daemon_principal \<Rightarrow> json" where
  "daemon_json E v = JObj
     [(''authority_domain'', domain_json (dp_authority_domain v)),
      (''epoch'', epoch_json (dp_epoch v)),
      (''configured_role'', JStr (role_str (dp_configured_role v))),
      (''service_unit'', JStr (unit_str (dp_service_unit v))),
      (''executable'', executable_json (dp_executable v)),
      (''launch_profile'', launch_profile_json (dp_launch_profile v)),
      (''service_instance_nonce'', nonce_json E (dp_service_instance_nonce v)),
      (''boot_identity'', JStr (boot_str (dp_boot_identity v))),
      (''observed_credentials'', credentials_json (dp_observed_credentials v))]"

definition service_json :: "env \<Rightarrow> service_principal \<Rightarrow> json" where
  "service_json E v = JObj
     [(''authority_domain'', domain_json (sp_authority_domain v)),
      (''epoch'', epoch_json (sp_epoch v)),
      (''enrollment_id'', JStr (enrollment_str (sp_enrollment_id v))),
      (''configured_role'', JStr (role_str (sp_configured_role v))),
      (''service_unit'', JStr (unit_str (sp_service_unit v))),
      (''executable'', executable_json (sp_executable v)),
      (''launch_profile'', launch_profile_json (sp_launch_profile v)),
      (''service_instance_nonce'', nonce_json E (sp_service_instance_nonce v)),
      (''boot_identity'', JStr (boot_str (sp_boot_identity v))),
      (''enrollment_state'', enrollment_state_json (sp_enrollment_state v)),
      (''observed_credentials'', credentials_json (sp_observed_credentials v))]"

definition worker_session_json :: "env \<Rightarrow> worker_session_principal \<Rightarrow> json" where
  "worker_session_json E v = JObj
     [(''authority_domain'', domain_json (wp_authority_domain v)),
      (''epoch'', epoch_json (wp_epoch v)),
      (''project'', JStr (project_str (wp_project v))),
      (''session_id'', JStr (session_str (wp_session_id v))),
      (''session_nonce'', nonce_json E (wp_session_nonce v)),
      (''launcher'', principal_id_json (wp_launcher v)),
      (''executable'', executable_json (wp_executable v)),
      (''launch_profile'', launch_profile_json (wp_launch_profile v)),
      (''proposal_workspace_identity'', digest_json (wp_proposal_workspace_identity v)),
      (''security_profile_identity'', digest_json (wp_security_profile_identity v)),
      (''candidate_ingress_key_identity'', digest_json (wp_candidate_ingress_key_identity v)),
      (''expires_at_unix_ms'', u64_json (wp_expires_at_unix_ms v)),
      (''output_budget_bytes'', u64_json (wp_output_budget_bytes v)),
      (''provider_route'', provider_route_json (wp_provider_route v)),
      (''input_set_digest'', digest_json (wp_input_set_digest v)),
      (''observed_credentials'', credentials_json (wp_observed_credentials v))]"

fun principal_json :: "env \<Rightarrow> principal \<Rightarrow> json" where
  "principal_json E (Operator v) =
     JObj [(''principal_kind'', JStr ''operator''), (''principal'', operator_json E v)]"
| "principal_json E (Daemon v) =
     JObj [(''principal_kind'', JStr ''daemon''), (''principal'', daemon_json E v)]"
| "principal_json E (Service v) =
     JObj [(''principal_kind'', JStr ''service''), (''principal'', service_json E v)]"
| "principal_json E (WorkerSession v) =
     JObj [(''principal_kind'', JStr ''worker_session''), (''principal'', worker_session_json E v)]"

text \<open>The domain-separated digest of a canonical document; \<open>None\<close> where \<open>expect\<close> panics.\<close>

definition domain_id :: "env \<Rightarrow> string \<Rightarrow> json \<Rightarrow> digest option" where
  "domain_id E d v =
     (case canonicalize E v of Inr doc \<Rightarrow> Some (hash_domain E d doc) | Inl _ \<Rightarrow> None)"

definition principal_id_of :: "env \<Rightarrow> principal \<Rightarrow> principal_id option" where
  "principal_id_of E p = map_option PrincipalId (domain_id E ''ag-ng/principal/v1'' (principal_json E p))"

section \<open>Principal chains\<close>

record principal_chain_node =
  cn_principal_id :: principal_id
  cn_kind :: principal_kind
  cn_parent :: "principal_id option"

definition chain_root_node :: "principal_id \<Rightarrow> principal_kind \<Rightarrow> principal_chain_node" where
  "chain_root_node p k = \<lparr>cn_principal_id = p, cn_kind = k, cn_parent = None\<rparr>"

definition chain_child_node :: "principal_id \<Rightarrow> principal_kind \<Rightarrow> principal_id \<Rightarrow> principal_chain_node" where
  "chain_child_node p k q = \<lparr>cn_principal_id = p, cn_kind = k, cn_parent = Some q\<rparr>"

record principal_chain =
  pc_authority_domain :: authority_domain_id
  pc_epoch :: epoch_id
  pc_nodes :: "principal_chain_node list"

datatype principal_chain_error =
    ChainEmpty
  | ChainWorkerRoot
  | ChainRootHasParent
  | ChainParentMismatch nat
  | ChainDuplicatePrincipal nat

fun chain_scan :: "principal_id list \<Rightarrow> nat \<Rightarrow> principal_id option \<Rightarrow> principal_chain_node list
    \<Rightarrow> principal_chain_error + unit" where
  "chain_scan seen index previous [] = Ok ()"
| "chain_scan seen index previous (node # nodes) =
     (if cn_principal_id node \<in> set seen then Err (ChainDuplicatePrincipal index)
      else if index > 0 \<and> cn_parent node \<noteq> previous then Err (ChainParentMismatch index)
      else chain_scan (cn_principal_id node # seen) (Suc index) (Some (cn_principal_id node)) nodes)"

definition validate_chain :: "principal_chain_node list \<Rightarrow> principal_chain_error + unit" where
  "validate_chain nodes =
     (case nodes of
        [] \<Rightarrow> Err ChainEmpty
      | root # _ \<Rightarrow>
          if cn_kind root = KWorkerSession then Err ChainWorkerRoot
          else if cn_parent root \<noteq> None then Err ChainRootHasParent
          else chain_scan [] 0 None nodes)"

definition chain_new :: "authority_domain_id \<Rightarrow> epoch_id \<Rightarrow> principal_chain_node list
    \<Rightarrow> principal_chain_error + principal_chain" where
  "chain_new d e nodes =
     res_bind (validate_chain nodes) (\<lambda>_.
       Ok \<lparr>pc_authority_domain = d, pc_epoch = e, pc_nodes = nodes\<rparr>)"

definition chain_root :: "principal_chain \<Rightarrow> principal_chain_node" where
  "chain_root c = pc_nodes c ! 0"

definition chain_leaf :: "principal_chain \<Rightarrow> principal_chain_node" where
  "chain_leaf c = last (pc_nodes c)"

fun kind_str :: "principal_kind \<Rightarrow> string" where
  "kind_str KOperator = ''operator''"
| "kind_str KDaemon = ''daemon''"
| "kind_str KService = ''service''"
| "kind_str KWorkerSession = ''worker_session''"

definition chain_node_json :: "principal_chain_node \<Rightarrow> json" where
  "chain_node_json n = JObj
     [(''principal_id'', principal_id_json (cn_principal_id n)),
      (''kind'', JStr (kind_str (cn_kind n))),
      (''parent'', option_json principal_id_json (cn_parent n))]"

definition chain_json :: "principal_chain \<Rightarrow> json" where
  "chain_json c = JObj
     [(''authority_domain'', domain_json (pc_authority_domain c)),
      (''epoch'', epoch_json (pc_epoch c)),
      (''nodes'', JArr (map chain_node_json (pc_nodes c)))]"

definition chain_id :: "env \<Rightarrow> principal_chain \<Rightarrow> digest option" where
  "chain_id E c = domain_id E ''ag-ng/principal-chain/v1'' (chain_json c)"

section \<open>Separation of proposer and ratifier\<close>

datatype separation_predicate = DistinctRootsNoSharedLineage

datatype separation_failure =
    SepAuthorityContextMismatch
  | SepSameStableRoot
  | SepRatifierDescendsFromProposer
  | SepSharedWorkerAncestor
  | SepSharedPrincipal

definition chain_ids :: "principal_chain \<Rightarrow> principal_id list" where
  "chain_ids c = map cn_principal_id (pc_nodes c)"

definition worker_ids :: "principal_chain \<Rightarrow> principal_id list" where
  "worker_ids c =
     map cn_principal_id (filter (\<lambda>n. cn_kind n = KWorkerSession) (pc_nodes c))"

definition check_distinct_roots_no_shared_lineage ::
  "principal_chain \<Rightarrow> principal_chain \<Rightarrow> separation_failure + unit" where
  "check_distinct_roots_no_shared_lineage c ratifier =
     (if pc_authority_domain c \<noteq> pc_authority_domain ratifier \<or> pc_epoch c \<noteq> pc_epoch ratifier
      then Err SepAuthorityContextMismatch
      else if cn_principal_id (chain_root c) = cn_principal_id (chain_root ratifier)
      then Err SepSameStableRoot
      else if list_ex (\<lambda>n. cn_principal_id n = cn_principal_id (chain_leaf c)) (pc_nodes ratifier)
      then Err SepRatifierDescendsFromProposer
      else if list_ex (\<lambda>n. cn_kind n = KWorkerSession \<and> cn_principal_id n \<in> set (worker_ids c))
        (pc_nodes ratifier)
      then Err SepSharedWorkerAncestor
      else if list_ex (\<lambda>n. cn_principal_id n \<in> set (chain_ids c)) (pc_nodes ratifier)
      then Err SepSharedPrincipal
      else Ok ())"

fun chain_satisfies :: "principal_chain \<Rightarrow> principal_chain \<Rightarrow> separation_predicate
    \<Rightarrow> separation_failure + unit" where
  "chain_satisfies c ratifier DistinctRootsNoSharedLineage =
     check_distinct_roots_no_shared_lineage c ratifier"

definition independent_from :: "principal_chain \<Rightarrow> principal_chain \<Rightarrow> bool" where
  "independent_from c ratifier \<longleftrightarrow> is_ok (chain_satisfies c ratifier DistinctRootsNoSharedLineage)"

section \<open>Lemmas\<close>

lemma chain_scan_iff:
  "chain_scan seen i prev ns = Inr () \<longleftrightarrow>
     distinct (map cn_principal_id ns) \<and> set seen \<inter> cn_principal_id ` set ns = {} \<and>
     (\<forall>j < length ns. i + j > 0 \<longrightarrow>
        cn_parent (ns ! j) = (if j = 0 then prev else Some (cn_principal_id (ns ! (j - 1)))))"
proof (induction ns arbitrary: seen i prev)
  case Nil
  then show ?case by simp
next
  case (Cons n ns)
  have split: "(\<forall>j < length (n # ns). P j) \<longleftrightarrow> P 0 \<and> (\<forall>j < length ns. P (Suc j))" for P
    using less_Suc_eq_0_disj by auto
  have shift: "(if j = 0 then Some (cn_principal_id n) else Some (cn_principal_id (ns ! (j - 1))))
      = Some (cn_principal_id ((n # ns) ! j))" for j
    by (cases j) simp_all
  show ?case
    unfolding split by (auto simp: Cons.IH shift)
qed

text \<open>The declarative reading of a linear lineage.\<close>

definition linear_lineage :: "principal_chain_node list \<Rightarrow> bool" where
  "linear_lineage ns \<longleftrightarrow>
     ns \<noteq> [] \<and> cn_kind (hd ns) \<noteq> KWorkerSession \<and> cn_parent (hd ns) = None \<and>
     distinct (map cn_principal_id ns) \<and>
     (\<forall>j. 0 < j \<and> j < length ns \<longrightarrow> cn_parent (ns ! j) = Some (cn_principal_id (ns ! (j - 1))))"

lemma chain_members:
  assumes "pc_nodes c \<noteq> []"
  shows "cn_principal_id (chain_root c) \<in> set (chain_ids c)"
    and "cn_principal_id (chain_leaf c) \<in> set (chain_ids c)"
    and "set (worker_ids c) \<subseteq> set (chain_ids c)"
  using assms by (auto simp: chain_root_def chain_leaf_def chain_ids_def worker_ids_def)

lemma separation_iff:
  assumes "pc_nodes a \<noteq> []" and "pc_nodes b \<noteq> []"
  shows "independent_from a b \<longleftrightarrow>
    pc_authority_domain a = pc_authority_domain b \<and> pc_epoch a = pc_epoch b \<and>
    set (chain_ids a) \<inter> set (chain_ids b) = {}"
proof -
  have b: "set (chain_ids b) = cn_principal_id ` set (pc_nodes b)" by (simp add: chain_ids_def)
  show ?thesis
    using chain_members [OF assms(1)] chain_members [OF assms(2)]
    by (auto simp: independent_from_def check_distinct_roots_no_shared_lineage_def list_ex_iff b)
qed

lemma validated_nonempty: "validate_chain ns = Inr () \<Longrightarrow> ns \<noteq> []"
  by (auto simp: validate_chain_def)

section \<open>Properties\<close>

text \<open>
  C33: chain validation accepts exactly the linear lineages: a nonempty chain whose root is not a
  worker session and names no parent, in which every later node names the node just before it
  as parent, and in which no principal occurs twice.
\<close>

theorem chain_validation_exact: "validate_chain ns = Ok () \<longleftrightarrow> linear_lineage ns"
proof -
  have scan: "chain_scan [] 0 None ns = Inr () \<longleftrightarrow> distinct (map cn_principal_id ns) \<and>
      (\<forall>j. 0 < j \<and> j < length ns \<longrightarrow> cn_parent (ns ! j) = Some (cn_principal_id (ns ! (j - 1))))"
    unfolding chain_scan_iff by auto
  have "validate_chain ns = Ok () \<longleftrightarrow> ns \<noteq> [] \<and> cn_kind (hd ns) \<noteq> KWorkerSession \<and>
      cn_parent (hd ns) = None \<and> chain_scan [] 0 None ns = Inr ()"
    by (cases ns) (simp_all add: validate_chain_def del: chain_scan.simps)
  then show ?thesis by (simp add: linear_lineage_def scan)
qed

text \<open>
  Separation of duties.  Between two validated chains the five ordered checks succeed exactly
  when both belong to one authority domain and epoch and no principal occurs in both; the
  relation is therefore symmetric, although the code checks descent in one direction only.
\<close>

theorem separation_exact:
  assumes "validate_chain (pc_nodes a) = Ok ()" and "validate_chain (pc_nodes b) = Ok ()"
  shows "(independent_from a b \<longleftrightarrow>
      pc_authority_domain a = pc_authority_domain b \<and> pc_epoch a = pc_epoch b \<and>
      (\<forall>p. p \<in> set (chain_ids a) \<longrightarrow> p \<notin> set (chain_ids b))) \<and>
    (independent_from a b \<longleftrightarrow> independent_from b a)"
  using separation_iff [of a b] separation_iff [of b a] assms [THEN validated_nonempty] by auto

definition sample_chain :: "string list \<Rightarrow> principal_chain" where
  "sample_chain ids = \<lparr>pc_authority_domain = AuthorityDomainId ''prod'', pc_epoch = EpochId 3,
     pc_nodes = (case ids of
        r # w # _ \<Rightarrow> [chain_root_node (PrincipalId (Digest r)) KDaemon,
          chain_child_node (PrincipalId (Digest w)) KWorkerSession (PrincipalId (Digest r))]
      | [r] \<Rightarrow> [chain_root_node (PrincipalId (Digest r)) KOperator]
      | [] \<Rightarrow> [])\<rparr>"

theorem separation_exact_witness:
  "independent_from (sample_chain [''daemon'', ''worker'']) (sample_chain [''human'']) \<and>
   \<not> independent_from (sample_chain [''daemon'', ''worker'']) (sample_chain [''daemon''])"
proof -
  have valid: "validate_chain (pc_nodes (sample_chain [''daemon'', ''worker''])) = Ok ()"
    "validate_chain (pc_nodes (sample_chain [''human''])) = Ok ()"
    "validate_chain (pc_nodes (sample_chain [''daemon''])) = Ok ()"
    by code_simp+
  show ?thesis
    using separation_exact [OF valid(1,2)] separation_exact [OF valid(1,3)]
    by (simp add: sample_chain_def chain_ids_def chain_root_node_def chain_child_node_def)
qed

end
