(* ===== verification/AG_Capability.thy ===== *)
theory AG_Capability
  imports AG_Identity
begin

text \<open>
  \<open>crates/ag-primitives/src/capability.rs\<close>: session-bound inference capabilities and the check
  of one use against live state.  \<open>run_uses\<close> threads the resulting usage of each accepted use
  into the next check, which is what the provider store commits before it dispatches.
\<close>

record inference_capability =
  ca_authority_domain :: authority_domain_id
  ca_epoch :: epoch_id
  ca_project :: project_id
  ca_session_id :: session_id
  ca_session_nonce :: lifecycle_nonce
  ca_worker_principal :: principal_id
  ca_provider_policy_digest :: digest
  ca_envelope :: inference_envelope
  ca_budget :: inference_budget
  ca_not_before_unix_ms :: u64
  ca_expires_at_unix_ms :: u64
  ca_capability_nonce :: lifecycle_nonce

datatype inference_capability_id = InferenceCapabilityId (capability_digest: digest)

definition validate_definition :: "inference_capability \<Rightarrow> capability_definition_error + unit" where
  "validate_definition c =
     (if ca_not_before_unix_ms c \<ge> ca_expires_at_unix_ms c then Err CapInvalidLifetime
      else budget_validate (ca_budget c))"

definition capability_new :: "inference_capability \<Rightarrow> capability_definition_error + inference_capability" where
  "capability_new c = res_bind (validate_definition c) (\<lambda>_. Ok c)"

definition capability_json :: "env \<Rightarrow> inference_capability \<Rightarrow> json" where
  "capability_json E c = JObj
     [(''authority_domain'', domain_json (ca_authority_domain c)),
      (''epoch'', epoch_json (ca_epoch c)),
      (''project'', JStr (project_str (ca_project c))),
      (''session_id'', JStr (session_str (ca_session_id c))),
      (''session_nonce'', nonce_json E (ca_session_nonce c)),
      (''worker_principal'', principal_id_json (ca_worker_principal c)),
      (''provider_policy_digest'', digest_json (ca_provider_policy_digest c)),
      (''envelope'', envelope_json (ca_envelope c)),
      (''budget'', budget_json (ca_budget c)),
      (''not_before_unix_ms'', u64_json (ca_not_before_unix_ms c)),
      (''expires_at_unix_ms'', u64_json (ca_expires_at_unix_ms c)),
      (''capability_nonce'', nonce_json E (ca_capability_nonce c))]"

definition capability_id :: "env \<Rightarrow> inference_capability \<Rightarrow> inference_capability_id option" where
  "capability_id E c =
     map_option InferenceCapabilityId (domain_id E ''ag-ng/inference-capability/v1'' (capability_json E c))"

datatype session_lifecycle_state = SlActive | SlCancelling | SlTerminal

datatype revocation_state =
    NotRevoked
  | Revoked (revoked_at_unix_ms: u64) (revocation_reason: digest)

record capability_use_context =
  cu_authority_domain :: authority_domain_id
  cu_epoch :: epoch_id
  cu_project :: project_id
  cu_session_id :: session_id
  cu_session_nonce :: lifecycle_nonce
  cu_peer_principal :: principal_id
  cu_provider_policy_digest :: digest
  cu_requested_envelope :: inference_envelope
  cu_committed_usage :: inference_usage
  cu_requested_usage :: inference_usage
  cu_now_unix_ms :: u64
  cu_session_state :: session_lifecycle_state
  cu_revocation_state :: revocation_state

record validated_inference_use =
  vu_capability_id :: inference_capability_id
  vu_worker_principal :: principal_id
  vu_session_id :: session_id
  vu_session_nonce :: lifecycle_nonce
  vu_envelope :: inference_envelope
  vu_resulting_usage :: inference_usage
  vu_checked_at_unix_ms :: u64

datatype capability_use_error =
    UseInvalidDefinition capability_definition_error
  | UseRevoked
  | UseSessionNotActive session_lifecycle_state
  | UseAuthorityDomainMismatch
  | UseEpochMismatch
  | UseProjectMismatch
  | UseSessionMismatch
  | UseSessionLifecycleMismatch
  | UsePeerPrincipalMismatch
  | UseProviderPolicyMismatch
  | UseEnvelopeMismatch
  | UseNotYetValid
  | UseExpired
  | UseMustCountExactlyOneRequest
  | UseUsageOverflow
  | UseBudgetExceeded budget_dimension

text \<open>\<open>validate_use\<close> ends with \<open>self.id()\<close>, whose panic is the outer \<open>None\<close>.\<close>

definition validate_use :: "env \<Rightarrow> inference_capability \<Rightarrow> capability_use_context
    \<Rightarrow> (capability_use_error + validated_inference_use) option" where
  "validate_use E c x =
     (case validate_definition c of Inl e \<Rightarrow> Some (Err (UseInvalidDefinition e)) | Inr _ \<Rightarrow>
      if cu_revocation_state x \<noteq> NotRevoked then Some (Err UseRevoked)
      else if cu_session_state x \<noteq> SlActive then Some (Err (UseSessionNotActive (cu_session_state x)))
      else if ca_authority_domain c \<noteq> cu_authority_domain x then Some (Err UseAuthorityDomainMismatch)
      else if ca_epoch c \<noteq> cu_epoch x then Some (Err UseEpochMismatch)
      else if ca_project c \<noteq> cu_project x then Some (Err UseProjectMismatch)
      else if ca_session_id c \<noteq> cu_session_id x then Some (Err UseSessionMismatch)
      else if ca_session_nonce c \<noteq> cu_session_nonce x then Some (Err UseSessionLifecycleMismatch)
      else if ca_worker_principal c \<noteq> cu_peer_principal x then Some (Err UsePeerPrincipalMismatch)
      else if ca_provider_policy_digest c \<noteq> cu_provider_policy_digest x
        then Some (Err UseProviderPolicyMismatch)
      else if ca_envelope c \<noteq> cu_requested_envelope x then Some (Err UseEnvelopeMismatch)
      else if cu_now_unix_ms x < ca_not_before_unix_ms c then Some (Err UseNotYetValid)
      else if cu_now_unix_ms x \<ge> ca_expires_at_unix_ms c then Some (Err UseExpired)
      else if iu_requests (cu_requested_usage x) \<noteq> 1 then Some (Err UseMustCountExactlyOneRequest)
      else case usage_checked_add (cu_committed_usage x) (cu_requested_usage x) of
          None \<Rightarrow> Some (Err UseUsageOverflow)
        | Some resulting \<Rightarrow>
            (case first_exceeded resulting (ca_budget c) of
               Some d \<Rightarrow> Some (Err (UseBudgetExceeded d))
             | None \<Rightarrow>
                 map_option (\<lambda>i. Ok \<lparr>vu_capability_id = i,
                     vu_worker_principal = ca_worker_principal c,
                     vu_session_id = ca_session_id c, vu_session_nonce = ca_session_nonce c,
                     vu_envelope = ca_envelope c, vu_resulting_usage = resulting,
                     vu_checked_at_unix_ms = cu_now_unix_ms x\<rparr>)
                   (capability_id E c)))"

text \<open>
  The live conditions as one predicate, and the sequence of checks in which every accepted use
  commits its resulting usage: the accepted uses and the usage committed at the end.
\<close>

definition live_match :: "inference_capability \<Rightarrow> capability_use_context \<Rightarrow> bool" where
  "live_match c x \<longleftrightarrow>
     cu_revocation_state x = NotRevoked \<and> cu_session_state x = SlActive \<and>
     ca_authority_domain c = cu_authority_domain x \<and> ca_epoch c = cu_epoch x \<and>
     ca_project c = cu_project x \<and> ca_session_id c = cu_session_id x \<and>
     ca_session_nonce c = cu_session_nonce x \<and> ca_worker_principal c = cu_peer_principal x \<and>
     ca_provider_policy_digest c = cu_provider_policy_digest x \<and>
     ca_envelope c = cu_requested_envelope x \<and>
     ca_not_before_unix_ms c \<le> cu_now_unix_ms x \<and> cu_now_unix_ms x < ca_expires_at_unix_ms c"

fun run_uses :: "env \<Rightarrow> inference_capability \<Rightarrow> inference_usage \<Rightarrow> capability_use_context list
    \<Rightarrow> validated_inference_use list \<times> inference_usage" where
  "run_uses E c u [] = ([], u)"
| "run_uses E c u (x # xs) =
     (case validate_use E c (x\<lparr>cu_committed_usage := u\<rparr>) of
        Some (Inr v) \<Rightarrow>
          (let (vs, u') = run_uses E c (vu_resulting_usage v) xs in (v # vs, u'))
      | _ \<Rightarrow> run_uses E c u xs)"

lemma validate_definition_iff:
  "validate_definition c = Inr () \<longleftrightarrow>
     ca_not_before_unix_ms c < ca_expires_at_unix_ms c \<and> ib_requests (ca_budget c) \<noteq> 0"
  by (auto simp: validate_definition_def budget_validate_def)

lemma validate_use_Ok:
  "validate_use E c x = Some (Inr v) \<longleftrightarrow>
     validate_definition c = Inr () \<and> live_match c x \<and>
     iu_requests (cu_requested_usage x) = 1 \<and>
     usage_checked_add (cu_committed_usage x) (cu_requested_usage x) = Some (vu_resulting_usage v) \<and>
     within_budget (vu_resulting_usage v) (ca_budget c) \<and>
     capability_id E c = Some (vu_capability_id v) \<and>
     vu_worker_principal v = ca_worker_principal c \<and> vu_session_id v = ca_session_id c \<and>
     vu_session_nonce v = ca_session_nonce c \<and> vu_envelope v = ca_envelope c \<and>
     vu_checked_at_unix_ms v = cu_now_unix_ms x"
proof -
  let ?mk = "\<lambda>i r. \<lparr>vu_capability_id = i, vu_worker_principal = ca_worker_principal c,
    vu_session_id = ca_session_id c, vu_session_nonce = ca_session_nonce c,
    vu_envelope = ca_envelope c, vu_resulting_usage = r, vu_checked_at_unix_ms = cu_now_unix_ms x\<rparr>"
  have tail: "(case usage_checked_add a b of
          None \<Rightarrow> Some (Err UseUsageOverflow)
        | Some resulting \<Rightarrow>
            (case first_exceeded resulting (ca_budget c) of
               Some d \<Rightarrow> Some (Err (UseBudgetExceeded d))
             | None \<Rightarrow> map_option (\<lambda>i. Ok (?mk i resulting)) (capability_id E c)))
        = Some (Inr v) \<longleftrightarrow>
      (\<exists>r i. usage_checked_add a b = Some r \<and> within_budget r (ca_budget c) \<and>
         capability_id E c = Some i \<and> v = ?mk i r)" for a b
    unfolding first_exceeded_None_iff [symmetric] by (auto split: option.splits)
  have "validate_use E c x = Some (Inr v) \<longleftrightarrow>
      validate_definition c = Inr () \<and> live_match c x \<and>
      iu_requests (cu_requested_usage x) = 1 \<and>
      (\<exists>r i. usage_checked_add (cu_committed_usage x) (cu_requested_usage x) = Some r \<and>
         within_budget r (ca_budget c) \<and> capability_id E c = Some i \<and> v = ?mk i r)"
    by (cases "validate_definition c")
      (simp_all add: validate_use_def guard_Some_Inr_iff tail live_match_def not_le not_less)
  then show ?thesis by (cases v) auto
qed

lemma run_uses_bound:
  assumes "run_uses E c u xs = (vs, u')" and "within_budget u (ca_budget c)"
  shows "within_budget u' (ca_budget c) \<and> unat (iu_requests u') = unat (iu_requests u) + length vs"
  using assms
proof (induction xs arbitrary: u vs)
  case Nil
  then show ?case by simp
next
  case (Cons x xs)
  let ?r = "validate_use E c (x\<lparr>cu_committed_usage := u\<rparr>)"
  show ?case
  proof (cases "\<exists>v. ?r = Some (Inr v)")
    case False
    with Cons.prems(1) have "run_uses E c u xs = (vs, u')"
      by (cases ?r) (auto split: sum.splits)
    then show ?thesis using Cons by blast
  next
    case True
    then obtain v where v: "?r = Some (Inr v)" by blast
    with Cons.prems(1) obtain ws where run: "run_uses E c (vu_resulting_usage v) xs = (ws, u')"
      and vs: "vs = v # ws" by (auto simp: Let_def split: prod.splits)
    from v have ok: "within_budget (vu_resulting_usage v) (ca_budget c)"
      and add: "checked_add_u64 (iu_requests u) 1 = Some (iu_requests (vu_resulting_usage v))"
      by (auto simp: validate_use_Ok usage_checked_add_Some_iff)
    from add have "unat (iu_requests (vu_resulting_usage v)) = unat (iu_requests u) + 1"
      by (simp add: checked_add_u64_Some_iff)
    with Cons.IH [OF run ok] vs show ?thesis by simp
  qed
qed

lemma checked_add_within:
  "(\<exists>w. checked_add_u64 a b = Some w \<and> unat w \<le> unat (m :: u64)) \<longleftrightarrow> unat a + unat b \<le> unat m"
proof
  assume "unat a + unat b \<le> unat m"
  then have "unat a + unat b < 2 ^ 64" using unat_u64_less [of m] by linarith
  then have "checked_add_u64 a b = Some (a + b)" by (simp add: checked_add_u64_def)
  moreover from this have "unat (a + b) = unat a + unat b" by (simp add: checked_add_u64_Some_iff)
  ultimately show "\<exists>w. checked_add_u64 a b = Some w \<and> unat w \<le> unat m"
    using \<open>unat a + unat b \<le> unat m\<close> by simp
qed (auto simp: checked_add_u64_Some_iff)

definition sum_within_budget :: "inference_usage \<Rightarrow> inference_usage \<Rightarrow> inference_budget \<Rightarrow> bool" where
  "sum_within_budget u r b \<longleftrightarrow>
     unat (iu_requests u) + unat (iu_requests r) \<le> unat (ib_requests b) \<and>
     unat (iu_input_bytes u) + unat (iu_input_bytes r) \<le> unat (ib_input_bytes b) \<and>
     unat (iu_output_bytes u) + unat (iu_output_bytes r) \<le> unat (ib_output_bytes b) \<and>
     unat (iu_cost_microunits u) + unat (iu_cost_microunits r) \<le> unat (ib_cost_microunits b)"

lemma usage_add_within_iff:
  "(\<exists>v. usage_checked_add u r = Some v \<and> within_budget v b) \<longleftrightarrow> sum_within_budget u r b"
proof -
  have "(\<exists>v. usage_checked_add u r = Some v \<and> within_budget v b) \<longleftrightarrow>
      (\<exists>w. checked_add_u64 (iu_requests u) (iu_requests r) = Some w \<and> unat w \<le> unat (ib_requests b)) \<and>
      (\<exists>w. checked_add_u64 (iu_input_bytes u) (iu_input_bytes r) = Some w \<and> unat w \<le> unat (ib_input_bytes b)) \<and>
      (\<exists>w. checked_add_u64 (iu_output_bytes u) (iu_output_bytes r) = Some w \<and> unat w \<le> unat (ib_output_bytes b)) \<and>
      (\<exists>w. checked_add_u64 (iu_cost_microunits u) (iu_cost_microunits r) = Some w \<and> unat w \<le> unat (ib_cost_microunits b))"
    (is "?L \<longleftrightarrow> ?R")
  proof
    assume ?L
    then show ?R by (auto simp: usage_checked_add_Some_iff within_budget_def)
  next
    assume ?R
    then obtain a b' c d where
      "usage_checked_add u r = Some \<lparr>iu_requests = a, iu_input_bytes = b', iu_output_bytes = c,
         iu_cost_microunits = d\<rparr>"
      "within_budget \<lparr>iu_requests = a, iu_input_bytes = b', iu_output_bytes = c,
         iu_cost_microunits = d\<rparr> b"
      by (auto simp: usage_checked_add_Some_iff within_budget_def)
    then show ?L by blast
  qed
  then show ?thesis by (simp only: checked_add_within sum_within_budget_def)
qed

section \<open>Properties\<close>

text \<open>
  An inference use is accepted exactly when the capability's lifetime is a nonempty interval
  that contains the trusted clock, every live binding matches, exactly one request is counted,
  and committed plus requested usage stays within the budget in all four dimensions as natural
  numbers (so no 64-bit wrap-around can admit a use).
\<close>

theorem capability_use_exact:
  "(\<exists>v. validate_use E c x = Some (Ok v)) \<longleftrightarrow>
     ib_requests (ca_budget c) \<noteq> 0 \<and> live_match c x \<and> iu_requests (cu_requested_usage x) = 1 \<and>
     sum_within_budget (cu_committed_usage x) (cu_requested_usage x) (ca_budget c) \<and>
     (\<exists>i. capability_id E c = Some i)"
proof -
  have life: "live_match c x \<Longrightarrow> ca_not_before_unix_ms c < ca_expires_at_unix_ms c"
    by (auto simp: live_match_def)
  have "(\<exists>v. validate_use E c x = Some (Ok v)) \<longleftrightarrow>
      validate_definition c = Inr () \<and> live_match c x \<and> iu_requests (cu_requested_usage x) = 1 \<and>
      (\<exists>r. usage_checked_add (cu_committed_usage x) (cu_requested_usage x) = Some r \<and>
         within_budget r (ca_budget c)) \<and> (\<exists>i. capability_id E c = Some i)"
    unfolding validate_use_Ok by (rule iffI) (blast, metis validated_inference_use.select_convs)
  then show ?thesis using life by (auto simp: usage_add_within_iff validate_definition_iff)
qed

text \<open>
  C27: over any sequence of uses in which each accepted use commits its resulting usage, the
  committed usage never leaves the budget in any dimension, the committed request count is the
  number of accepted uses, and that number is at most the request budget.
\<close>

theorem capability_budget_never_exceeded:
  "within_budget (snd (run_uses E c usage_default xs)) (ca_budget c) \<and>
   unat (iu_requests (snd (run_uses E c usage_default xs))) =
     length (fst (run_uses E c usage_default xs)) \<and>
   length (fst (run_uses E c usage_default xs)) \<le> unat (ib_requests (ca_budget c))"
proof -
  have "within_budget usage_default (ca_budget c)"
    by (simp add: within_budget_def usage_default_def)
  then show ?thesis
    using run_uses_bound [of E c usage_default xs "fst (run_uses E c usage_default xs)"
        "snd (run_uses E c usage_default xs)"]
    by (auto simp: usage_default_def within_budget_def)
qed

end
