(* ===== verification/AG_Judgment.thy ===== *)
theory AG_Judgment
  imports AG_Digest
begin

text \<open>
  \<open>crates/ag-kernel/src/judgment.rs\<close>: nonempty evidence lists, total semantic judgments, and the
  operational envelope in which an evaluation that could not complete is neither an admission
  nor a refusal.
\<close>

datatype 'a non_empty = NonEmpty (ne_head: 'a) (ne_tail: "'a list")

definition ne_new :: "'a \<Rightarrow> 'a non_empty" where
  "ne_new x = NonEmpty x []"

fun ne_from_vec :: "'a list \<Rightarrow> 'a non_empty option" where
  "ne_from_vec [] = None"
| "ne_from_vec (x # xs) = Some (NonEmpty x xs)"

definition ne_push :: "'a non_empty \<Rightarrow> 'a \<Rightarrow> 'a non_empty" where
  "ne_push n x = NonEmpty (ne_head n) (ne_tail n @ [x])"

definition ne_into_vec :: "'a non_empty \<Rightarrow> 'a list" where
  "ne_into_vec n = ne_head n # ne_tail n"

definition ne_len :: "'a non_empty \<Rightarrow> nat" where
  "ne_len n = 1 + length (ne_tail n)"

definition ne_map :: "('a \<Rightarrow> 'b) \<Rightarrow> 'a non_empty \<Rightarrow> 'b non_empty" where
  "ne_map f n = NonEmpty (f (ne_head n)) (map f (ne_tail n))"

definition ne_extend :: "'a non_empty \<Rightarrow> 'a list \<Rightarrow> 'a non_empty" where
  "ne_extend n xs = foldl ne_push n xs"

lemma ne_into_vec_simps [simp]:
  "ne_into_vec (ne_new x) = [x]"
  "ne_into_vec (ne_push n x) = ne_into_vec n @ [x]"
  "ne_into_vec (NonEmpty x xs) = x # xs"
  "ne_into_vec (ne_map f n) = map f (ne_into_vec n)"
  "length (ne_into_vec n) = ne_len n"
  "ne_into_vec n \<noteq> []"
  by (simp_all add: ne_into_vec_def ne_new_def ne_push_def ne_map_def ne_len_def)

lemma ne_into_vec_extend [simp]: "ne_into_vec (ne_extend n xs) = ne_into_vec n @ xs"
proof (induction xs arbitrary: n)
  case Nil
  then show ?case by (simp add: ne_extend_def)
next
  case (Cons x xs)
  from Cons [of "ne_push n x"] show ?case by (simp add: ne_extend_def)
qed

lemma ne_from_vec_None [simp]: "ne_from_vec xs = None \<longleftrightarrow> xs = []"
  by (cases xs) simp_all

lemma ne_from_vec_Some [simp]: "ne_from_vec xs = Some n \<longleftrightarrow> xs = ne_into_vec n"
  by (cases xs; cases n) auto

lemma ne_from_into [simp]: "ne_from_vec (ne_into_vec n) = Some n"
  by simp

lemma ne_into_vec_inject: "ne_into_vec m = ne_into_vec n \<longleftrightarrow> m = n"
  by (cases m; cases n) simp

datatype ('w, 'r) native_judgment = Admit 'w | Refuse 'r

fun map_admit :: "('w \<Rightarrow> 'u) \<Rightarrow> ('w, 'r) native_judgment \<Rightarrow> ('u, 'r) native_judgment" where
  "map_admit f (Admit w) = Admit (f w)"
| "map_admit f (Refuse r) = Refuse r"

fun map_refuse :: "('r \<Rightarrow> 'u) \<Rightarrow> ('w, 'r) native_judgment \<Rightarrow> ('w, 'u) native_judgment" where
  "map_refuse f (Admit w) = Admit w"
| "map_refuse f (Refuse r) = Refuse (f r)"

datatype operational_failure_kind =
    ObservationUnavailable
  | Timeout
  | CustodyFailure
  | StoreFailure
  | ClockFailure
  | IncompleteEvaluation

record failure_evidence =
  ev_kind :: operational_failure_kind
  ev_evidence_digest :: digest

datatype ('w, 'r) operational_evaluation =
    Evaluated "('w, 'r) native_judgment"
  | Indeterminate "failure_evidence non_empty"

fun admitted :: "('w, 'r) operational_evaluation \<Rightarrow> 'w option" where
  "admitted (Evaluated (Admit w)) = Some w"
| "admitted (Evaluated (Refuse r)) = None"
| "admitted (Indeterminate n) = None"

end
