(* ===== verification/AG_Family.thy ===== *)
theory AG_Family
  imports AG_Judgment AG_Identity
begin

text \<open>
  \<open>crates/ag-kernel/src/family.rs\<close>: the four family books, their decision procedures and the
  named crossings.  The Rust macro \<open>define_family\<close> is one polymorphic group of definitions whose
  type parameter is the book tag; its kind and domain literals are arguments, and the four
  macro invocations are the instances below.  A method that takes \<open>&mut self\<close> returns the book
  afterwards; on an error path the book is unchanged.
\<close>

type_synonym standing_ref = "standing_book book_ref"
type_synonym custody_ref = "custody_book book_ref"
type_synonym obligation_ref = "obligation_book book_ref"
type_synonym capacity_ref = "capacity_book book_ref"

datatype family_book_error =
    ForeignOrigin book_kind lifecycle_origin lifecycle_origin
  | DuplicateReference book_kind
  | FamilyCanonicalization book_kind string

record 'k family_entry =
  fe_reference :: "'k book_ref"
  fe_subject_digest :: digest

record 'k family_book =
  fb_origin :: lifecycle_origin
  fb_head :: digest
  fb_entries :: "'k family_entry list"

record 'k family_claim =
  fc_origin :: lifecycle_origin
  fc_subject_digest :: digest
  fc_reference :: "'k book_ref"

record 'k family_witness =
  fw_claim :: "'k family_claim"
  fw_book_head :: digest
  fw_observed_subject_digest :: digest

datatype 'k family_failure =
    BookOriginMismatch lifecycle_origin lifecycle_origin
  | ReferenceOriginMismatch lifecycle_origin lifecycle_origin
  | MissingReference "'k book_ref"
  | SubjectMismatch "'k book_ref" digest digest

datatype 'k family_refusal = FamilyRefusal (fr_failures: "'k family_failure non_empty")

definition entry_json :: "env \<Rightarrow> book_kind \<Rightarrow> 'k family_entry \<Rightarrow> json" where
  "entry_json E K e = JObj
     [(''reference'', book_ref_json E K (fe_reference e)),
      (''subject_digest'', digest_json (fe_subject_digest e))]"

definition book_new :: "env \<Rightarrow> string \<Rightarrow> lifecycle_origin \<Rightarrow> 'k family_book" where
  "book_new E empty_domain o' =
     \<lparr>fb_origin = o', fb_head = hash_bytes E empty_domain, fb_entries = []\<rparr>"

definition event_tree :: "env \<Rightarrow> book_kind \<Rightarrow> digest \<Rightarrow> 'k family_entry \<Rightarrow> json" where
  "event_tree E K head e = JArr [JStr (book_kind_str K), digest_json head, entry_json E K e]"

definition event_preimage :: "string \<Rightarrow> bytes \<Rightarrow> bytes" where
  "event_preimage empty_domain material =
     (''ag-ng:book-event:v1:'' @ empty_domain) @ [CHR 0x00] @ material"

definition replay_committed :: "env \<Rightarrow> book_kind \<Rightarrow> string \<Rightarrow> 'k family_book \<Rightarrow> 'k family_entry
    \<Rightarrow> family_book_error + 'k family_book" where
  "replay_committed E K empty_domain b entry =
     (if br_origin (fe_reference entry) \<noteq> fb_origin b
      then Err (ForeignOrigin K (fb_origin b) (br_origin (fe_reference entry)))
      else if list_ex (\<lambda>existing. fe_reference existing = fe_reference entry) (fb_entries b)
      then Err (DuplicateReference K)
      else
        res_bind (map_err (FamilyCanonicalization K) (env_jcs_to_vec E (event_tree E K (fb_head b) entry)))
          (\<lambda>material. Ok (b\<lparr>fb_head := hash_bytes E (event_preimage empty_domain material),
             fb_entries := fb_entries b @ [entry]\<rparr>)))"

definition decide_family :: "'k family_book \<Rightarrow> 'k family_claim
    \<Rightarrow> ('k family_witness, 'k family_refusal) native_judgment" where
  "decide_family b c =
     (let f1 = (if fc_origin c \<noteq> fb_origin b then [BookOriginMismatch (fc_origin c) (fb_origin b)] else []);
          f2 = (if br_origin (fc_reference c) \<noteq> fc_origin c
                then [ReferenceOriginMismatch (fc_origin c) (br_origin (fc_reference c))] else []);
          observed = find (\<lambda>e. fe_reference e = fc_reference c) (fb_entries b);
          f3 = (case observed of
                  None \<Rightarrow> [MissingReference (fc_reference c)]
                | Some e \<Rightarrow>
                    if fe_subject_digest e \<noteq> fc_subject_digest c
                    then [SubjectMismatch (fc_reference c) (fc_subject_digest c) (fe_subject_digest e)]
                    else [])
      in case ne_from_vec (f1 @ f2 @ f3) of
           Some failures \<Rightarrow> Refuse (FamilyRefusal failures)
         | None \<Rightarrow> Admit \<lparr>fw_claim = c, fw_book_head = fb_head b,
             fw_observed_subject_digest = fe_subject_digest (the observed)\<rparr>)"

subsection \<open>The four instances\<close>

definition standing_book_new :: "env \<Rightarrow> lifecycle_origin \<Rightarrow> standing_book family_book" where
  "standing_book_new E = book_new E ''standing''"
definition custody_book_new :: "env \<Rightarrow> lifecycle_origin \<Rightarrow> custody_book family_book" where
  "custody_book_new E = book_new E ''custody''"
definition obligation_book_new :: "env \<Rightarrow> lifecycle_origin \<Rightarrow> obligation_book family_book" where
  "obligation_book_new E = book_new E ''obligation''"
definition capacity_book_new :: "env \<Rightarrow> lifecycle_origin \<Rightarrow> capacity_book family_book" where
  "capacity_book_new E = book_new E ''capacity''"

definition replay_standing :: "env \<Rightarrow> standing_book family_book \<Rightarrow> standing_book family_entry
    \<Rightarrow> family_book_error + standing_book family_book" where
  "replay_standing E = replay_committed E Standing ''standing''"
definition replay_custody :: "env \<Rightarrow> custody_book family_book \<Rightarrow> custody_book family_entry
    \<Rightarrow> family_book_error + custody_book family_book" where
  "replay_custody E = replay_committed E Custody ''custody''"
definition replay_obligation :: "env \<Rightarrow> obligation_book family_book \<Rightarrow> obligation_book family_entry
    \<Rightarrow> family_book_error + obligation_book family_book" where
  "replay_obligation E = replay_committed E Obligation ''obligation''"
definition replay_capacity :: "env \<Rightarrow> capacity_book family_book \<Rightarrow> capacity_book family_entry
    \<Rightarrow> family_book_error + capacity_book family_book" where
  "replay_capacity E = replay_committed E Capacity ''capacity''"

definition decide_standing :: "standing_book family_book \<Rightarrow> standing_book family_claim
    \<Rightarrow> (standing_book family_witness, standing_book family_refusal) native_judgment" where
  "decide_standing = decide_family"
definition decide_custody :: "custody_book family_book \<Rightarrow> custody_book family_claim
    \<Rightarrow> (custody_book family_witness, custody_book family_refusal) native_judgment" where
  "decide_custody = decide_family"
definition decide_obligation :: "obligation_book family_book \<Rightarrow> obligation_book family_claim
    \<Rightarrow> (obligation_book family_witness, obligation_book family_refusal) native_judgment" where
  "decide_obligation = decide_family"
definition decide_capacity :: "capacity_book family_book \<Rightarrow> capacity_book family_claim
    \<Rightarrow> (capacity_book family_witness, capacity_book family_refusal) native_judgment" where
  "decide_capacity = decide_family"

section \<open>Named crossings\<close>

record proposal_crossing_claim =
  pq_standing :: "standing_book family_claim"
  pq_custody :: "custody_book family_claim"

record proposal_crossing_witness =
  pw_standing :: "standing_book family_witness"
  pw_custody :: "custody_book family_witness"

datatype proposal_family_refusal =
    PStanding "standing_book family_refusal"
  | PCustody "custody_book family_refusal"
  | POriginMismatch book_kind lifecycle_origin lifecycle_origin

datatype proposal_crossing_refusal =
  ProposalCrossingRefusal (pr_failures: "proposal_family_refusal non_empty")

definition refused :: "('r \<Rightarrow> 'f) \<Rightarrow> ('w, 'r) native_judgment \<Rightarrow> 'f list" where
  "refused tag j = (case j of Refuse r \<Rightarrow> [tag r] | Admit _ \<Rightarrow> [])"

definition evaluate_proposal_crossing ::
  "standing_book family_book \<Rightarrow> custody_book family_book \<Rightarrow> proposal_crossing_claim
    \<Rightarrow> (proposal_crossing_witness, proposal_crossing_refusal) native_judgment" where
  "evaluate_proposal_crossing sb cb claim =
     (let standing = decide_standing sb (pq_standing claim);
          custody = decide_custody cb (pq_custody claim);
          crossing =
            (if fc_origin (pq_custody claim) \<noteq> fc_origin (pq_standing claim)
             then [POriginMismatch Custody (fc_origin (pq_standing claim)) (fc_origin (pq_custody claim))]
             else [])
      in case (standing, custody) of
           (Admit s, Admit c) \<Rightarrow>
             (case ne_from_vec crossing of
                Some failures \<Rightarrow> Refuse (ProposalCrossingRefusal failures)
              | None \<Rightarrow> Admit \<lparr>pw_standing = s, pw_custody = c\<rparr>)
         | (Refuse s, c) \<Rightarrow>
             Refuse (ProposalCrossingRefusal
               (ne_extend (ne_extend (ne_new (PStanding s)) (refused PCustody c)) crossing))
         | (Admit _, Refuse c) \<Rightarrow>
             Refuse (ProposalCrossingRefusal (ne_extend (ne_new (PCustody c)) crossing)))"

record effect_crossing_claim =
  eq_standing :: "standing_book family_claim"
  eq_custody :: "custody_book family_claim"
  eq_obligation :: "obligation_book family_claim"
  eq_capacity :: "capacity_book family_claim"

record effect_crossing_witness =
  ew_standing :: "standing_book family_witness"
  ew_custody :: "custody_book family_witness"
  ew_obligation :: "obligation_book family_witness"
  ew_capacity :: "capacity_book family_witness"

datatype effect_family_refusal =
    EStanding "standing_book family_refusal"
  | ECustody "custody_book family_refusal"
  | EObligation "obligation_book family_refusal"
  | ECapacity "capacity_book family_refusal"
  | EOriginMismatch book_kind lifecycle_origin lifecycle_origin

datatype effect_crossing_refusal =
  EffectCrossingRefusal (er_failures: "effect_family_refusal non_empty")

definition effect_crossing_failures :: "effect_crossing_claim \<Rightarrow> effect_family_refusal list" where
  "effect_crossing_failures claim =
     concat (map (\<lambda>(family, observed).
         if observed \<noteq> fc_origin (eq_standing claim)
         then [EOriginMismatch family (fc_origin (eq_standing claim)) observed] else [])
       [(Custody, fc_origin (eq_custody claim)), (Obligation, fc_origin (eq_obligation claim)),
        (Capacity, fc_origin (eq_capacity claim))])"

definition evaluate_effect_crossing ::
  "standing_book family_book \<Rightarrow> custody_book family_book \<Rightarrow> obligation_book family_book
    \<Rightarrow> capacity_book family_book \<Rightarrow> effect_crossing_claim
    \<Rightarrow> (effect_crossing_witness, effect_crossing_refusal) native_judgment" where
  "evaluate_effect_crossing sb cb ob kb claim =
     (let standing = decide_standing sb (eq_standing claim);
          custody = decide_custody cb (eq_custody claim);
          obligation = decide_obligation ob (eq_obligation claim);
          capacity = decide_capacity kb (eq_capacity claim);
          crossing = effect_crossing_failures claim
      in case (standing, custody, obligation, capacity) of
           (Admit s, Admit c, Admit o', Admit k) \<Rightarrow>
             (case ne_from_vec crossing of
                Some failures \<Rightarrow> Refuse (EffectCrossingRefusal failures)
              | None \<Rightarrow> Admit \<lparr>ew_standing = s, ew_custody = c, ew_obligation = o', ew_capacity = k\<rparr>)
         | (Refuse s, c, o', k) \<Rightarrow>
             Refuse (EffectCrossingRefusal (ne_extend (ne_extend (ne_extend (ne_extend
               (ne_new (EStanding s)) (refused ECustody c)) (refused EObligation o'))
               (refused ECapacity k)) crossing))
         | (Admit _, Refuse c, o', k) \<Rightarrow>
             Refuse (EffectCrossingRefusal (ne_extend (ne_extend (ne_extend
               (ne_new (ECustody c)) (refused EObligation o')) (refused ECapacity k)) crossing))
         | (Admit _, Admit _, Refuse o', k) \<Rightarrow>
             Refuse (EffectCrossingRefusal (ne_extend (ne_extend
               (ne_new (EObligation o')) (refused ECapacity k)) crossing))
         | (Admit _, Admit _, Admit _, Refuse k) \<Rightarrow>
             Refuse (EffectCrossingRefusal (ne_extend (ne_new (ECapacity k)) crossing)))"

section \<open>Replayed books\<close>

text \<open>
  A book replayed from a list of entries is a run of \<open>replay_committed\<close> from the empty book.
  \<open>book_trees\<close> lists the JSON trees that the head chain of such a run hashes, and
  \<open>book_preimages\<close> the byte strings under SHA-256, the genesis string first.
\<close>

abbreviation replay_all :: "env \<Rightarrow> book_kind \<Rightarrow> string \<Rightarrow> lifecycle_origin \<Rightarrow> 'k family_entry list
    \<Rightarrow> family_book_error + 'k family_book" where
  "replay_all E K empty_domain o' es \<equiv>
     run_events (replay_committed E K empty_domain) (book_new E empty_domain o') es"

fun book_trees :: "env \<Rightarrow> book_kind \<Rightarrow> string \<Rightarrow> digest \<Rightarrow> 'k family_entry list \<Rightarrow> json list" where
  "book_trees E K empty_domain h [] = []"
| "book_trees E K empty_domain h (e # es) = event_tree E K h e #
     (case env_jcs_to_vec E (event_tree E K h e) of
        Inl _ \<Rightarrow> []
      | Inr m \<Rightarrow> book_trees E K empty_domain (hash_bytes E (event_preimage empty_domain m)) es)"

definition replay_trees :: "env \<Rightarrow> book_kind \<Rightarrow> string \<Rightarrow> 'k family_entry list \<Rightarrow> json list" where
  "replay_trees E K empty_domain es = book_trees E K empty_domain (hash_bytes E empty_domain) es"

definition tree_preimage :: "env \<Rightarrow> string \<Rightarrow> json \<Rightarrow> bytes" where
  "tree_preimage E empty_domain t =
     event_preimage empty_domain (case env_jcs_to_vec E t of Inr m \<Rightarrow> m | Inl _ \<Rightarrow> [])"

definition book_preimages :: "env \<Rightarrow> book_kind \<Rightarrow> string \<Rightarrow> 'k family_entry list \<Rightarrow> bytes list" where
  "book_preimages E K empty_domain es =
     empty_domain # map (tree_preimage E empty_domain) (replay_trees E K empty_domain es)"

text \<open>
  \<open>no_collision\<close>: on the finitely many inputs that two replays feed to them, neither SHA-256
  nor the canonical printer maps two different inputs to one output.
\<close>

definition no_collision :: "env \<Rightarrow> book_kind \<Rightarrow> string \<Rightarrow> 'k family_entry list \<Rightarrow> 'k family_entry list \<Rightarrow> bool" where
  "no_collision E K empty_domain es fs \<longleftrightarrow>
     inj_on (hash_bytes E) (set (book_preimages E K empty_domain es @ book_preimages E K empty_domain fs)) \<and>
     inj_on (env_jcs_to_vec E) (set (replay_trees E K empty_domain es @ replay_trees E K empty_domain fs))"

lemma replay_committed_Ok_iff:
  "replay_committed E K d b e = Inr b' \<longleftrightarrow>
     br_origin (fe_reference e) = fb_origin b \<and>
     fe_reference e \<notin> fe_reference ` set (fb_entries b) \<and>
     (\<exists>m. env_jcs_to_vec E (event_tree E K (fb_head b) e) = Inr m \<and>
        b' = b\<lparr>fb_head := hash_bytes E (event_preimage d m), fb_entries := fb_entries b @ [e]\<rparr>)"
  by (auto simp: replay_committed_def ag_check list_ex_key)

definition book_wf :: "'k family_book \<Rightarrow> bool" where
  "book_wf b \<longleftrightarrow> distinct (map fe_reference (fb_entries b)) \<and>
     (\<forall>e \<in> set (fb_entries b). br_origin (fe_reference e) = fb_origin b)"

lemma book_wf_new: "book_wf (book_new E d o')"
  by (simp add: book_wf_def book_new_def)

lemma book_wf_replay: "book_wf b \<Longrightarrow> replay_committed E K d b e = Inr b' \<Longrightarrow> book_wf b'"
  by (auto simp: book_wf_def replay_committed_Ok_iff)

lemma replay_all_wf: "replay_all E K d o' es = Inr b \<Longrightarrow> book_wf b"
  by (erule run_events_invariant) (auto intro: book_wf_new book_wf_replay)

lemma replay_run_shape:
  assumes "run_events (replay_committed E K d) s es = Inr b"
  shows "fb_entries b = fb_entries s @ es \<and> fb_origin b = fb_origin s"
  using assms
proof (induction es arbitrary: s)
  case Nil
  then show ?case by simp
next
  case (Cons e es)
  then obtain s' where "replay_committed E K d s e = Inr s'"
    and "run_events (replay_committed E K d) s' es = Inr b"
    by (auto simp: ag_check)
  with Cons.IH [of s'] show ?case by (auto simp: replay_committed_Ok_iff)
qed

lemma replay_all_shape:
  "replay_all E K d o' es = Inr b \<Longrightarrow> fb_entries b = es \<and> fb_origin b = o'"
  by (drule replay_run_shape) (simp add: book_new_def)

lemma decide_family_Admit_iff:
  assumes "book_wf b"
  shows "decide_family b c = Admit w \<longleftrightarrow>
    fc_origin c = fb_origin b \<and>
    \<lparr>fe_reference = fc_reference c, fe_subject_digest = fc_subject_digest c\<rparr> \<in> set (fb_entries b) \<and>
    w = \<lparr>fw_claim = c, fw_book_head = fb_head b, fw_observed_subject_digest = fc_subject_digest c\<rparr>"
    (is "?L \<longleftrightarrow> ?R")
proof
  assume ?L
  then obtain e where obs: "find (\<lambda>e. fe_reference e = fc_reference c) (fb_entries b) = Some e"
    and sub: "fe_subject_digest e = fc_subject_digest c" and org: "fc_origin c = fb_origin b"
    and w: "w = \<lparr>fw_claim = c, fw_book_head = fb_head b, fw_observed_subject_digest = fe_subject_digest e\<rparr>"
    by (auto simp: decide_family_def Let_def split: option.splits if_splits)
  from obs have "e \<in> set (fb_entries b)" "fe_reference e = fc_reference c"
    by (auto simp: find_Some_iff)
  moreover from this sub have
    "e = \<lparr>fe_reference = fc_reference c, fe_subject_digest = fc_subject_digest c\<rparr>"
    by (intro family_entry.equality) simp_all
  ultimately show ?R using org w sub by simp
next
  assume R: ?R
  let ?e = "\<lparr>fe_reference = fc_reference c, fe_subject_digest = fc_subject_digest c\<rparr>"
  have "find (\<lambda>e. fe_reference e = fe_reference ?e) (fb_entries b) = Some ?e"
    using assms R by (intro find_unique) (auto simp: book_wf_def)
  moreover have "br_origin (fc_reference c) = fb_origin b"
    using assms R by (force simp: book_wf_def)
  ultimately show ?L using R by (simp add: decide_family_def)
qed

subsection \<open>The head commits to the whole book\<close>

lemma event_tree_inject:
  "codec_ok E \<Longrightarrow> event_tree E K h e = event_tree E K g f \<longleftrightarrow> h = g \<and> e = f"
  by (cases e; cases f) (auto simp: event_tree_def entry_json_def book_ref_json_inject)

lemma event_preimage_inject [simp]: "event_preimage d m = event_preimage d n \<longleftrightarrow> m = n"
  by (simp add: event_preimage_def)

lemma event_preimage_not_genesis: "event_preimage d m \<noteq> d"
proof
  assume "event_preimage d m = d"
  then have "length (event_preimage d m) = length d" by simp
  then show False by (simp add: event_preimage_def)
qed

lemma book_trees_append:
  "run_events (replay_committed E K d) s es = Inr b \<Longrightarrow>
     book_trees E K d (fb_head s) (es @ fs) =
       book_trees E K d (fb_head s) es @ book_trees E K d (fb_head b) fs"
proof (induction es arbitrary: s)
  case Nil
  then show ?case by simp
next
  case (Cons e es)
  from Cons.prems obtain s' where s': "replay_committed E K d s e = Inr s'"
    and run: "run_events (replay_committed E K d) s' es = Inr b"
    by (auto simp: ag_check)
  from s' obtain m where "env_jcs_to_vec E (event_tree E K (fb_head s) e) = Inr m"
    "fb_head s' = hash_bytes E (event_preimage d m)"
    by (auto simp: replay_committed_Ok_iff)
  with Cons.IH [OF run] show ?case by simp
qed

lemma replay_snoc:
  assumes "replay_all E K d o' (es @ [e]) = Inr b"
  obtains b0 m where "replay_all E K d o' es = Inr b0"
    and "replay_trees E K d (es @ [e]) = replay_trees E K d es @ [event_tree E K (fb_head b0) e]"
    and "env_jcs_to_vec E (event_tree E K (fb_head b0) e) = Inr m"
    and "fb_head b = hash_bytes E (event_preimage d m)"
    and "event_preimage d m = tree_preimage E d (event_tree E K (fb_head b0) e)"
proof -
  from assms obtain b0 where b0: "replay_all E K d o' es = Inr b0"
    and step: "replay_committed E K d b0 e = Inr b"
    by (auto simp: run_events_append ag_check)
  from step obtain m where m: "env_jcs_to_vec E (event_tree E K (fb_head b0) e) = Inr m"
    and h: "fb_head b = hash_bytes E (event_preimage d m)"
    by (auto simp: replay_committed_Ok_iff)
  have t: "replay_trees E K d (es @ [e]) = replay_trees E K d es @ [event_tree E K (fb_head b0) e]"
    using book_trees_append [OF b0, of "[e]"] m by (simp add: replay_trees_def book_new_def)
  have p: "event_preimage d m = tree_preimage E d (event_tree E K (fb_head b0) e)"
    by (simp add: tree_preimage_def m)
  show thesis by (rule that [OF b0 t m h p])
qed

lemma no_collision_butlast:
  assumes "no_collision E K d (es @ [e]) (fs @ [f])"
    and "replay_trees E K d (es @ [e]) = replay_trees E K d es @ ts"
    and "replay_trees E K d (fs @ [f]) = replay_trees E K d fs @ us"
  shows "no_collision E K d es fs"
proof -
  have "set (book_preimages E K d es @ book_preimages E K d fs)
      \<subseteq> set (book_preimages E K d (es @ [e]) @ book_preimages E K d (fs @ [f]))"
    by (auto simp: book_preimages_def assms(2,3))
  moreover have "set (replay_trees E K d es @ replay_trees E K d fs)
      \<subseteq> set (replay_trees E K d (es @ [e]) @ replay_trees E K d (fs @ [f]))"
    by (auto simp: assms(2,3))
  ultimately show ?thesis
    using assms(1) unfolding no_collision_def by (blast intro: inj_on_subset)
qed

lemma no_collision_same: "no_collision E K d es fs \<Longrightarrow> no_collision E K d es es"
  unfolding no_collision_def set_append by (blast intro: inj_on_subset)

lemma no_collision_hash:
  "no_collision E K d es fs \<Longrightarrow> hash_bytes E x = hash_bytes E y \<Longrightarrow>
     x \<in> set (book_preimages E K d es) \<union> set (book_preimages E K d fs) \<Longrightarrow>
     y \<in> set (book_preimages E K d es) \<union> set (book_preimages E K d fs) \<Longrightarrow> x = y"
  unfolding no_collision_def set_append by (blast dest: inj_onD)

lemma no_collision_print:
  "no_collision E K d es fs \<Longrightarrow> env_jcs_to_vec E t = env_jcs_to_vec E u \<Longrightarrow>
     t \<in> set (replay_trees E K d es) \<union> set (replay_trees E K d fs) \<Longrightarrow>
     u \<in> set (replay_trees E K d es) \<union> set (replay_trees E K d fs) \<Longrightarrow> t = u"
  unfolding no_collision_def set_append by (blast dest: inj_onD)

lemma head_determines_entries:
  assumes "codec_ok E" and "replay_all E K d o' es = Inr b" and "replay_all E K d p' fs = Inr c"
    and "no_collision E K d es fs" and "fb_head b = fb_head c"
  shows "es = fs"
  using assms(2-5)
proof (induction es arbitrary: fs b c rule: rev_induct)
  case Nil
  show ?case
  proof (cases fs rule: rev_cases)
    case (snoc gs g)
    from Nil.prems(2) [unfolded snoc] obtain c0 m where
      "replay_all E K d p' gs = Inr c0"
      and t: "replay_trees E K d (gs @ [g]) = replay_trees E K d gs @ [event_tree E K (fb_head c0) g]"
      and "env_jcs_to_vec E (event_tree E K (fb_head c0) g) = Inr m"
      and h: "fb_head c = hash_bytes E (event_preimage d m)"
      and p: "event_preimage d m = tree_preimage E d (event_tree E K (fb_head c0) g)"
      by (rule replay_snoc)
    have "hash_bytes E d = hash_bytes E (event_preimage d m)"
      using Nil.prems(1,4) h by (auto simp: book_new_def)
    with Nil.prems(3) have "d = event_preimage d m"
      by (rule no_collision_hash) (simp_all add: book_preimages_def snoc t p)
    then show ?thesis using event_preimage_not_genesis by metis
  qed simp
next
  case (snoc e es)
  from snoc.prems(1) obtain b0 m where b0: "replay_all E K d o' es = Inr b0"
    and t: "replay_trees E K d (es @ [e]) = replay_trees E K d es @ [event_tree E K (fb_head b0) e]"
    and m: "env_jcs_to_vec E (event_tree E K (fb_head b0) e) = Inr m"
    and h: "fb_head b = hash_bytes E (event_preimage d m)"
    and p: "event_preimage d m = tree_preimage E d (event_tree E K (fb_head b0) e)"
    by (rule replay_snoc)
  show ?case
  proof (cases fs rule: rev_cases)
    case Nil
    have "hash_bytes E (event_preimage d m) = hash_bytes E d"
      using snoc.prems(2,4) h by (auto simp: book_new_def Nil)
    with snoc.prems(3) have "event_preimage d m = d"
      by (rule no_collision_hash) (simp_all add: book_preimages_def Nil t p)
    then show ?thesis using event_preimage_not_genesis by metis
  next
    case fs: (snoc gs g)
    from snoc.prems(2) [unfolded fs] obtain c0 n where c0: "replay_all E K d p' gs = Inr c0"
      and u: "replay_trees E K d (gs @ [g]) = replay_trees E K d gs @ [event_tree E K (fb_head c0) g]"
      and n: "env_jcs_to_vec E (event_tree E K (fb_head c0) g) = Inr n"
      and h': "fb_head c = hash_bytes E (event_preimage d n)"
      and q: "event_preimage d n = tree_preimage E d (event_tree E K (fb_head c0) g)"
      by (rule replay_snoc)
    have "hash_bytes E (event_preimage d m) = hash_bytes E (event_preimage d n)"
      using snoc.prems(4) h h' by simp
    with snoc.prems(3) have "event_preimage d m = event_preimage d n"
      by (rule no_collision_hash) (simp_all add: book_preimages_def fs t u p q)
    then have "env_jcs_to_vec E (event_tree E K (fb_head b0) e) =
        env_jcs_to_vec E (event_tree E K (fb_head c0) g)"
      using m n by simp
    with snoc.prems(3) have "event_tree E K (fb_head b0) e = event_tree E K (fb_head c0) g"
      by (rule no_collision_print) (simp_all add: fs t u)
    then have eq: "fb_head b0 = fb_head c0" "e = g"
      by (simp_all add: event_tree_inject [OF assms(1)])
    have "es = gs"
      by (rule snoc.IH [OF b0 c0 no_collision_butlast [OF snoc.prems(3) [unfolded fs] t u] eq(1)])
    with eq(2) fs show ?thesis by simp
  qed
qed

lemma replay_all_origin:
  assumes "replay_all E K d o' es = Inr b" and "replay_all E K d p' es = Inr c"
  shows "fb_head b = fb_head c"
proof (cases es)
  case Nil
  with assms show ?thesis by (auto simp: book_new_def)
next
  case (Cons e fs)
  with assms have "o' = p'" by (auto simp: ag_check replay_committed_Ok_iff book_new_def)
  with assms show ?thesis by simp
qed

lemma effect_crossing_failures_Nil:
  "effect_crossing_failures q = [] \<longleftrightarrow>
     fc_origin (eq_custody q) = fc_origin (eq_standing q) \<and>
     fc_origin (eq_obligation q) = fc_origin (eq_standing q) \<and>
     fc_origin (eq_capacity q) = fc_origin (eq_standing q)"
  by (simp add: effect_crossing_failures_def)

text \<open>Every refusal of a family and every origin mismatch, in evaluation order.\<close>

definition effect_refusals :: "standing_book family_book \<Rightarrow> custody_book family_book
    \<Rightarrow> obligation_book family_book \<Rightarrow> capacity_book family_book \<Rightarrow> effect_crossing_claim
    \<Rightarrow> effect_family_refusal list" where
  "effect_refusals sb cb ob kb q =
     refused EStanding (decide_standing sb (eq_standing q)) @
     refused ECustody (decide_custody cb (eq_custody q)) @
     refused EObligation (decide_obligation ob (eq_obligation q)) @
     refused ECapacity (decide_capacity kb (eq_capacity q)) @ effect_crossing_failures q"

lemma effect_crossing_Refuse_iff:
  "evaluate_effect_crossing sb cb ob kb q = Refuse r \<longleftrightarrow>
     ne_into_vec (er_failures r) = effect_refusals sb cb ob kb q"
  unfolding evaluate_effect_crossing_def effect_refusals_def Let_def refused_def
  by (cases r; cases "decide_standing sb (eq_standing q)"; cases "decide_custody cb (eq_custody q)";
      cases "decide_obligation ob (eq_obligation q)"; cases "decide_capacity kb (eq_capacity q)";
      cases "effect_crossing_failures q")
    (auto simp: ne_into_vec_inject [symmetric])

lemma effect_crossing_Admit_iff:
  "evaluate_effect_crossing sb cb ob kb q = Admit w \<longleftrightarrow>
     decide_standing sb (eq_standing q) = Admit (ew_standing w) \<and>
     decide_custody cb (eq_custody q) = Admit (ew_custody w) \<and>
     decide_obligation ob (eq_obligation q) = Admit (ew_obligation w) \<and>
     decide_capacity kb (eq_capacity q) = Admit (ew_capacity w) \<and>
     effect_crossing_failures q = []"
  unfolding evaluate_effect_crossing_def Let_def
  by (cases w; cases "decide_standing sb (eq_standing q)"; cases "decide_custody cb (eq_custody q)";
      cases "decide_obligation ob (eq_obligation q)"; cases "decide_capacity kb (eq_capacity q)";
      cases "effect_crossing_failures q") auto

section \<open>Properties\<close>

definition claimed_entry :: "'k family_claim \<Rightarrow> 'k family_entry" where
  "claimed_entry c = \<lparr>fe_reference = fc_reference c, fe_subject_digest = fc_subject_digest c\<rparr>"

text \<open>
  Against a book replayed from a list of committed entries, a family claim is admitted
  exactly when the claim names the book's own lifecycle and the claimed reference-subject pair
  is one of those entries; the witness then records the claim, the book head and that subject.
\<close>

theorem family_decision_exact:
  assumes "replay_all E K d o' es = Ok b"
  shows "decide_family b c = Admit w \<longleftrightarrow>
    fc_origin c = o' \<and> claimed_entry c \<in> set es \<and>
    w = \<lparr>fw_claim = c, fw_book_head = fb_head b, fw_observed_subject_digest = fc_subject_digest c\<rparr>"
  using decide_family_Admit_iff [OF replay_all_wf [OF assms]] replay_all_shape [OF assms]
  by (simp add: claimed_entry_def)

definition sample_entry :: "string \<Rightarrow> string \<Rightarrow> 'k family_entry" where
  "sample_entry l s = \<lparr>fe_reference = sample_ref l, fe_subject_digest = Digest s\<rparr>"

definition sample_claim :: "string \<Rightarrow> string \<Rightarrow> 'k family_claim" where
  "sample_claim l s = \<lparr>fc_origin = br_origin (sample_ref l :: 'k book_ref), fc_subject_digest = Digest s,
     fc_reference = sample_ref l\<rparr>"

definition sample_book :: "book_kind \<Rightarrow> string \<Rightarrow> (string \<times> string) list \<Rightarrow> 'k family_book" where
  "sample_book K d es = projr (replay_all sample_env K d (br_origin (sample_ref [] :: 'k book_ref))
     (map (\<lambda>(l, s). sample_entry l s) es))"

lemma sample_book_ok:
  "is_ok (replay_all E K d o' es) \<Longrightarrow> replay_all E K d o' es = Ok (projr (replay_all E K d o' es))"
  by (cases "replay_all E K d o' es") simp_all

theorem family_decision_exact_witness:
  "\<exists>w. decide_family (sample_book Standing ''standing'' [(''s'', ''x'')] :: standing_book family_book)
     (sample_claim ''s'' ''x'') = Admit w"
proof -
  have "is_ok (replay_all sample_env Standing ''standing'' (br_origin (sample_ref [] :: standing_book book_ref))
      (map (\<lambda>(l, s). sample_entry l s) [(''s'', ''x'')] :: standing_book family_entry list))"
    by code_simp
  from family_decision_exact [OF sample_book_ok [OF this]] show ?thesis
    by (simp add: sample_book_def sample_claim_def claimed_entry_def sample_entry_def sample_ref_def)
qed

text \<open>
  C34: the head commits to the whole book.  For two replays of one family, equal heads mean equal
  entry lists in the same order (and conversely), provided SHA-256 and the canonical printer do
  not collide on the inputs these two replays give them.
\<close>

theorem book_head_commits:
  assumes "codec_ok E" and "replay_all E K d o' es = Ok b" and "replay_all E K d p' fs = Ok c"
    and "no_collision E K d es fs"
  shows "fb_head b = fb_head c \<longleftrightarrow> es = fs"
  using head_determines_entries [OF assms] replay_all_origin assms(2,3) by blast

definition distinct_images :: "('a \<Rightarrow> 'b) \<Rightarrow> 'a list \<Rightarrow> bool" where
  "distinct_images f xs \<longleftrightarrow> distinct (map f (remdups xs))"

lemma distinct_images_inj: "distinct_images f xs \<Longrightarrow> inj_on f (set xs)"
  by (simp add: distinct_images_def distinct_map)

lemma no_collision_check:
  "distinct_images (hash_bytes E) (book_preimages E K d es @ book_preimages E K d fs) \<Longrightarrow>
   distinct_images (env_jcs_to_vec E) (replay_trees E K d es @ replay_trees E K d fs) \<Longrightarrow>
   no_collision E K d es fs"
  unfolding no_collision_def by (simp only: distinct_images_inj)

theorem book_head_commits_witness:
  "fb_head (sample_book Standing ''standing'' [(''s'', ''x'')] :: standing_book family_book) \<noteq>
   fb_head (sample_book Standing ''standing'' [(''s'', ''y'')] :: standing_book family_book)"
proof -
  let ?o = "br_origin (sample_ref [] :: standing_book book_ref)"
  let ?x = "map (\<lambda>(l, s). sample_entry l s) [(''s'', ''x'')] :: standing_book family_entry list"
  let ?y = "map (\<lambda>(l, s). sample_entry l s) [(''s'', ''y'')] :: standing_book family_entry list"
  have x: "is_ok (replay_all sample_env Standing ''standing'' ?o ?x)" by code_simp
  have y: "is_ok (replay_all sample_env Standing ''standing'' ?o ?y)" by code_simp
  have "no_collision sample_env Standing ''standing'' ?x ?y"
    by (rule no_collision_check) code_simp+
  from book_head_commits [OF sample_env_ok sample_book_ok [OF x] sample_book_ok [OF y] this]
  show ?thesis by (simp add: sample_book_def sample_entry_def)
qed

text \<open>
  C1: the effect crossing evaluates all four families.  It admits exactly when each family
  admits its own claim and all four claims name one lifecycle, and the composite witness keeps
  the four native witnesses; otherwise its refusal lists every family refusal and every origin
  mismatch, in order and with nothing dropped.
\<close>

theorem effect_crossing_exact:
  "(evaluate_effect_crossing sb cb ob kb q = Admit w \<longleftrightarrow>
      decide_standing sb (eq_standing q) = Admit (ew_standing w) \<and>
      decide_custody cb (eq_custody q) = Admit (ew_custody w) \<and>
      decide_obligation ob (eq_obligation q) = Admit (ew_obligation w) \<and>
      decide_capacity kb (eq_capacity q) = Admit (ew_capacity w) \<and>
      fc_origin (eq_custody q) = fc_origin (eq_standing q) \<and>
      fc_origin (eq_obligation q) = fc_origin (eq_standing q) \<and>
      fc_origin (eq_capacity q) = fc_origin (eq_standing q)) \<and>
   (evaluate_effect_crossing sb cb ob kb q = Refuse r \<longleftrightarrow>
      ne_into_vec (er_failures r) = effect_refusals sb cb ob kb q)"
  by (simp add: effect_crossing_Admit_iff effect_crossing_Refuse_iff effect_crossing_failures_Nil)

end
