(* ===== verification/AG_Authority.thy ===== *)
theory AG_Authority
  imports AG_Family
begin

text \<open>
  \<open>crates/ag-kernel/src/authority.rs\<close>: committed admission evidence and the reconstruction of
  process-local effect authority from it.  The sealed trait \<open>AuthorityFamily\<close> has one instance;
  its \<open>DOMAIN\<close> string and the serializer of its witness type are arguments of the generic
  definitions.
\<close>

datatype authority_error =
    WitnessDigestMismatch
  | CommitDigestMismatch
  | EvaluationContextMismatch
  | ReplayRefused
  | ReplayWitnessMismatch
  | AuthorityCanonicalization string

record 'w admission_commit =
  am_witness :: 'w
  am_witness_digest :: digest
  am_evaluation_context_digest :: digest
  am_commit_digest :: digest

record 'w authority =
  au_witness :: 'w
  au_commit_digest :: digest

definition family_claim_json :: "env \<Rightarrow> book_kind \<Rightarrow> 'k family_claim \<Rightarrow> json" where
  "family_claim_json E K c = JObj
     [(''origin'', origin_json E (fc_origin c)),
      (''subject_digest'', digest_json (fc_subject_digest c)),
      (''reference'', book_ref_json E K (fc_reference c))]"

definition family_witness_json :: "env \<Rightarrow> book_kind \<Rightarrow> 'k family_witness \<Rightarrow> json" where
  "family_witness_json E K w = JObj
     [(''claim'', family_claim_json E K (fw_claim w)),
      (''book_head'', digest_json (fw_book_head w)),
      (''observed_subject_digest'', digest_json (fw_observed_subject_digest w))]"

definition effect_witness_json :: "env \<Rightarrow> effect_crossing_witness \<Rightarrow> json" where
  "effect_witness_json E w = JObj
     [(''standing'', family_witness_json E Standing (ew_standing w)),
      (''custody'', family_witness_json E Custody (ew_custody w)),
      (''obligation'', family_witness_json E Obligation (ew_obligation w)),
      (''capacity'', family_witness_json E Capacity (ew_capacity w))]"

definition domain_digest :: "env \<Rightarrow> string \<Rightarrow> json \<Rightarrow> authority_error + digest" where
  "domain_digest E d v =
     res_bind (map_err AuthorityCanonicalization (env_jcs_to_vec E v)) (\<lambda>encoded.
       Ok (hash_bytes E (d @ [CHR 0x00] @ encoded)))"

definition effect_family_domain :: string where
  "effect_family_domain = ''effect-crossing''"

definition commit_digest :: "env \<Rightarrow> string \<Rightarrow> digest \<Rightarrow> digest \<Rightarrow> authority_error + digest" where
  "commit_digest E DOMAIN w c =
     domain_digest E (''ag-ng:'' @ DOMAIN @ '':admission-commit:v1'') (JArr [digest_json w, digest_json c])"

definition effect_context_digest ::
  "env \<Rightarrow> digest \<Rightarrow> digest \<Rightarrow> digest \<Rightarrow> digest \<Rightarrow> authority_error + digest" where
  "effect_context_digest E s c o' k =
     domain_digest E ''ag-ng:effect-crossing:context:v1''
       (JArr [digest_json s, digest_json c, digest_json o', digest_json k])"

definition effect_context_digest_from_witness ::
  "env \<Rightarrow> effect_crossing_witness \<Rightarrow> authority_error + digest" where
  "effect_context_digest_from_witness E w =
     effect_context_digest E (fw_book_head (ew_standing w)) (fw_book_head (ew_custody w))
       (fw_book_head (ew_obligation w)) (fw_book_head (ew_capacity w))"

definition admission_new :: "env \<Rightarrow> string \<Rightarrow> ('w \<Rightarrow> json) \<Rightarrow> 'w \<Rightarrow> digest
    \<Rightarrow> authority_error + 'w admission_commit" where
  "admission_new E DOMAIN ser w context =
     res_bind (domain_digest E (''ag-ng:'' @ DOMAIN @ '':witness:v1'') (ser w)) (\<lambda>wd.
     res_bind (commit_digest E DOMAIN wd context) (\<lambda>cd.
       Ok \<lparr>am_witness = w, am_witness_digest = wd, am_evaluation_context_digest = context,
         am_commit_digest = cd\<rparr>))"

definition admission_effect :: "env \<Rightarrow> effect_crossing_witness
    \<Rightarrow> authority_error + effect_crossing_witness admission_commit" where
  "admission_effect E w =
     res_bind (effect_context_digest_from_witness E w) (\<lambda>context.
       admission_new E effect_family_domain (effect_witness_json E) w context)"

definition verify_record :: "env \<Rightarrow> string \<Rightarrow> ('w \<Rightarrow> json) \<Rightarrow> 'w admission_commit
    \<Rightarrow> authority_error + unit" where
  "verify_record E DOMAIN ser r =
     res_bind (domain_digest E (''ag-ng:'' @ DOMAIN @ '':witness:v1'') (ser (am_witness r))) (\<lambda>wd.
       if wd \<noteq> am_witness_digest r then Err WitnessDigestMismatch
       else res_bind (commit_digest E DOMAIN (am_witness_digest r) (am_evaluation_context_digest r)) (\<lambda>cd.
         if cd \<noteq> am_commit_digest r then Err CommitDigestMismatch else Ok ()))"

definition authority_from_verified :: "'w admission_commit \<Rightarrow> 'w authority" where
  "authority_from_verified r = \<lparr>au_witness = am_witness r, au_commit_digest = am_commit_digest r\<rparr>"

definition witness_claim :: "effect_crossing_witness \<Rightarrow> effect_crossing_claim" where
  "witness_claim w = \<lparr>eq_standing = fw_claim (ew_standing w), eq_custody = fw_claim (ew_custody w),
     eq_obligation = fw_claim (ew_obligation w), eq_capacity = fw_claim (ew_capacity w)\<rparr>"

definition reconstruct_effect_authority ::
  "env \<Rightarrow> standing_book family_book \<Rightarrow> custody_book family_book \<Rightarrow> obligation_book family_book
    \<Rightarrow> capacity_book family_book \<Rightarrow> effect_crossing_witness admission_commit
    \<Rightarrow> authority_error + effect_crossing_witness authority" where
  "reconstruct_effect_authority E sb cb ob kb r =
     res_bind (verify_record E effect_family_domain (effect_witness_json E) r) (\<lambda>_.
     res_bind (effect_context_digest E (fb_head sb) (fb_head cb) (fb_head ob) (fb_head kb)) (\<lambda>context.
       if am_evaluation_context_digest r \<noteq> context then Err EvaluationContextMismatch
       else case evaluate_effect_crossing sb cb ob kb (witness_claim (am_witness r)) of
           Refuse _ \<Rightarrow> Err ReplayRefused
         | Admit replayed \<Rightarrow>
             if replayed \<noteq> am_witness r then Err ReplayWitnessMismatch
             else Ok (authority_from_verified r)))"

section \<open>Lemmas\<close>

lemma decide_family_witness:
  "decide_family b c = Admit w \<Longrightarrow> fw_claim w = c \<and> fw_book_head w = fb_head b"
  by (auto simp: decide_family_def Let_def split: option.splits)

lemmas decide_witness = decide_standing_def decide_custody_def decide_obligation_def
  decide_capacity_def

lemma effect_admit_binding:
  assumes "evaluate_effect_crossing sb cb ob kb q = Admit w"
  shows "witness_claim w = q"
    and "effect_context_digest_from_witness E w =
      effect_context_digest E (fb_head sb) (fb_head cb) (fb_head ob) (fb_head kb)"
proof -
  from assms have
    "decide_family sb (eq_standing q) = Admit (ew_standing w)"
    "decide_family cb (eq_custody q) = Admit (ew_custody w)"
    "decide_family ob (eq_obligation q) = Admit (ew_obligation w)"
    "decide_family kb (eq_capacity q) = Admit (ew_capacity w)"
    by (simp_all add: effect_crossing_Admit_iff decide_witness)
  note d = this [THEN decide_family_witness]
  show "witness_claim w = q"
    using d by (cases q) (simp add: witness_claim_def)
  show "effect_context_digest_from_witness E w =
      effect_context_digest E (fb_head sb) (fb_head cb) (fb_head ob) (fb_head kb)"
    using d by (simp add: effect_context_digest_from_witness_def)
qed

lemma verify_record_iff:
  "verify_record E D ser r = Inr () \<longleftrightarrow>
     domain_digest E (''ag-ng:'' @ D @ '':witness:v1'') (ser (am_witness r)) = Inr (am_witness_digest r) \<and>
     commit_digest E D (am_witness_digest r) (am_evaluation_context_digest r) = Inr (am_commit_digest r)"
  by (auto simp: verify_record_def ag_check)

lemma admission_new_iff:
  "admission_new E D ser w context = Inr r \<longleftrightarrow>
     am_witness r = w \<and> am_evaluation_context_digest r = context \<and> verify_record E D ser r = Inr ()"
  by (cases r) (auto simp: admission_new_def verify_record_iff ag_check)

lemma reconstruct_iff:
  "reconstruct_effect_authority E sb cb ob kb r = Inr a \<longleftrightarrow>
     admission_effect E (am_witness r) = Inr r \<and>
     evaluate_effect_crossing sb cb ob kb (witness_claim (am_witness r)) = Admit (am_witness r) \<and>
     a = authority_from_verified r"
  (is "?L \<longleftrightarrow> ?R")
proof
  assume ?L
  then have v: "verify_record E effect_family_domain (effect_witness_json E) r = Inr ()"
    and c: "effect_context_digest E (fb_head sb) (fb_head cb) (fb_head ob) (fb_head kb) =
      Inr (am_evaluation_context_digest r)"
    and e: "evaluate_effect_crossing sb cb ob kb (witness_claim (am_witness r)) = Admit (am_witness r)"
    and a: "a = authority_from_verified r"
    by (auto simp: reconstruct_effect_authority_def ag_check split: native_judgment.splits if_splits)
  from c have "effect_context_digest_from_witness E (am_witness r) = Inr (am_evaluation_context_digest r)"
    by (simp add: effect_admit_binding(2) [OF e])
  with v have "admission_effect E (am_witness r) = Inr r"
    by (simp add: admission_effect_def admission_new_iff)
  with e a show ?R by simp
next
  assume R: ?R
  then obtain ctx where c: "effect_context_digest_from_witness E (am_witness r) = Inr ctx"
    and n: "admission_new E effect_family_domain (effect_witness_json E) (am_witness r) ctx = Inr r"
    by (auto simp: admission_effect_def ag_check)
  from R have e: "evaluate_effect_crossing sb cb ob kb (witness_claim (am_witness r)) = Admit (am_witness r)"
    by simp
  have "effect_context_digest E (fb_head sb) (fb_head cb) (fb_head ob) (fb_head kb) = Inr ctx"
    using c effect_admit_binding(2) [OF e, of E] by simp
  with R n show ?L by (simp add: reconstruct_effect_authority_def admission_new_iff)
qed

section \<open>The four books together\<close>

record effect_books =
  bk_standing :: "standing_book family_book"
  bk_custody :: "custody_book family_book"
  bk_obligation :: "obligation_book family_book"
  bk_capacity :: "capacity_book family_book"

record effect_entries =
  en_standing :: "standing_book family_entry list"
  en_custody :: "custody_book family_entry list"
  en_obligation :: "obligation_book family_entry list"
  en_capacity :: "capacity_book family_entry list"

definition replay_books :: "env \<Rightarrow> lifecycle_origin \<Rightarrow> effect_entries \<Rightarrow> family_book_error + effect_books" where
  "replay_books E o' x =
     res_bind (run_events (replay_standing E) (standing_book_new E o') (en_standing x)) (\<lambda>s.
     res_bind (run_events (replay_custody E) (custody_book_new E o') (en_custody x)) (\<lambda>c.
     res_bind (run_events (replay_obligation E) (obligation_book_new E o') (en_obligation x)) (\<lambda>ob.
     res_bind (run_events (replay_capacity E) (capacity_book_new E o') (en_capacity x)) (\<lambda>k.
       Ok \<lparr>bk_standing = s, bk_custody = c, bk_obligation = ob, bk_capacity = k\<rparr>))))"

definition evaluate_books :: "effect_books \<Rightarrow> effect_crossing_claim
    \<Rightarrow> (effect_crossing_witness, effect_crossing_refusal) native_judgment" where
  "evaluate_books B = evaluate_effect_crossing (bk_standing B) (bk_custody B) (bk_obligation B) (bk_capacity B)"

definition reconstruct_books :: "env \<Rightarrow> effect_books \<Rightarrow> effect_crossing_witness admission_commit
    \<Rightarrow> authority_error + effect_crossing_witness authority" where
  "reconstruct_books E B =
     reconstruct_effect_authority E (bk_standing B) (bk_custody B) (bk_obligation B) (bk_capacity B)"

definition books_no_collision :: "env \<Rightarrow> effect_entries \<Rightarrow> effect_entries \<Rightarrow> bool" where
  "books_no_collision E x y \<longleftrightarrow>
     no_collision E Standing ''standing'' (en_standing x) (en_standing y) \<and>
     no_collision E Custody ''custody'' (en_custody x) (en_custody y) \<and>
     no_collision E Obligation ''obligation'' (en_obligation x) (en_obligation y) \<and>
     no_collision E Capacity ''capacity'' (en_capacity x) (en_capacity y)"

lemmas book_instances = replay_standing_def replay_custody_def replay_obligation_def
  replay_capacity_def standing_book_new_def custody_book_new_def obligation_book_new_def
  capacity_book_new_def

lemma replay_books_iff:
  "replay_books E o' x = Inr B \<longleftrightarrow>
     replay_all E Standing ''standing'' o' (en_standing x) = Inr (bk_standing B) \<and>
     replay_all E Custody ''custody'' o' (en_custody x) = Inr (bk_custody B) \<and>
     replay_all E Obligation ''obligation'' o' (en_obligation x) = Inr (bk_obligation B) \<and>
     replay_all E Capacity ''capacity'' o' (en_capacity x) = Inr (bk_capacity B)"
  by (cases B) (auto simp: replay_books_def book_instances ag_check)

lemma reconstruct_books_heads:
  assumes "reconstruct_books E B r = Inr a"
  shows "fb_head (bk_standing B) = fw_book_head (ew_standing (am_witness r))"
    and "fb_head (bk_custody B) = fw_book_head (ew_custody (am_witness r))"
    and "fb_head (bk_obligation B) = fw_book_head (ew_obligation (am_witness r))"
    and "fb_head (bk_capacity B) = fw_book_head (ew_capacity (am_witness r))"
  using assms
  by (auto simp: reconstruct_books_def reconstruct_iff effect_crossing_Admit_iff decide_witness
      dest: decide_family_witness)

section \<open>Properties\<close>

text \<open>
  Effect authority is reconstructed from a record exactly when the record is the commit that
  \<open>AdmissionCommit::effect\<close> builds for its own witness (so both its digests are the recomputed
  ones) and replaying the witness's claims against the supplied books admits with the identical
  witness; the authority then carries that witness and commit digest.
\<close>

theorem authority_reconstruction_exact:
  "reconstruct_effect_authority E sb cb ob kb r = Ok a \<longleftrightarrow>
     admission_effect E (am_witness r) = Ok r \<and>
     evaluate_effect_crossing sb cb ob kb (witness_claim (am_witness r)) = Admit (am_witness r) \<and>
     a = authority_from_verified r"
  by (rule reconstruct_iff)

text \<open>
  C30: what was admitted can be reclaimed.  If the crossing admits a claim over four books and the
  witness is committed, reconstruction over the same four books returns authority for exactly
  that witness.
\<close>

theorem authority_commit_roundtrip:
  assumes "evaluate_effect_crossing sb cb ob kb q = Admit w" and "admission_effect E w = Ok r"
  shows "reconstruct_effect_authority E sb cb ob kb r =
    Ok \<lparr>au_witness = w, au_commit_digest = am_commit_digest r\<rparr>"
proof -
  have r: "am_witness r = w"
    using assms(2) by (auto simp: admission_effect_def admission_new_iff ag_check)
  show ?thesis
    using assms r effect_admit_binding(1) [OF assms(1)]
    by (simp add: reconstruct_iff authority_from_verified_def)
qed

definition sample_entries :: "string \<Rightarrow> effect_entries" where
  "sample_entries s = \<lparr>en_standing = [sample_entry ''a'' s], en_custody = [sample_entry ''b'' s],
     en_obligation = [sample_entry ''c'' s], en_capacity = [sample_entry ''d'' s]\<rparr>"

definition sample_effect_claim :: "string \<Rightarrow> effect_crossing_claim" where
  "sample_effect_claim s = \<lparr>eq_standing = sample_claim ''a'' s, eq_custody = sample_claim ''b'' s,
     eq_obligation = sample_claim ''c'' s, eq_capacity = sample_claim ''d'' s\<rparr>"

definition sample_books :: effect_books where
  "sample_books = projr (replay_books sample_env (br_origin (sample_ref [] :: unit book_ref)) (sample_entries ''x''))"

definition sample_witness :: effect_crossing_witness where
  "sample_witness = (case evaluate_books sample_books (sample_effect_claim ''x'') of Admit w \<Rightarrow> w)"

definition sample_commit :: "effect_crossing_witness admission_commit" where
  "sample_commit = projr (admission_effect sample_env sample_witness)"

lemma sample_commit_ok: "admission_effect sample_env sample_witness = Inr sample_commit"
proof -
  have "\<exists>d. domain_digest sample_env s v = Inr d" for s v
    using sample_to_vec_ok [of v] by (auto simp: domain_digest_def)
  then have "is_ok (admission_effect sample_env sample_witness)"
    by (auto simp: admission_effect_def admission_new_def commit_digest_def effect_context_digest_def
        effect_context_digest_from_witness_def is_ok_bind)
  then show ?thesis by (auto simp: sample_commit_def is_ok_iff)
qed

lemma sample_books_ok:
  "replay_books sample_env (br_origin (sample_ref [] :: unit book_ref)) (sample_entries ''x'') = Inr sample_books"
proof -
  have "is_ok (replay_books sample_env (br_origin (sample_ref [] :: unit book_ref)) (sample_entries ''x''))"
    by code_simp
  then show ?thesis by (auto simp: sample_books_def is_ok_iff)
qed

lemma sample_books_admit: "evaluate_books sample_books (sample_effect_claim ''x'') = Admit sample_witness"
proof -
  note B = sample_books_ok [unfolded replay_books_iff]
  have "\<exists>w. decide_standing (bk_standing sample_books) (sample_claim ''a'' ''x'') = Admit w"
    "\<exists>w. decide_custody (bk_custody sample_books) (sample_claim ''b'' ''x'') = Admit w"
    "\<exists>w. decide_obligation (bk_obligation sample_books) (sample_claim ''c'' ''x'') = Admit w"
    "\<exists>w. decide_capacity (bk_capacity sample_books) (sample_claim ''d'' ''x'') = Admit w"
    using B [THEN conjunct1, THEN replay_all_wf] B [THEN conjunct1, THEN replay_all_shape]
      B [THEN conjunct2, THEN conjunct1, THEN replay_all_wf]
      B [THEN conjunct2, THEN conjunct1, THEN replay_all_shape]
      B [THEN conjunct2, THEN conjunct2, THEN conjunct1, THEN replay_all_wf]
      B [THEN conjunct2, THEN conjunct2, THEN conjunct1, THEN replay_all_shape]
      B [THEN conjunct2, THEN conjunct2, THEN conjunct2, THEN replay_all_wf]
      B [THEN conjunct2, THEN conjunct2, THEN conjunct2, THEN replay_all_shape]
    by (simp_all add: decide_witness decide_family_Admit_iff sample_claim_def sample_entries_def
        sample_entry_def sample_ref_def)
  then obtain s c ob k where
    "decide_standing (bk_standing sample_books) (sample_claim ''a'' ''x'') = Admit s"
    "decide_custody (bk_custody sample_books) (sample_claim ''b'' ''x'') = Admit c"
    "decide_obligation (bk_obligation sample_books) (sample_claim ''c'' ''x'') = Admit ob"
    "decide_capacity (bk_capacity sample_books) (sample_claim ''d'' ''x'') = Admit k" by blast
  then have "evaluate_books sample_books (sample_effect_claim ''x'') =
      Admit \<lparr>ew_standing = s, ew_custody = c, ew_obligation = ob, ew_capacity = k\<rparr>"
    by (simp add: evaluate_books_def effect_crossing_Admit_iff sample_effect_claim_def
        effect_crossing_failures_Nil sample_claim_def sample_ref_def)
  then show ?thesis by (simp add: sample_witness_def)
qed

theorem authority_commit_roundtrip_witness:
  "reconstruct_books sample_env sample_books sample_commit =
     Ok \<lparr>au_witness = sample_witness, au_commit_digest = am_commit_digest sample_commit\<rparr>"
  unfolding reconstruct_books_def
  by (rule authority_commit_roundtrip [OF sample_books_admit [unfolded evaluate_books_def] sample_commit_ok])

text \<open>
  C2: authority is pinned to book contents.  If one record reconstructs authority over two
  replayed sets of books, then both sets were replayed from the same entries in all four
  families, provided SHA-256 and the canonical printer do not collide on the replayed inputs:
  a record never survives an added, removed or altered entry.
\<close>

theorem authority_pinned_to_books:
  assumes "codec_ok E" and "replay_books E o' x = Ok B" and "replay_books E p' y = Ok C"
    and "books_no_collision E x y"
    and "reconstruct_books E B r = Ok a" and "reconstruct_books E C r = Ok a'"
  shows "x = y \<and> a = a'"
proof -
  note h = reconstruct_books_heads [OF assms(5)] reconstruct_books_heads [OF assms(6)]
  have "en_standing x = en_standing y" "en_custody x = en_custody y"
    "en_obligation x = en_obligation y" "en_capacity x = en_capacity y"
    using assms(2,3,4) h unfolding replay_books_iff books_no_collision_def
    by (auto intro: head_determines_entries [OF assms(1)])
  then have "x = y" by (intro effect_entries.equality) simp_all
  moreover have "a = a'"
    using assms(5,6) by (simp add: reconstruct_books_def reconstruct_iff)
  ultimately show ?thesis ..
qed

definition altered_books :: effect_books where
  "altered_books = projr (replay_books sample_env (br_origin (sample_ref [] :: unit book_ref)) (sample_entries ''y''))"

lemma altered_books_ok:
  "replay_books sample_env (br_origin (sample_ref [] :: unit book_ref)) (sample_entries ''y'') = Inr altered_books"
proof -
  have "is_ok (replay_books sample_env (br_origin (sample_ref [] :: unit book_ref)) (sample_entries ''y''))"
    by code_simp
  then show ?thesis by (auto simp: altered_books_def is_ok_iff)
qed

lemma sample_no_collision: "books_no_collision sample_env (sample_entries ''x'') (sample_entries ''y'')"
  unfolding books_no_collision_def by (intro conjI no_collision_check) code_simp+

theorem authority_pinned_to_books_witness:
  "(\<exists>a. reconstruct_books sample_env sample_books sample_commit = Ok a) \<and>
   \<not> (\<exists>a. reconstruct_books sample_env altered_books sample_commit = Ok a)"
proof -
  obtain a where a: "reconstruct_books sample_env sample_books sample_commit = Ok a"
    unfolding reconstruct_books_def reconstruct_iff
    using sample_books_admit sample_commit_ok effect_admit_binding(1)
    by (metis admission_effect_def admission_new_iff evaluate_books_def res_bind_Inr_iff)
  have same: "books_no_collision sample_env (sample_entries ''x'') (sample_entries ''x'')"
    using sample_no_collision unfolding books_no_collision_def by (auto intro: no_collision_same)
  have "a = a"
    using authority_pinned_to_books [OF sample_env_ok sample_books_ok sample_books_ok same a a] ..
  moreover have "sample_entries ''x'' \<noteq> sample_entries ''y''"
    by (simp add: sample_entries_def sample_entry_def)
  ultimately show ?thesis
    using a authority_pinned_to_books [OF sample_env_ok sample_books_ok altered_books_ok
        sample_no_collision a] by blast
qed

end
