(* ===== verification/AG_Recomposition.thy ===== *)
theory AG_Recomposition
  imports AG_Judgment AG_Origin "HOL-Library.Multiset"
begin

text \<open>
  \<open>crates/ag-kernel/src/path.rs\<close> and \<open>crates/ag-kernel/src/recomposition.rs\<close>: lossless path
  verdicts, the separate evaluation trace, and the accounting that recomposes a decomposed
  claim from its boundary slices.
\<close>

section \<open>Path verdicts\<close>

record 'o located_obstruction =
  ob_edge_id :: digest
  ob_obstruction :: 'o

definition obstruction_rename :: "('o \<Rightarrow> 'u) \<Rightarrow> 'o located_obstruction \<Rightarrow> 'u located_obstruction" where
  "obstruction_rename f x = \<lparr>ob_edge_id = ob_edge_id x, ob_obstruction = f (ob_obstruction x)\<rparr>"

datatype 'o path_verdict = PathVerdict (obstructions: "'o located_obstruction list")

definition verdict_clean :: "'o path_verdict" where
  "verdict_clean = PathVerdict []"

definition verdict_obstructed :: "digest \<Rightarrow> 'o \<Rightarrow> 'o path_verdict" where
  "verdict_obstructed e x = PathVerdict [\<lparr>ob_edge_id = e, ob_obstruction = x\<rparr>]"

definition verdict_push :: "'o path_verdict \<Rightarrow> digest \<Rightarrow> 'o \<Rightarrow> 'o path_verdict" where
  "verdict_push v e x = PathVerdict (obstructions v @ [\<lparr>ob_edge_id = e, ob_obstruction = x\<rparr>])"

definition verdict_compose :: "'o path_verdict \<Rightarrow> 'o path_verdict \<Rightarrow> 'o path_verdict" where
  "verdict_compose v w = PathVerdict (obstructions v @ obstructions w)"

definition verdict_rename :: "('o \<Rightarrow> 'u) \<Rightarrow> 'o path_verdict \<Rightarrow> 'u path_verdict" where
  "verdict_rename f v = PathVerdict (map (obstruction_rename f) (obstructions v))"

definition is_clean :: "'o path_verdict \<Rightarrow> bool" where
  "is_clean v \<longleftrightarrow> obstructions v = []"

datatype trace_outcome =
    TraceClean digest
  | TraceObstructed digest
  | TraceSkipped digest
  | TraceIndeterminate "failure_evidence non_empty"

record trace_step =
  ts_edge_id :: digest
  ts_outcome :: trace_outcome

datatype evaluation_trace = EvaluationTrace (steps: "trace_step list")

definition trace_push :: "evaluation_trace \<Rightarrow> trace_step \<Rightarrow> evaluation_trace" where
  "trace_push t s = EvaluationTrace (steps t @ [s])"

lemma verdict_compose_clean: "is_clean (verdict_compose v w) \<longleftrightarrow> is_clean v \<and> is_clean w"
  by (simp add: is_clean_def verdict_compose_def)

lemma verdict_compose_monoid:
  "verdict_compose verdict_clean v = v" "verdict_compose v verdict_clean = v"
  "verdict_compose (verdict_compose u v) w = verdict_compose u (verdict_compose v w)"
  by (simp_all add: verdict_compose_def verdict_clean_def)

lemma verdict_rename_compose:
  "verdict_rename f (verdict_compose v w) = verdict_compose (verdict_rename f v) (verdict_rename f w)"
  "is_clean (verdict_rename f v) \<longleftrightarrow> is_clean v"
  by (simp_all add: verdict_rename_def verdict_compose_def is_clean_def)

section \<open>Boundary manifests and slices\<close>

record boundary_requirement =
  rq_boundary_id :: digest
  rq_expected_slice_digest :: digest

datatype manifest_error = ManifestEmpty | ManifestDuplicateBoundary

record boundary_manifest =
  bm_origin :: lifecycle_origin
  bm_whole_claim_digest :: digest
  bm_requirements :: "boundary_requirement non_empty"

fun duplicate_boundary :: "boundary_requirement list \<Rightarrow> bool" where
  "duplicate_boundary [] = False"
| "duplicate_boundary (r # rs) =
     (list_ex (\<lambda>other. rq_boundary_id other = rq_boundary_id r) rs \<or> duplicate_boundary rs)"

definition manifest_new :: "lifecycle_origin \<Rightarrow> digest \<Rightarrow> boundary_requirement list
    \<Rightarrow> manifest_error + boundary_manifest" where
  "manifest_new o' whole rs =
     res_bind (ok_or ManifestEmpty (ne_from_vec rs)) (\<lambda>reqs.
       if duplicate_boundary (ne_into_vec reqs) then Err ManifestDuplicateBoundary
       else Ok \<lparr>bm_origin = o', bm_whole_claim_digest = whole, bm_requirements = reqs\<rparr>)"

record 'o boundary_slice =
  sl_origin :: lifecycle_origin
  sl_boundary_id :: digest
  sl_slice_digest :: digest
  sl_verdict :: "'o path_verdict"

record 'o accounted_boundary =
  ac_boundary_id :: digest
  ac_slice_digest :: digest
  ac_verdict :: "'o path_verdict"

record 'o recomposition_witness =
  rw_origin :: lifecycle_origin
  rw_whole_claim_digest :: digest
  rw_boundaries :: "'o accounted_boundary non_empty"

datatype 'o recomposition_failure =
    MissingBoundary digest
  | DuplicateBoundary digest
  | UnaccountedBoundary digest
  | ForeignSliceOrigin digest lifecycle_origin lifecycle_origin
  | RewrittenSlice digest digest digest
  | ObstructedBoundary digest "'o located_obstruction non_empty"

datatype 'o recomposition_refusal =
  RecompositionRefusal (rr_failures: "'o recomposition_failure non_empty")

section \<open>Recomposition\<close>

definition slice_failures :: "boundary_manifest \<Rightarrow> 'o boundary_slice \<Rightarrow> 'o recomposition_failure list" where
  "slice_failures m s =
     (if \<not> list_ex (\<lambda>r. rq_boundary_id r = sl_boundary_id s) (ne_into_vec (bm_requirements m))
      then [UnaccountedBoundary (sl_boundary_id s)] else []) @
     (if sl_origin s \<noteq> bm_origin m
      then [ForeignSliceOrigin (sl_boundary_id s) (bm_origin m) (sl_origin s)] else [])"

definition matching_failures :: "boundary_requirement \<Rightarrow> 'o boundary_slice \<Rightarrow> 'o recomposition_failure list" where
  "matching_failures r s =
     (if sl_slice_digest s \<noteq> rq_expected_slice_digest r
      then [RewrittenSlice (rq_boundary_id r) (rq_expected_slice_digest r) (sl_slice_digest s)] else []) @
     (if \<not> is_clean (sl_verdict s)
      then (case ne_from_vec (obstructions (sl_verdict s)) of
              Some obs \<Rightarrow> [ObstructedBoundary (rq_boundary_id r) obs] | None \<Rightarrow> [])
      else [])"

definition requirement_failures :: "'o boundary_slice list \<Rightarrow> boundary_requirement
    \<Rightarrow> 'o recomposition_failure list" where
  "requirement_failures ss r =
     (let matching = filter (\<lambda>s. sl_boundary_id s = rq_boundary_id r) ss in
      if matching = [] then [MissingBoundary (rq_boundary_id r)]
      else (if length matching > 1 then [DuplicateBoundary (rq_boundary_id r)] else []) @
        concat (map (matching_failures r) matching))"

fun account_boundaries :: "'o boundary_slice list \<Rightarrow> boundary_requirement list
    \<Rightarrow> digest + 'o accounted_boundary list" where
  "account_boundaries ss [] = Ok []"
| "account_boundaries ss (r # rs) =
     (case find (\<lambda>s. sl_boundary_id s = rq_boundary_id r) ss of
        None \<Rightarrow> Err (rq_boundary_id r)
      | Some s \<Rightarrow>
          res_bind (account_boundaries ss rs) (\<lambda>bs.
            Ok (\<lparr>ac_boundary_id = sl_boundary_id s, ac_slice_digest = sl_slice_digest s,
              ac_verdict = sl_verdict s\<rparr> # bs)))"

definition recompose :: "boundary_manifest \<Rightarrow> 'o boundary_slice list
    \<Rightarrow> ('o recomposition_witness, 'o recomposition_refusal) native_judgment" where
  "recompose m ss =
     (case ne_from_vec (concat (map (slice_failures m) ss) @
             concat (map (requirement_failures ss) (ne_into_vec (bm_requirements m)))) of
        Some failures \<Rightarrow> Refuse (RecompositionRefusal failures)
      | None \<Rightarrow>
          (case account_boundaries ss (ne_into_vec (bm_requirements m)) of
             Inl b \<Rightarrow> Refuse (RecompositionRefusal (ne_new (MissingBoundary b)))
           | Inr bs \<Rightarrow>
               (case ne_from_vec bs of
                  None \<Rightarrow> Refuse (RecompositionRefusal
                    (ne_new (MissingBoundary (rq_boundary_id (ne_head (bm_requirements m))))))
                | Some boundaries \<Rightarrow>
                    Admit \<lparr>rw_origin = bm_origin m, rw_whole_claim_digest = bm_whole_claim_digest m,
                      rw_boundaries = boundaries\<rparr>)))"

section \<open>Lemmas\<close>

lemma duplicate_boundary_iff: "duplicate_boundary rs \<longleftrightarrow> \<not> distinct (map rq_boundary_id rs)"
  by (induction rs) (auto simp: list_ex_key)

lemma manifest_new_iff:
  "manifest_new o' whole rs = Inr m \<longleftrightarrow>
     ne_into_vec (bm_requirements m) = rs \<and> distinct (map rq_boundary_id rs) \<and>
     bm_origin m = o' \<and> bm_whole_claim_digest m = whole"
  by (cases m) (auto simp: manifest_new_def ag_check duplicate_boundary_iff)

definition account :: "'o boundary_slice \<Rightarrow> 'o accounted_boundary" where
  "account s = \<lparr>ac_boundary_id = sl_boundary_id s, ac_slice_digest = sl_slice_digest s,
     ac_verdict = sl_verdict s\<rparr>"

text \<open>A slice that exactly discharges a requirement.\<close>

definition discharges :: "boundary_manifest \<Rightarrow> boundary_requirement \<Rightarrow> 'o boundary_slice \<Rightarrow> bool" where
  "discharges m r s \<longleftrightarrow> sl_boundary_id s = rq_boundary_id r \<and> sl_origin s = bm_origin m \<and>
     sl_slice_digest s = rq_expected_slice_digest r \<and> is_clean (sl_verdict s)"

lemma slice_failures_Nil:
  "slice_failures m s = [] \<longleftrightarrow>
     sl_boundary_id s \<in> rq_boundary_id ` set (ne_into_vec (bm_requirements m)) \<and>
     sl_origin s = bm_origin m"
  by (simp add: slice_failures_def list_ex_key)

lemma matching_failures_Nil:
  "matching_failures r s = [] \<longleftrightarrow>
     sl_slice_digest s = rq_expected_slice_digest r \<and> is_clean (sl_verdict s)"
  by (cases "obstructions (sl_verdict s)") (auto simp: matching_failures_def is_clean_def)

lemma requirement_failures_Nil:
  "requirement_failures ss r = [] \<longleftrightarrow>
     (\<exists>s. filter (\<lambda>s. sl_boundary_id s = rq_boundary_id r) ss = [s] \<and> matching_failures r s = [])"
  by (cases "filter (\<lambda>s. sl_boundary_id s = rq_boundary_id r) ss" rule: remdups_adj.cases)
    (auto simp: requirement_failures_def Let_def)

lemma account_boundaries_total:
  assumes "list_all2 (\<lambda>r s. filter (\<lambda>s. sl_boundary_id s = rq_boundary_id r) ss = [s]) rs ts"
  shows "account_boundaries ss rs = Inr (map account ts)"
  using assms
proof (induction rs ts rule: list_all2_induct)
  case Nil
  then show ?case by simp
next
  case (Cons r rs s ts)
  have "find (\<lambda>s. sl_boundary_id s = rq_boundary_id r) ss = Some s"
    using Cons.hyps(1) by (rule find_of_filter)
  with Cons.IH show ?case by (simp add: account_def)
qed

lemma slices_by_requirement:
  assumes "list_all2 (\<lambda>r t. filter (\<lambda>s. f s = g r) ss = [t]) rs ts" and "distinct (map g rs)"
    and "f ` set ss \<subseteq> g ` set rs"
  shows "mset ss = mset ts"
  using assms
proof (induction rs arbitrary: ss ts)
  case Nil
  then show ?case by simp
next
  case (Cons r rs)
  then obtain t us where ts: "ts = t # us" and t: "filter (\<lambda>s. f s = g r) ss = [t]"
    and us: "list_all2 (\<lambda>r t. filter (\<lambda>s. f s = g r) ss = [t]) rs us"
    by (auto simp: list_all2_Cons1)
  let ?rest = "filter (\<lambda>s. f s \<noteq> g r) ss"
  have same: "filter (\<lambda>s. f s = g q) ?rest = filter (\<lambda>s. f s = g q) ss" if "q \<in> set rs" for q
    using that Cons.prems(2) by (simp add: conj_commute) (rule filter_cong, auto)
  have "list_all2 (\<lambda>r t. filter (\<lambda>s. f s = g r) ?rest = [t]) rs us"
    using us same by (auto simp: list_all2_conv_all_nth)
  moreover have "f ` set ?rest \<subseteq> g ` set rs"
    using Cons.prems(3) by auto
  ultimately have "mset ?rest = mset us"
    using Cons.prems(2) by (intro Cons.IH) auto
  moreover have "mset ss = mset (filter (\<lambda>s. f s = g r) ss) + mset ?rest"
    using multiset_partition [of "mset ss" "\<lambda>s. f s = g r"] by (simp only: mset_filter)
  ultimately have "mset ss = mset [t] + mset us" by (simp only: t)
  then show ?case by (simp add: ts)
qed

lemma slices_match_requirements:
  assumes "mset ss = mset ts" and "list_all2 (\<lambda>r t. f t = g r) rs ts" and "distinct (map g rs)"
  shows "list_all2 (\<lambda>r t. filter (\<lambda>s. f s = g r) ss = [t]) rs ts"
proof -
  have "map f ts = map g rs" using assms(2) by (auto simp: list_all2_conv_all_nth intro: nth_equalityI)
  then have d: "distinct (map f ts)" using assms(3) by simp
  have "filter (\<lambda>s. f s = g (rs ! i)) ss = [ts ! i]" if "i < length rs" for i
  proof -
    have i: "f (ts ! i) = g (rs ! i)" "ts ! i \<in> set ts"
      using that assms(2) by (auto simp: list_all2_conv_all_nth)
    have "mset (filter (\<lambda>s. f s = g (rs ! i)) ss) = mset (filter (\<lambda>s. f s = g (rs ! i)) ts)"
      by (simp add: assms(1))
    also have "\<dots> = {#ts ! i#}" using filter_unique [OF d i(2)] i(1) by simp
    finally show ?thesis by (simp only: mset_single_iff)
  qed
  then show ?thesis using assms(2) by (simp add: list_all2_conv_all_nth)
qed

lemma recompose_no_failures:
  assumes "distinct (map rq_boundary_id (ne_into_vec (bm_requirements m)))"
  shows "concat (map (slice_failures m) ss) @
      concat (map (requirement_failures ss) (ne_into_vec (bm_requirements m))) = [] \<longleftrightarrow>
    (\<exists>ts. list_all2 (discharges m) (ne_into_vec (bm_requirements m)) ts \<and> mset ss = mset ts)"
    (is "?L \<longleftrightarrow> (\<exists>ts. list_all2 _ ?rs ts \<and> _)")
proof
  assume ?L
  then have sl: "sl_boundary_id s \<in> rq_boundary_id ` set ?rs" "sl_origin s = bm_origin m"
    if "s \<in> set ss" for s
    using that by (auto simp: slice_failures_Nil)
  have "\<forall>r \<in> set ?rs. \<exists>s. filter (\<lambda>s. sl_boundary_id s = rq_boundary_id r) ss = [s] \<and>
      matching_failures r s = []"
    using \<open>?L\<close> by (auto simp: requirement_failures_Nil)
  then obtain t where t: "\<And>r. r \<in> set ?rs \<Longrightarrow>
      filter (\<lambda>s. sl_boundary_id s = rq_boundary_id r) ss = [t r] \<and> matching_failures r (t r) = []"
    by metis
  have tss: "t r \<in> set ss \<and> sl_boundary_id (t r) = rq_boundary_id r" if "r \<in> set ?rs" for r
  proof -
    have "t r \<in> set (filter (\<lambda>s. sl_boundary_id s = rq_boundary_id r) ss)"
      using t [OF that] by (simp only: list.set) simp
    then show ?thesis by simp
  qed
  have "list_all2 (discharges m) ?rs (map t ?rs)"
    using t tss sl(2) by (auto simp: list_all2_conv_all_nth discharges_def matching_failures_Nil)
  moreover have "mset ss = mset (map t ?rs)"
    using assms t sl(1) by (intro slices_by_requirement [of sl_boundary_id rq_boundary_id])
      (auto simp: list_all2_conv_all_nth)
  ultimately show "\<exists>ts. list_all2 (discharges m) ?rs ts \<and> mset ss = mset ts" by blast
next
  assume "\<exists>ts. list_all2 (discharges m) ?rs ts \<and> mset ss = mset ts"
  then obtain ts where ts: "list_all2 (discharges m) ?rs ts" "mset ss = mset ts" by blast
  have "list_all2 (\<lambda>r t. filter (\<lambda>s. sl_boundary_id s = rq_boundary_id r) ss = [t]) ?rs ts"
    using ts assms by (intro slices_match_requirements)
      (auto simp: list_all2_conv_all_nth discharges_def)
  with ts(1) have req: "requirement_failures ss r = []" if "r \<in> set ?rs" for r
    using that by (auto simp: requirement_failures_Nil matching_failures_Nil list_all2_conv_all_nth
        in_set_conv_nth discharges_def)
  have "set ss = set ts" using ts(2) by (metis set_mset_mset)
  then have "slice_failures m s = []" if s: "s \<in> set ss" for s
  proof -
    obtain i where i: "i < length ts" "s = ts ! i"
      using s \<open>set ss = set ts\<close> by (auto simp: in_set_conv_nth)
    then have "?rs ! i \<in> set ?rs" "discharges m (?rs ! i) s"
      using ts(1) unfolding list_all2_conv_all_nth by simp_all
    then show ?thesis by (auto simp: slice_failures_Nil discharges_def)
  qed
  with req show ?L by simp
qed

lemma discharging_slices_accounted:
  assumes "list_all2 (discharges m) rs ts" and "mset ss = mset ts" and "distinct (map rq_boundary_id rs)"
  shows "account_boundaries ss rs = Inr (map account ts)"
  using assms
  by (intro account_boundaries_total slices_match_requirements)
    (auto simp: list_all2_conv_all_nth discharges_def)

lemma recompose_admits:
  assumes "manifest_new o' whole rs = Inr m"
  shows "recompose m ss = Admit w \<longleftrightarrow>
      (\<exists>ts. list_all2 (discharges m) rs ts \<and> mset ss = mset ts \<and>
         rw_origin w = o' \<and> rw_whole_claim_digest w = whole \<and>
         ne_into_vec (rw_boundaries w) = map account ts)"
proof -
  from assms have m: "ne_into_vec (bm_requirements m) = rs" "distinct (map rq_boundary_id rs)"
    "bm_origin m = o'" "bm_whole_claim_digest m = whole"
    by (simp_all add: manifest_new_iff)
  let ?fs = "concat (map (slice_failures m) ss) @ concat (map (requirement_failures ss) rs)"
  have nil: "?fs = [] \<longleftrightarrow> (\<exists>ts. list_all2 (discharges m) rs ts \<and> mset ss = mset ts)"
    using recompose_no_failures [of m ss] m(1,2) by simp
  show ?thesis
  proof (cases "?fs = []")
    case False
    then have "ne_from_vec ?fs \<noteq> None" unfolding ne_from_vec_None .
    then obtain fs where "ne_from_vec ?fs = Some fs" by blast
    then have "recompose m ss \<noteq> Admit w" by (simp only: recompose_def m(1) option.case) simp
    with False nil show ?thesis by blast
  next
    case True
    with nil obtain ts where ts: "list_all2 (discharges m) rs ts" "mset ss = mset ts" by blast
    have acc: "account_boundaries ss rs = Inr (map account us)"
      if "list_all2 (discharges m) rs us" "mset ss = mset us" for us
      using that m(2) by (rule discharging_slices_accounted)
    have "map account ts \<noteq> []"
      using ts(1) m(1) by (metis list.map_disc_iff list_all2_Nil2 ne_into_vec_simps(6))
    then obtain bs where bs: "ne_from_vec (map account ts) = Some bs"
      by (metis ne_from_vec_None option.exhaust)
    have r: "recompose m ss = Admit \<lparr>rw_origin = o', rw_whole_claim_digest = whole, rw_boundaries = bs\<rparr>"
      unfolding recompose_def m True ne_from_vec.simps option.case acc [OF ts] sum.case bs ..
    have v: "ne_into_vec bs = map account ts" using bs by simp
    show ?thesis
    proof
      assume "recompose m ss = Admit w"
      with r have "w = \<lparr>rw_origin = o', rw_whole_claim_digest = whole, rw_boundaries = bs\<rparr>" by simp
      with ts v show "\<exists>ts. list_all2 (discharges m) rs ts \<and> mset ss = mset ts \<and> rw_origin w = o' \<and>
          rw_whole_claim_digest w = whole \<and> ne_into_vec (rw_boundaries w) = map account ts"
        by (intro exI [of _ ts]) simp
    next
      assume "\<exists>ts. list_all2 (discharges m) rs ts \<and> mset ss = mset ts \<and> rw_origin w = o' \<and>
          rw_whole_claim_digest w = whole \<and> ne_into_vec (rw_boundaries w) = map account ts"
      then obtain us where us: "list_all2 (discharges m) rs us" "mset ss = mset us"
        and w: "rw_origin w = o'" "rw_whole_claim_digest w = whole"
          "ne_into_vec (rw_boundaries w) = map account us" by blast
      have "map account us = map account ts" using acc [OF us] acc [OF ts] by simp
      with w(3) v have "rw_boundaries w = bs" by (simp add: ne_into_vec_inject [symmetric])
      with r w(1,2) show "recompose m ss = Admit w" by (cases w) simp
    qed
  qed
qed

lemma recompose_keeps_obstruction:
  assumes "manifest_new o' whole rs = Inr m" and "s \<in> set ss" and "r \<in> set rs"
    and "sl_boundary_id s = rq_boundary_id r" and "\<not> is_clean (sl_verdict s)"
  shows "\<exists>refusal obs. recompose m ss = Refuse refusal \<and>
    ObstructedBoundary (rq_boundary_id r) obs \<in> set (ne_into_vec (rr_failures refusal)) \<and>
    ne_into_vec obs = obstructions (sl_verdict s)"
proof -
  from assms(1) have m: "ne_into_vec (bm_requirements m) = rs" by (simp add: manifest_new_iff)
  let ?fs = "concat (map (slice_failures m) ss) @ concat (map (requirement_failures ss) rs)"
  from assms(5) obtain obs where obs: "ne_from_vec (obstructions (sl_verdict s)) = Some obs"
    by (metis is_clean_def ne_from_vec_None option.exhaust)
  then have "ObstructedBoundary (rq_boundary_id r) obs \<in> set (matching_failures r s)"
    using assms(5) by (simp add: matching_failures_def)
  moreover have "s \<in> set (filter (\<lambda>s. sl_boundary_id s = rq_boundary_id r) ss)"
    using assms(2,4) by simp
  ultimately have "ObstructedBoundary (rq_boundary_id r) obs \<in> set (requirement_failures ss r)"
    unfolding requirement_failures_def Let_def by (auto simp del: set_filter)
  then have inf: "ObstructedBoundary (rq_boundary_id r) obs \<in> set ?fs"
    using assms(3) by auto
  then obtain fs where fs: "ne_from_vec ?fs = Some fs"
    by (metis empty_iff list.set(1) ne_from_vec_None option.exhaust)
  then have "recompose m ss = Refuse (RecompositionRefusal fs)" by (simp only: recompose_def m option.case)
  moreover have "ne_into_vec fs = ?fs" using fs unfolding ne_from_vec_Some by simp
  moreover have "ne_into_vec obs = obstructions (sl_verdict s)" using obs by simp
  ultimately show ?thesis using inf by (metis recomposition_refusal.sel)
qed

section \<open>Properties\<close>

text \<open>
  C29: exact recomposition.  For a manifest with distinct boundaries, recomposition admits exactly
  when the presented slices are, up to order, one slice per requirement with the required
  digest, the manifest's origin and a clean verdict; the witness lists those slices in manifest
  order.  And no obstruction is lost: every obstructed slice of a required boundary makes
  recomposition refuse, with all of its located obstructions in the refusal.
\<close>

theorem recompose_exact:
  assumes "manifest_new o' whole rs = Ok m"
  shows "(recompose m ss = Admit w \<longleftrightarrow>
      (\<exists>ts. list_all2 (discharges m) rs ts \<and> mset ss = mset ts \<and>
         rw_origin w = o' \<and> rw_whole_claim_digest w = whole \<and>
         ne_into_vec (rw_boundaries w) = map account ts)) \<and>
    (\<forall>s r. s \<in> set ss \<longrightarrow> r \<in> set rs \<longrightarrow> sl_boundary_id s = rq_boundary_id r \<longrightarrow>
       \<not> is_clean (sl_verdict s) \<longrightarrow>
       (\<exists>refusal obs. recompose m ss = Refuse refusal \<and>
          ObstructedBoundary (rq_boundary_id r) obs \<in> set (ne_into_vec (rr_failures refusal)) \<and>
          ne_into_vec obs = obstructions (sl_verdict s)))"
  using recompose_admits [OF assms] recompose_keeps_obstruction [OF assms] by blast

definition sample_requirements :: "boundary_requirement list" where
  "sample_requirements = [\<lparr>rq_boundary_id = Digest ''p'', rq_expected_slice_digest = Digest ''1''\<rparr>,
     \<lparr>rq_boundary_id = Digest ''q'', rq_expected_slice_digest = Digest ''2''\<rparr>]"

definition sample_slice :: "string \<Rightarrow> string \<Rightarrow> unit path_verdict \<Rightarrow> unit boundary_slice" where
  "sample_slice b d v = \<lparr>sl_origin = br_origin (sample_ref [] :: unit book_ref), sl_boundary_id = Digest b,
     sl_slice_digest = Digest d, sl_verdict = v\<rparr>"

definition sample_manifest :: boundary_manifest where
  "sample_manifest = projr (manifest_new (br_origin (sample_ref [] :: unit book_ref)) (Digest ''w'') sample_requirements)"

lemma sample_manifest_ok:
  "manifest_new (br_origin (sample_ref [] :: unit book_ref)) (Digest ''w'') sample_requirements = Inr sample_manifest"
  by (simp add: sample_manifest_def manifest_new_def sample_requirements_def)

theorem recompose_exact_witness:
  "(\<exists>w. recompose sample_manifest [sample_slice ''q'' ''2'' verdict_clean, sample_slice ''p'' ''1'' verdict_clean] = Admit w) \<and>
   (\<exists>r. recompose sample_manifest [sample_slice ''q'' ''2'' (verdict_obstructed (Digest ''e'') ()),
      sample_slice ''p'' ''1'' verdict_clean] = Refuse r)"
proof
  let ?ts = "[sample_slice ''p'' ''1'' verdict_clean, sample_slice ''q'' ''2'' verdict_clean]"
  let ?w = "\<lparr>rw_origin = br_origin (sample_ref [] :: unit book_ref), rw_whole_claim_digest = Digest ''w'',
    rw_boundaries = NonEmpty (account (sample_slice ''p'' ''1'' verdict_clean))
      [account (sample_slice ''q'' ''2'' verdict_clean)]\<rparr>"
  have "list_all2 (discharges sample_manifest) sample_requirements ?ts"
    by (simp add: sample_manifest_def manifest_new_def sample_requirements_def discharges_def
        sample_slice_def is_clean_def verdict_clean_def)
  moreover have "mset [sample_slice ''q'' ''2'' verdict_clean, sample_slice ''p'' ''1'' verdict_clean] = mset ?ts"
    by simp
  ultimately have "recompose sample_manifest
      [sample_slice ''q'' ''2'' verdict_clean, sample_slice ''p'' ''1'' verdict_clean] = Admit ?w"
    using recompose_exact [OF sample_manifest_ok, of _ ?w] by auto
  then show "\<exists>w. recompose sample_manifest
      [sample_slice ''q'' ''2'' verdict_clean, sample_slice ''p'' ''1'' verdict_clean] = Admit w" ..
next
  let ?s = "sample_slice ''q'' ''2'' (verdict_obstructed (Digest ''e'') ())"
  let ?r = "\<lparr>rq_boundary_id = Digest ''q'', rq_expected_slice_digest = Digest ''2''\<rparr>"
  have "sl_boundary_id ?s = rq_boundary_id ?r" "\<not> is_clean (sl_verdict ?s)" "?r \<in> set sample_requirements"
    by (simp_all add: sample_slice_def is_clean_def verdict_obstructed_def sample_requirements_def)
  then show "\<exists>r. recompose sample_manifest [?s, sample_slice ''p'' ''1'' verdict_clean] = Refuse r"
    using recompose_exact [OF sample_manifest_ok, of "[?s, sample_slice ''p'' ''1'' verdict_clean]"]
    by (metis list.set_intros(1))
qed

end
