(* ===== verification/AG_Correspondence.thy ===== *)
theory AG_Correspondence
  imports AG_Judgment AG_Identity
begin

text \<open>
  \<open>crates/ag-kernel/src/correspondence.rs\<close>: operational decisions bound to the reviewed calculus
  baseline, and the ledger in which each stored decision is projected at most once.  The native
  witness and refusal types are type parameters with their serializers as arguments.
\<close>

definition calculus_adapter_schema :: string where
  "calculus_adapter_schema = ''ag.calculus-adapter/v1''"
definition admissibility_calculus_revision :: string where
  "admissibility_calculus_revision = ''ff491b808ebeab2a132d9ade46d234cf85dcfbe9''"
definition admissibility_calculus_release :: string where
  "admissibility_calculus_release = ''14.0.0''"

datatype calculus_adapter_error =
    CalcSchemaMismatch
  | CalcBaselineMismatch
  | CalcLifecycleContextMismatch
  | CalcDecisionDigestMismatch
  | CalcForeignLifecycleOrigin
  | CalcDecisionAlreadyConsumed
  | CalcUseReceiptMismatch
  | CalcCanonicalization jcs_error

record calculus_adapter_context =
  cc_schema :: string
  cc_calculus_revision :: string
  cc_calculus_release :: string
  cc_authority_domain :: authority_domain_id
  cc_epoch :: epoch_id
  cc_lifecycle_origin :: lifecycle_origin
  cc_evaluator_identity :: digest
  cc_input_digest :: digest

definition calculus_context_new :: "authority_domain_id \<Rightarrow> epoch_id \<Rightarrow> lifecycle_origin \<Rightarrow> digest
    \<Rightarrow> digest \<Rightarrow> calculus_adapter_context" where
  "calculus_context_new d e o' ev inp = \<lparr>cc_schema = calculus_adapter_schema,
     cc_calculus_revision = admissibility_calculus_revision,
     cc_calculus_release = admissibility_calculus_release, cc_authority_domain = d, cc_epoch = e,
     cc_lifecycle_origin = o', cc_evaluator_identity = ev, cc_input_digest = inp\<rparr>"

definition calculus_context_verify :: "calculus_adapter_context \<Rightarrow> calculus_adapter_error + unit" where
  "calculus_context_verify c =
     (if cc_schema c \<noteq> calculus_adapter_schema then Err CalcSchemaMismatch
      else if cc_calculus_revision c \<noteq> admissibility_calculus_revision
        \<or> cc_calculus_release c \<noteq> admissibility_calculus_release then Err CalcBaselineMismatch
      else if lo_authority_domain (cc_lifecycle_origin c) \<noteq> cc_authority_domain c
        \<or> lo_epoch (cc_lifecycle_origin c) \<noteq> cc_epoch c then Err CalcLifecycleContextMismatch
      else Ok ())"

datatype calculus_disposition = DispAdmit | DispRefuse | DispIndeterminate

record ('w, 'r) calculus_decision =
  cd_context :: calculus_adapter_context
  cd_outcome :: "('w, 'r) operational_evaluation"
  cd_decision_digest :: digest

subsection \<open>Serialized forms\<close>

definition calculus_context_json :: "env \<Rightarrow> calculus_adapter_context \<Rightarrow> json" where
  "calculus_context_json E c = JObj
     [(''schema'', JStr (cc_schema c)),
      (''calculus_revision'', JStr (cc_calculus_revision c)),
      (''calculus_release'', JStr (cc_calculus_release c)),
      (''authority_domain'', domain_json (cc_authority_domain c)),
      (''epoch'', epoch_json (cc_epoch c)),
      (''lifecycle_origin'', origin_json E (cc_lifecycle_origin c)),
      (''evaluator_identity'', digest_json (cc_evaluator_identity c)),
      (''input_digest'', digest_json (cc_input_digest c))]"

fun failure_kind_str :: "operational_failure_kind \<Rightarrow> string" where
  "failure_kind_str ObservationUnavailable = ''observation_unavailable''"
| "failure_kind_str Timeout = ''timeout''"
| "failure_kind_str CustodyFailure = ''custody_failure''"
| "failure_kind_str StoreFailure = ''store_failure''"
| "failure_kind_str ClockFailure = ''clock_failure''"
| "failure_kind_str IncompleteEvaluation = ''incomplete_evaluation''"

definition failure_evidence_json :: "failure_evidence \<Rightarrow> json" where
  "failure_evidence_json f = JObj
     [(''kind'', JStr (failure_kind_str (ev_kind f))),
      (''evidence_digest'', digest_json (ev_evidence_digest f))]"

definition non_empty_json :: "('a \<Rightarrow> json) \<Rightarrow> 'a non_empty \<Rightarrow> json" where
  "non_empty_json f n = JObj [(''head'', f (ne_head n)), (''tail'', JArr (map f (ne_tail n)))]"

fun outcome_json :: "('w \<Rightarrow> json) \<Rightarrow> ('r \<Rightarrow> json) \<Rightarrow> ('w, 'r) operational_evaluation \<Rightarrow> json" where
  "outcome_json wj rj (Evaluated (Admit w)) = JObj [(''Evaluated'', JObj [(''Admit'', wj w)])]"
| "outcome_json wj rj (Evaluated (Refuse r)) = JObj [(''Evaluated'', JObj [(''Refuse'', rj r)])]"
| "outcome_json wj rj (Indeterminate n) =
     JObj [(''Indeterminate'', non_empty_json failure_evidence_json n)]"

definition canonical_digest :: "env \<Rightarrow> string \<Rightarrow> json \<Rightarrow> calculus_adapter_error + digest" where
  "canonical_digest E d v =
     res_bind (map_err CalcCanonicalization (canonicalize E v)) (\<lambda>encoded.
       Ok (hash_bytes E (d @ [CHR 0x00] @ encoded)))"

definition decision_tree :: "env \<Rightarrow> ('w \<Rightarrow> json) \<Rightarrow> ('r \<Rightarrow> json) \<Rightarrow> calculus_adapter_context
    \<Rightarrow> ('w, 'r) operational_evaluation \<Rightarrow> json" where
  "decision_tree E wj rj c x = JArr [calculus_context_json E c, outcome_json wj rj x]"

definition decision_digest :: "env \<Rightarrow> ('w \<Rightarrow> json) \<Rightarrow> ('r \<Rightarrow> json) \<Rightarrow> calculus_adapter_context
    \<Rightarrow> ('w, 'r) operational_evaluation \<Rightarrow> calculus_adapter_error + digest" where
  "decision_digest E wj rj c x =
     canonical_digest E ''ag-ng:calculus-decision:v1'' (decision_tree E wj rj c x)"

section \<open>Decisions\<close>

definition calculus_decision_new :: "env \<Rightarrow> ('w \<Rightarrow> json) \<Rightarrow> ('r \<Rightarrow> json) \<Rightarrow> calculus_adapter_context
    \<Rightarrow> ('w, 'r) operational_evaluation \<Rightarrow> calculus_adapter_error + ('w, 'r) calculus_decision" where
  "calculus_decision_new E wj rj c x =
     res_bind (calculus_context_verify c) (\<lambda>_.
     res_bind (decision_digest E wj rj c x) (\<lambda>d.
       Ok \<lparr>cd_context = c, cd_outcome = x, cd_decision_digest = d\<rparr>))"

definition calculus_decision_verify :: "env \<Rightarrow> ('w \<Rightarrow> json) \<Rightarrow> ('r \<Rightarrow> json) \<Rightarrow> ('w, 'r) calculus_decision
    \<Rightarrow> calculus_adapter_error + unit" where
  "calculus_decision_verify E wj rj d =
     res_bind (calculus_context_verify (cd_context d)) (\<lambda>_.
     res_bind (decision_digest E wj rj (cd_context d) (cd_outcome d)) (\<lambda>x.
       if x \<noteq> cd_decision_digest d then Err CalcDecisionDigestMismatch else Ok ()))"

definition calculus_outcome :: "env \<Rightarrow> ('w \<Rightarrow> json) \<Rightarrow> ('r \<Rightarrow> json) \<Rightarrow> ('w, 'r) calculus_decision
    \<Rightarrow> calculus_adapter_error + ('w, 'r) operational_evaluation" where
  "calculus_outcome E wj rj d =
     res_bind (calculus_decision_verify E wj rj d) (\<lambda>_. Ok (cd_outcome d))"

definition calculus_disposition_of :: "env \<Rightarrow> ('w \<Rightarrow> json) \<Rightarrow> ('r \<Rightarrow> json) \<Rightarrow> ('w, 'r) calculus_decision
    \<Rightarrow> calculus_adapter_error + calculus_disposition" where
  "calculus_disposition_of E wj rj d =
     res_bind (calculus_decision_verify E wj rj d) (\<lambda>_.
       Ok (case cd_outcome d of
             Evaluated (Admit _) \<Rightarrow> DispAdmit
           | Evaluated (Refuse _) \<Rightarrow> DispRefuse
           | Indeterminate _ \<Rightarrow> DispIndeterminate))"

section \<open>The one-use ledger\<close>

record calculus_use_receipt =
  cr_decision :: digest
  cr_consumer :: digest
  cr_lifecycle_origin :: lifecycle_origin
  cr_use_digest :: digest

definition use_tree :: "env \<Rightarrow> digest \<Rightarrow> digest \<Rightarrow> lifecycle_origin \<Rightarrow> json" where
  "use_tree E d c o' = JArr [digest_json d, digest_json c, origin_json E o']"

definition use_receipt_verify :: "env \<Rightarrow> calculus_use_receipt \<Rightarrow> calculus_adapter_error + unit" where
  "use_receipt_verify E r =
     res_bind (canonical_digest E ''ag-ng:calculus-decision-use:v1''
         (use_tree E (cr_decision r) (cr_consumer r) (cr_lifecycle_origin r))) (\<lambda>expected.
       if expected \<noteq> cr_use_digest r then Err CalcUseReceiptMismatch else Ok ())"

record calculus_decision_ledger =
  cl_lifecycle_origin :: lifecycle_origin
  cl_consumed :: "(digest, calculus_use_receipt) btree_map"

definition calculus_ledger_new :: "lifecycle_origin \<Rightarrow> calculus_decision_ledger" where
  "calculus_ledger_new o' = \<lparr>cl_lifecycle_origin = o', cl_consumed = []\<rparr>"

definition calculus_ledger_verify :: "env \<Rightarrow> calculus_decision_ledger \<Rightarrow> calculus_adapter_error + unit" where
  "calculus_ledger_verify E l =
     try_for_each (\<lambda>(decision, receipt).
       if decision \<noteq> cr_decision receipt \<or> cr_lifecycle_origin receipt \<noteq> cl_lifecycle_origin l
       then Err CalcUseReceiptMismatch else use_receipt_verify E receipt) (cl_consumed l)"

definition calculus_consume :: "env \<Rightarrow> ('w \<Rightarrow> json) \<Rightarrow> ('r \<Rightarrow> json) \<Rightarrow> calculus_decision_ledger
    \<Rightarrow> ('w, 'r) calculus_decision \<times> digest
    \<Rightarrow> (calculus_adapter_error + calculus_use_receipt) \<times> calculus_decision_ledger" where
  "calculus_consume E wj rj l q =
     (let (decision, consumer) = q in
      case calculus_ledger_verify E l of Inl e \<Rightarrow> (Err e, l) | Inr _ \<Rightarrow>
      (case calculus_decision_verify E wj rj decision of Inl e \<Rightarrow> (Err e, l) | Inr _ \<Rightarrow>
        if cc_lifecycle_origin (cd_context decision) \<noteq> cl_lifecycle_origin l
        then (Err CalcForeignLifecycleOrigin, l)
        else if bt_get (cl_consumed l) (cd_decision_digest decision) \<noteq> None
        then (Err CalcDecisionAlreadyConsumed, l)
        else case canonical_digest E ''ag-ng:calculus-decision-use:v1''
               (use_tree E (cd_decision_digest decision) consumer (cl_lifecycle_origin l)) of
            Inl e \<Rightarrow> (Err e, l)
          | Inr u \<Rightarrow>
              let receipt = \<lparr>cr_decision = cd_decision_digest decision, cr_consumer = consumer,
                cr_lifecycle_origin = cl_lifecycle_origin l, cr_use_digest = u\<rparr>
              in (Ok receipt, l\<lparr>cl_consumed :=
                   bt_insert (cd_decision_digest decision) receipt (cl_consumed l)\<rparr>)))"

definition calculus_receipt :: "env \<Rightarrow> calculus_decision_ledger \<Rightarrow> digest
    \<Rightarrow> calculus_adapter_error + calculus_use_receipt option" where
  "calculus_receipt E l d =
     res_bind (calculus_ledger_verify E l) (\<lambda>_. Ok (bt_get (cl_consumed l) d))"

section \<open>Lemmas\<close>

definition calculus_key :: "('w, 'r) calculus_decision \<times> digest \<Rightarrow> digest" where
  "calculus_key q = cd_decision_digest (fst q)"

definition calculus_spent :: "calculus_decision_ledger \<Rightarrow> digest set" where
  "calculus_spent l = dom (bt_get (cl_consumed l))"

lemma calculus_consume_Ok:
  "calculus_consume E wj rj l q = (Inr r, l') \<longleftrightarrow>
     calculus_ledger_verify E l = Inr () \<and>
     calculus_decision_verify E wj rj (fst q) = Inr () \<and>
     cc_lifecycle_origin (cd_context (fst q)) = cl_lifecycle_origin l \<and>
     bt_get (cl_consumed l) (calculus_key q) = None \<and>
     cr_decision r = calculus_key q \<and> cr_consumer r = snd q \<and>
     cr_lifecycle_origin r = cl_lifecycle_origin l \<and> use_receipt_verify E r = Inr () \<and>
     l' = l\<lparr>cl_consumed := bt_insert (calculus_key q) r (cl_consumed l)\<rparr>"
proof -
  obtain d c where q: "q = (d, c)" by fastforce
  let ?u = "canonical_digest E ''ag-ng:calculus-decision-use:v1''
    (use_tree E (cd_decision_digest d) c (cl_lifecycle_origin l))"
  show ?thesis
    by (cases "calculus_ledger_verify E l"; cases "calculus_decision_verify E wj rj d"; cases ?u; cases r)
      (auto simp: q calculus_consume_def calculus_key_def use_receipt_verify_def ag_check Let_def
        split: if_splits)
qed

lemma calculus_consume_Err: "calculus_consume E wj rj l q = (Inl e, l') \<Longrightarrow> l' = l"
  by (auto simp: calculus_consume_def Let_def split: prod.splits sum.splits if_splits)

interpretation calc: one_use_ledger "calculus_consume E wj rj" calculus_key calculus_spent for E wj rj
proof unfold_locales
  fix l q r l'
  assume "calculus_consume E wj rj l q = (Inr r, l')"
  then show "calculus_key q \<notin> calculus_spent l \<and> calculus_key q \<in> calculus_spent l'"
    by (auto simp: calculus_consume_Ok calculus_spent_def)
next
  fix l q r l'
  assume c: "calculus_consume E wj rj l q = (r, l')"
  show "calculus_spent l \<subseteq> calculus_spent l'"
    "calculus_spent l' \<subseteq> (if is_ok r then insert (calculus_key q) (calculus_spent l) else calculus_spent l)"
    using c by (cases r; auto simp: calculus_consume_Ok calculus_spent_def dest: calculus_consume_Err)+
qed

lemma ledger_verify_iff:
  "calculus_ledger_verify E l = Inr () \<longleftrightarrow>
     (\<forall>(d, r) \<in> set (cl_consumed l). d = cr_decision r \<and>
        cr_lifecycle_origin r = cl_lifecycle_origin l \<and> use_receipt_verify E r = Inr ())"
  by (auto simp: calculus_ledger_verify_def try_for_each_Inr_iff split_beta split: if_splits)

lemma ledger_verify_new: "calculus_ledger_verify E (calculus_ledger_new o') = Inr ()"
  by (simp add: calculus_ledger_verify_def calculus_ledger_new_def)

lemma ledger_new_spent: "calculus_spent (calculus_ledger_new o') = {}"
  by (simp add: calculus_spent_def calculus_ledger_new_def)

lemma ledger_verify_step:
  assumes "calculus_ledger_verify E l = Inr ()"
  shows "calculus_ledger_verify E (snd (calculus_consume E wj rj l q)) = Inr ()"
proof (cases "calculus_consume E wj rj l q")
  case (Pair r l')
  show ?thesis
  proof (cases r)
    case (Inl e)
    with Pair assms calculus_consume_Err [of E wj rj l q e l'] show ?thesis by simp
  next
    case (Inr x)
    with Pair have ok: "cr_decision x = calculus_key q" "cr_lifecycle_origin x = cl_lifecycle_origin l"
      "use_receipt_verify E x = Inr ()"
      "l' = l\<lparr>cl_consumed := bt_insert (calculus_key q) x (cl_consumed l)\<rparr>"
      by (simp_all add: calculus_consume_Ok)
    have "set (cl_consumed l') \<subseteq> insert (calculus_key q, x) (set (cl_consumed l))"
      using set_bt_insert_subset by (simp add: ok(4))
    with assms ok(1-3) show ?thesis
      unfolding Pair snd_conv ledger_verify_iff by (fastforce simp: ok(4))
  qed
qed

section \<open>Properties\<close>

text \<open>
  C7: one projection per decision.  Over any sequence of consume calls on any ledger, the
  decisions whose consumption succeeded are pairwise distinct and none of them was consumed
  before; the consumed set of the resulting ledger is the old one together with exactly these.
\<close>

theorem calculus_decision_one_use:
  "distinct (granted (calculus_consume E wj rj) calculus_key l qs) \<and>
   set (granted (calculus_consume E wj rj) calculus_key l qs) \<inter> calculus_spent l = {} \<and>
   calculus_spent (snd (consume_all (calculus_consume E wj rj) l qs)) =
     calculus_spent l \<union> set (granted (calculus_consume E wj rj) calculus_key l qs)"
  using calc.granted_distinct calc.granted_fresh calc.consume_all_spent by blast

text \<open>
  The ledger never corrupts itself.  From the empty ledger of a lifecycle, after any sequence
  of consume calls the ledger verifies, and asking for the receipt of a decision returns one
  exactly when a consume call for that decision succeeded; the receipt names that decision and
  its own digest recomputes.
\<close>

theorem calculus_ledger_integrity:
  "calculus_ledger_verify E (snd (consume_all (calculus_consume E wj rj) (calculus_ledger_new o') qs)) = Ok () \<and>
   (d \<in> set (granted (calculus_consume E wj rj) calculus_key (calculus_ledger_new o') qs) \<longleftrightarrow>
    (\<exists>r. calculus_receipt E (snd (consume_all (calculus_consume E wj rj) (calculus_ledger_new o') qs)) d = Ok (Some r) \<and>
       cr_decision r = d \<and> use_receipt_verify E r = Ok ()))"
proof -
  let ?l = "snd (consume_all (calculus_consume E wj rj) (calculus_ledger_new o') qs)"
  have v: "calculus_ledger_verify E ?l = Inr ()"
    by (rule consume_all_invariant [of "\<lambda>l. calculus_ledger_verify E l = Inr ()"])
      (simp_all add: ledger_verify_step ledger_verify_new)
  have "calculus_spent ?l = set (granted (calculus_consume E wj rj) calculus_key (calculus_ledger_new o') qs)"
    using calc.consume_all_spent [of E wj rj "calculus_ledger_new o'" qs] ledger_new_spent by simp
  moreover have "d \<in> calculus_spent ?l \<longleftrightarrow> (\<exists>r. bt_get (cl_consumed ?l) d = Some r)"
    by (auto simp: calculus_spent_def)
  moreover have "cr_decision r = d \<and> use_receipt_verify E r = Inr ()"
    if "bt_get (cl_consumed ?l) d = Some r" for r
    using v map_of_SomeD [OF that] unfolding ledger_verify_iff by auto
  ultimately show ?thesis using v by (auto simp: calculus_receipt_def)
qed

end
