(* ===== verification/AG_Session.thy ===== *)
theory AG_Session
  imports AG_Capability
begin

text \<open>
  \<open>crates/ag-session/src/lib.rs\<close>: batch worker sessions.  The immutable session specification
  and its validation, candidate and provider custody, the durable worker record with its
  lifecycle events, and the coarse session state machine.

  \<open>principal.id()\<close> panics when the canonical printer fails; a panic inside a validation is the
  error value \<open>SePanic\<close>, which no handler of the code produces or catches.
\<close>

section \<open>Specification data\<close>

definition session_schema :: string where "session_schema = ''ag.session/v1''"
definition worker_session_record_schema :: string where
  "worker_session_record_schema = ''ag.worker-session-record/v1''"

datatype security_profile = Development | Production | HighAssurance

definition security_profile_identity :: "env \<Rightarrow> security_profile \<Rightarrow> digest" where
  "security_profile_identity E p =
     hash_domain E ''ag-ng/worker-security-profile/v1''
       (case p of Development \<Rightarrow> ''development'' | Production \<Rightarrow> ''production''
        | HighAssurance \<Rightarrow> ''high_assurance'')"

record isolation_evidence =
  is_user_namespace :: digest
  is_mount_namespace :: digest
  is_pid_namespace :: digest
  is_cgroup :: digest
  is_seccomp_profile :: digest
  is_landlock_ruleset :: digest
  is_network_namespace :: digest
  is_observed_uid :: u32
  is_observed_gid :: u32
  is_observed_pid :: u32
  is_observed_executable :: executable_identity

record worker_binding =
  wb_principal :: worker_session_principal
  wb_principal_chain :: principal_chain
  wb_isolation :: isolation_evidence

datatype descriptor_purpose =
    PurposeSourceSnapshot
  | PurposeArtifactSink
  | PurposeCandidateIngressCredential
  | PurposeCandidateChallenge
  | PurposeCandidateSink
  | PurposeProviderRequest
  | PurposeProviderResponse
  | PurposeStatusSink

datatype descriptor_access = ReadOnly | WriteOnly

record admitted_descriptor =
  ad_descriptor :: u32
  ad_purpose :: descriptor_purpose
  ad_access :: descriptor_access
  ad_object_identity :: digest

record source_snapshot =
  ss_content :: digest
  ss_format :: string
  ss_source_object :: "string option"

datatype workspace_mode = IndependentRepository | IndependentSnapshot

record workspace_delta =
  wd_base :: digest
  wd_manifest :: digest
  wd_content :: digest

record batch_session_spec =
  bs_schema :: string
  bs_session :: session_id
  bs_authority_domain :: authority_domain_id
  bs_epoch :: epoch_id
  bs_security_profile :: security_profile
  bs_reviewed_profile_id :: string
  bs_candidate_ingress_key_identity :: digest
  bs_worker :: worker_binding
  bs_workspace_mode :: workspace_mode
  bs_proposal_workspace_identity :: digest
  bs_source :: source_snapshot
  bs_admitted_descriptors :: "admitted_descriptor list"
  bs_provider_capability :: "inference_capability option"
  bs_deadline_unix_ms :: u64
  bs_output_budget_bytes :: u64

section \<open>Session lifecycle\<close>

datatype session_state =
    SessionCreated
  | SessionRunning digest
  | SessionCompleted digest
  | SessionFailed digest
  | SessionTerminated digest
  | SessionIndeterminate digest

datatype session_event =
    EvLaunched digest
  | EvWorkerCompleted digest
  | EvWorkerFailed digest
  | EvTerminate digest
  | EvBoundaryIndeterminate digest

datatype session_error =
    SeUnknownSchema string
  | SeInvalidReviewedProfileId
  | SeUnknownWorkerRecordSchema string
  | SeInvalidDescriptorManifest
  | SeCapabilityContextMismatch
  | SeProviderCapabilityDefinition capability_definition_error
  | SeProviderRouteMismatch
  | SePrincipalAuthorityDomainMismatch
  | SePrincipalEpochMismatch
  | SePrincipalSessionMismatch
  | SePrincipalWorkspaceMismatch
  | SePrincipalSecurityProfileMismatch
  | SePrincipalCandidateIngressKeyIdentityMismatch
  | SePrincipalExecutableMismatch
  | SePrincipalUidMismatch
  | SePrincipalGidMismatch
  | SePrincipalPidMismatch
  | SePrincipalExpiryMismatch
  | SePrincipalOutputBudgetMismatch
  | SePrincipalChainMismatch
  | SeCustodyBinding jcs_error
  | SeCustodyMismatch
  | SeProductionIsolationIncomplete
  | SeInvalidCandidateSemanticType
  | SeCandidateCustodyBinding jcs_error
  | SeCandidateCustodyMismatch
  | SeCandidateBudgetExceeded
  | SeCandidateRequiresTombstone
  | SeCandidateBrokerOutcomeConflict
  | SeTombstoneBindingMismatch
  | SePrincipalNotActive
  | SePrincipalTombstoned
  | SePrincipalExpired
  | SeIngressAuthorityDomainMismatch
  | SeIngressEpochMismatch
  | SeIngressPrincipalMismatch
  | SeIngressSessionMismatch
  | SeIngressWorkspaceMismatch
  | SeIngressSecurityProfileMismatch
  | SeIngressExecutableMismatch
  | SeIngressUidMismatch
  | SeIngressGidMismatch
  | SeInvalidWorkerTransition
  | SeInvalidTransition session_state session_event
  | SePanic

fun session_apply :: "session_state \<Rightarrow> session_event \<Rightarrow> session_error + session_state" where
  "session_apply SessionCreated (EvLaunched r) = Ok (SessionRunning r)"
| "session_apply (SessionRunning _) (EvWorkerCompleted r) = Ok (SessionCompleted r)"
| "session_apply (SessionRunning _) (EvWorkerFailed f) = Ok (SessionFailed f)"
| "session_apply SessionCreated (EvTerminate r) = Ok (SessionTerminated r)"
| "session_apply (SessionRunning _) (EvTerminate r) = Ok (SessionTerminated r)"
| "session_apply (SessionRunning _) (EvBoundaryIndeterminate e) = Ok (SessionIndeterminate e)"
| "session_apply s e = Err (SeInvalidTransition s e)"

section \<open>Validation of a specification\<close>

definition valid_reviewed_profile_id :: "string \<Rightarrow> bool" where
  "valid_reviewed_profile_id v \<longleftrightarrow>
     v \<noteq> [] \<and> length v \<le> 128 \<and> list_all (\<lambda>c. is_ascii_alphanumeric c \<or> c \<in> set ''._-'') v"

fun expected_access :: "descriptor_purpose \<Rightarrow> descriptor_access" where
  "expected_access PurposeSourceSnapshot = ReadOnly"
| "expected_access PurposeCandidateIngressCredential = ReadOnly"
| "expected_access PurposeCandidateChallenge = ReadOnly"
| "expected_access PurposeProviderResponse = ReadOnly"
| "expected_access PurposeArtifactSink = WriteOnly"
| "expected_access PurposeCandidateSink = WriteOnly"
| "expected_access PurposeProviderRequest = WriteOnly"
| "expected_access PurposeStatusSink = WriteOnly"

fun validate_descriptors :: "u32 list \<Rightarrow> descriptor_purpose list \<Rightarrow> admitted_descriptor list
    \<Rightarrow> session_error + descriptor_purpose list" where
  "validate_descriptors numbers purposes [] = Ok purposes"
| "validate_descriptors numbers purposes (d # ds) =
     (let stdout_sink = ad_descriptor d = 1 \<and> ad_purpose d = PurposeCandidateSink \<and> ad_access d = WriteOnly in
      if (ad_descriptor d \<le> 2 \<and> \<not> stdout_sink) \<or> ad_descriptor d \<in> set numbers \<or> ad_purpose d \<in> set purposes
      then Err SeInvalidDescriptorManifest
      else if ad_access d \<noteq> expected_access (ad_purpose d) then Err SeInvalidDescriptorManifest
      else validate_descriptors (ad_descriptor d # numbers) (ad_purpose d # purposes) ds)"

definition worker_principal_id :: "env \<Rightarrow> worker_session_principal \<Rightarrow> session_error + principal_id" where
  "worker_principal_id E p = ok_or SePanic (principal_id_of E (WorkerSession p))"

definition validate_principal_binding :: "env \<Rightarrow> batch_session_spec \<Rightarrow> session_error + unit" where
  "validate_principal_binding E s =
     (let p = wb_principal (bs_worker s); iso = wb_isolation (bs_worker s) in
      if wp_authority_domain p \<noteq> bs_authority_domain s then Err SePrincipalAuthorityDomainMismatch
      else if wp_epoch p \<noteq> bs_epoch s then Err SePrincipalEpochMismatch
      else if wp_session_id p \<noteq> bs_session s then Err SePrincipalSessionMismatch
      else if wp_proposal_workspace_identity p \<noteq> bs_proposal_workspace_identity s
        then Err SePrincipalWorkspaceMismatch
      else if wp_security_profile_identity p \<noteq> security_profile_identity E (bs_security_profile s)
        then Err SePrincipalSecurityProfileMismatch
      else if wp_candidate_ingress_key_identity p \<noteq> bs_candidate_ingress_key_identity s
        then Err SePrincipalCandidateIngressKeyIdentityMismatch
      else if wp_executable p \<noteq> is_observed_executable iso then Err SePrincipalExecutableMismatch
      else if hc_uid (wp_observed_credentials p) \<noteq> is_observed_uid iso then Err SePrincipalUidMismatch
      else if hc_gid (wp_observed_credentials p) \<noteq> is_observed_gid iso then Err SePrincipalGidMismatch
      else if hc_pid (wp_observed_credentials p) \<noteq> is_observed_pid iso then Err SePrincipalPidMismatch
      else if wp_expires_at_unix_ms p \<noteq> bs_deadline_unix_ms s then Err SePrincipalExpiryMismatch
      else if wp_output_budget_bytes p \<noteq> bs_output_budget_bytes s \<or> bs_output_budget_bytes s = 0
        then Err SePrincipalOutputBudgetMismatch
      else
        let chain = wb_principal_chain (bs_worker s); nodes = pc_nodes chain; leaf = chain_leaf chain;
            parent = (if length nodes - 2 < length nodes then Some (nodes ! (length nodes - 2)) else None) in
        if pc_authority_domain chain \<noteq> bs_authority_domain s \<or> pc_epoch chain \<noteq> bs_epoch s
          \<or> cn_kind leaf \<noteq> KWorkerSession then Err SePrincipalChainMismatch
        else res_bind (worker_principal_id E p) (\<lambda>pid.
          if cn_principal_id leaf \<noteq> pid \<or> cn_parent leaf \<noteq> Some (wp_launcher p)
            \<or> map_option cn_principal_id parent \<noteq> Some (wp_launcher p)
          then Err SePrincipalChainMismatch else Ok ()))"

definition validate_provider_route :: "env \<Rightarrow> batch_session_spec \<Rightarrow> descriptor_purpose list
    \<Rightarrow> session_error + unit" where
  "validate_provider_route E s purposes =
     (let p = wb_principal (bs_worker s);
          has_request = PurposeProviderRequest \<in> set purposes;
          has_response = PurposeProviderResponse \<in> set purposes in
      case (wp_provider_route p, bs_provider_capability s) of
        (RouteOffline, None) \<Rightarrow>
          if \<not> has_request \<and> \<not> has_response then Ok () else Err SeProviderRouteMismatch
      | (RouteConstrained policy envelope budget, Some c) \<Rightarrow>
          if has_request \<and> has_response then
            res_bind (map_err SeProviderCapabilityDefinition (validate_definition c)) (\<lambda>_.
              if ca_session_id c \<noteq> bs_session s \<or> ca_authority_domain c \<noteq> bs_authority_domain s
                \<or> ca_epoch c \<noteq> bs_epoch s \<or> ca_project c \<noteq> wp_project p
              then Err SeCapabilityContextMismatch
              else res_bind (worker_principal_id E p) (\<lambda>pid.
                if ca_worker_principal c \<noteq> pid \<or> ca_session_nonce c \<noteq> wp_session_nonce p
                  \<or> ca_provider_policy_digest c \<noteq> policy \<or> ca_envelope c \<noteq> envelope
                  \<or> ca_budget c \<noteq> budget \<or> ca_expires_at_unix_ms c > wp_expires_at_unix_ms p
                then Err SeCapabilityContextMismatch else Ok ()))
          else Err SeProviderRouteMismatch
      | _ \<Rightarrow> Err SeProviderRouteMismatch)"

definition spec_validate :: "env \<Rightarrow> batch_session_spec \<Rightarrow> session_error + unit" where
  "spec_validate E s =
     (if bs_schema s \<noteq> session_schema then Err (SeUnknownSchema (bs_schema s))
      else if \<not> valid_reviewed_profile_id (bs_reviewed_profile_id s) then Err SeInvalidReviewedProfileId
      else
        res_bind (validate_descriptors [] [] (bs_admitted_descriptors s)) (\<lambda>purposes.
        res_bind (validate_principal_binding E s) (\<lambda>_.
        res_bind (validate_provider_route E s purposes) (\<lambda>_.
          if (bs_security_profile s = Production \<or> bs_security_profile s = HighAssurance) \<and>
            (is_observed_uid (wb_isolation (bs_worker s)) = 0
             \<or> is_observed_gid (wb_isolation (bs_worker s)) = 0 \<or> bs_deadline_unix_ms s = 0)
          then Err SeProductionIsolationIncomplete else Ok ()))))"

section \<open>Lemmas on the session state machine\<close>

fun session_terminal :: "session_state \<Rightarrow> bool" where
  "session_terminal SessionCreated = False"
| "session_terminal (SessionRunning _) = False"
| "session_terminal _ = True"

fun session_rank :: "session_state \<Rightarrow> nat" where
  "session_rank SessionCreated = 0"
| "session_rank (SessionRunning _) = 1"
| "session_rank _ = 2"

fun_cases session_apply_OkE: "session_apply s e = Inr t"

interpretation session: ranked_lifecycle session_apply session_terminal session_rank 2
proof unfold_locales
  show "session_terminal s \<Longrightarrow> \<not> is_ok (session_apply s e)" for s e
    by (cases s; cases e) simp_all
  show "session_apply s e = Inr s' \<Longrightarrow> session_rank s < session_rank s'" for s e s'
    by (erule session_apply_OkE) simp_all
  show "session_rank s \<le> 2" for s
    by (cases s) simp_all
qed

section \<open>Properties\<close>

text \<open>
  C32: a batch session takes at most two steps and then stays put.  Every accepted event sequence
  has length at most two; whatever follows a terminal state is refused; and a session ends
  completed, failed or indeterminate only after it was launched.
\<close>

theorem session_lifecycle_final:
  assumes "run_events session_apply SessionCreated es = Ok t"
  shows "length es \<le> 2 \<and>
    (session_terminal t \<longrightarrow> \<not> is_ok (session_apply t e)) \<and>
    (\<forall>d. t = SessionCompleted d \<or> t = SessionFailed d \<or> t = SessionIndeterminate d \<longrightarrow>
       (\<exists>r. hd es = EvLaunched r))"
proof -
  have "\<exists>r. hd es = EvLaunched r"
    if "t = SessionCompleted d \<or> t = SessionFailed d \<or> t = SessionIndeterminate d" for d
  proof (cases es)
    case Nil
    with assms that show ?thesis by auto
  next
    case (Cons e' es')
    with assms obtain s where s: "session_apply SessionCreated e' = Inr s"
      and run: "run_events session_apply s es' = Inr t" by (auto simp: ag_check)
    show ?thesis
    proof (cases "\<exists>r. e' = EvLaunched r")
      case True
      with Cons show ?thesis by simp
    next
      case False
      with s have "\<exists>r. s = SessionTerminated r" by (cases e') auto
      with session.terminal_run_empty [OF _ run] that show ?thesis by auto
    qed
  qed
  then show ?thesis
    using session.run_length_bound [OF assms] session.terminal_stuck [of t e] by blast
qed

theorem session_lifecycle_final_witness:
  "\<not> is_ok (session_apply (SessionCompleted (Digest ''r'')) (EvTerminate (Digest ''k'')))"
  using session_lifecycle_final [of "[EvLaunched (Digest ''l''), EvWorkerCompleted (Digest ''r'')]"
      "SessionCompleted (Digest ''r'')" "EvTerminate (Digest ''k'')"]
  by simp

end
