(* ===== verification/AG_Worker.thy ===== *)
theory AG_Worker
  imports AG_Session
begin

text \<open>
  \<open>crates/ag-session/src/lib.rs\<close>, second half: candidate and provider custody, the durable
  worker record, its ingress check and its lifecycle.  \<open>worker_reachable\<close> is the set of records
  that construction and lifecycle events can produce.
\<close>

section \<open>Custody\<close>

record provider_request_custody =
  pq_capability_id :: inference_capability_id
  pq_exact_request :: digest
  pq_sanitized_headers :: "(string, string) btree_map"
  pq_envelope :: inference_envelope
  pq_custody_record :: digest

record provider_response_custody =
  ps_request_custody :: digest
  ps_complete_event_stream :: digest
  ps_custody_record :: digest
  ps_protocol_terminal :: bool

datatype provider_custody =
    ExactReplayable provider_request_custody provider_response_custody
  | DigestOnlyWeak digest digest

fun is_replayable :: "provider_custody \<Rightarrow> bool" where
  "is_replayable (ExactReplayable _ _) = True"
| "is_replayable (DigestOnlyWeak _ _) = False"

definition request_binding_json :: "provider_request_custody \<Rightarrow> json" where
  "request_binding_json q = JObj
     [(''capability_id'', digest_json (capability_digest (pq_capability_id q))),
      (''exact_request'', digest_json (pq_exact_request q)),
      (''sanitized_headers'', JObj (map (\<lambda>(k, v). (k, JStr v)) (pq_sanitized_headers q))),
      (''envelope'', envelope_json (pq_envelope q))]"

definition request_custody_verify :: "env \<Rightarrow> provider_request_custody \<Rightarrow> session_error + unit" where
  "request_custody_verify E q =
     res_bind (map_err SeCustodyBinding (from_serializable E (request_binding_json q))) (\<lambda>observed.
       if observed \<noteq> pq_custody_record q then Err SeCustodyMismatch else Ok ())"

record worker_candidate_custody =
  wc_content :: digest
  wc_byte_length :: u64
  wc_semantic_type :: string
  wc_workspace_delta :: "workspace_delta option"
  wc_ingress_proof :: digest
  wc_custody_record :: digest

definition validate_candidate_semantic_type :: "string \<Rightarrow> session_error + unit" where
  "validate_candidate_semantic_type v =
     (if v = [] \<or> length v > 128
        \<or> \<not> list_all (\<lambda>c. is_ascii_lowercase c \<or> is_ascii_digit c \<or> c \<in> set ''.-_/'') v
      then Err SeInvalidCandidateSemanticType else Ok ())"

definition workspace_delta_json :: "workspace_delta \<Rightarrow> json" where
  "workspace_delta_json d = JObj
     [(''base'', digest_json (wd_base d)), (''manifest'', digest_json (wd_manifest d)),
      (''content'', digest_json (wd_content d))]"

definition candidate_custody_digest :: "env \<Rightarrow> digest \<Rightarrow> u64 \<Rightarrow> string \<Rightarrow> workspace_delta option
    \<Rightarrow> digest \<Rightarrow> session_error + digest" where
  "candidate_custody_digest E content len ty delta proof' =
     map_err SeCandidateCustodyBinding (from_serializable E (JObj
       [(''content'', digest_json content), (''byte_length'', u64_json len),
        (''semantic_type'', JStr ty),
        (''workspace_delta'', option_json workspace_delta_json delta),
        (''ingress_proof'', digest_json proof')]))"

definition candidate_new :: "env \<Rightarrow> digest \<Rightarrow> u64 \<Rightarrow> string \<Rightarrow> workspace_delta option \<Rightarrow> digest
    \<Rightarrow> session_error + worker_candidate_custody" where
  "candidate_new E content len ty delta proof' =
     res_bind (validate_candidate_semantic_type ty) (\<lambda>_.
     res_bind (candidate_custody_digest E content len ty delta proof') (\<lambda>r.
       Ok \<lparr>wc_content = content, wc_byte_length = len, wc_semantic_type = ty,
         wc_workspace_delta = delta, wc_ingress_proof = proof', wc_custody_record = r\<rparr>))"

definition candidate_verify :: "env \<Rightarrow> worker_candidate_custody \<Rightarrow> session_error + unit" where
  "candidate_verify E c =
     res_bind (validate_candidate_semantic_type (wc_semantic_type c)) (\<lambda>_.
     res_bind (candidate_custody_digest E (wc_content c) (wc_byte_length c) (wc_semantic_type c)
       (wc_workspace_delta c) (wc_ingress_proof c)) (\<lambda>observed.
       if observed \<noteq> wc_custody_record c then Err SeCandidateCustodyMismatch else Ok ()))"

section \<open>The durable worker record\<close>

datatype broker_outcome =
    Canonicalized digest
  | BrokerRefused digest
  | BrokerIndeterminate digest

datatype candidate_custody_state =
    Awaiting
  | InCustody worker_candidate_custody
  | BrokerCompleted worker_candidate_custody broker_outcome

datatype candidate_refusal_code =
    MalformedFrame
  | AuthenticationFailed
  | PrincipalBindingMismatch
  | ReviewedProfileMismatch
  | CandidateExpired

datatype termination_reason =
    CandidateAccepted
  | CandidateRefused candidate_refusal_code
  | LaunchFailed digest
  | WorkerFailed digest
  | DeadlineExpired
  | OutputBudgetExceeded u64
  | Cancelled digest
  | RestartRecovery
  | TerminationBoundaryIndeterminate digest

record principal_tombstone =
  tb_principal_id :: principal_id
  tb_session_id :: session_id
  tb_session_nonce :: lifecycle_nonce
  tb_reason :: termination_reason
  tb_terminal_since_unix_ms :: u64

datatype cleanup_state = CleanupPending | CleanupComplete digest u64

datatype authority_state =
    Prepared
  | Active digest
  | Tombstoned "digest option" principal_tombstone cleanup_state

datatype worker_event =
    Activate digest
  | Tombstone principal_tombstone
  | AcceptCandidate worker_candidate_custody principal_tombstone
  | CompleteCleanup digest u64
  | RecordBrokerOutcome broker_outcome

record worker_ingress_context =
  ic_authority_domain :: authority_domain_id
  ic_epoch :: epoch_id
  ic_principal_id :: principal_id
  ic_session_id :: session_id
  ic_proposal_workspace_identity :: digest
  ic_security_profile_identity :: digest
  ic_executable :: executable_identity
  ic_observed_uid :: u32
  ic_observed_gid :: u32
  ic_now_unix_ms :: u64

record worker_session_record =
  wr_schema :: string
  wr_spec :: batch_session_spec
  wr_authority :: authority_state
  wr_candidate :: candidate_custody_state

definition validate_tombstone :: "env \<Rightarrow> worker_session_record \<Rightarrow> principal_tombstone
    \<Rightarrow> session_error + unit" where
  "validate_tombstone E r t =
     (let p = wb_principal (bs_worker (wr_spec r)) in
      res_bind (worker_principal_id E p) (\<lambda>pid.
        if tb_principal_id t \<noteq> pid \<or> tb_session_id t \<noteq> bs_session (wr_spec r)
          \<or> tb_session_nonce t \<noteq> wp_session_nonce p
        then Err SeTombstoneBindingMismatch else Ok ()))"

fun custody_of :: "candidate_custody_state \<Rightarrow> worker_candidate_custody option" where
  "custody_of Awaiting = None"
| "custody_of (InCustody c) = Some c"
| "custody_of (BrokerCompleted c _) = Some c"

definition record_validate :: "env \<Rightarrow> worker_session_record \<Rightarrow> session_error + unit" where
  "record_validate E r =
     (if wr_schema r \<noteq> worker_session_record_schema then Err (SeUnknownWorkerRecordSchema (wr_schema r))
      else res_bind (spec_validate E (wr_spec r)) (\<lambda>_.
        res_bind (case wr_authority r of
            Tombstoned _ t _ \<Rightarrow> validate_tombstone E r t
          | _ \<Rightarrow> Ok ()) (\<lambda>_.
        case custody_of (wr_candidate r) of
          None \<Rightarrow> Ok ()
        | Some c \<Rightarrow>
            res_bind (candidate_verify E c) (\<lambda>_.
              if wc_byte_length c > bs_output_budget_bytes (wr_spec r) then Err SeCandidateBudgetExceeded
              else case wr_authority r of
                  Tombstoned (Some _) t _ \<Rightarrow>
                    if tb_reason t \<noteq> CandidateAccepted then Err SeCandidateRequiresTombstone else Ok ()
                | _ \<Rightarrow> Err SeCandidateRequiresTombstone))))"

definition record_new :: "env \<Rightarrow> batch_session_spec \<Rightarrow> session_error + worker_session_record" where
  "record_new E s =
     (let r = \<lparr>wr_schema = worker_session_record_schema, wr_spec = s, wr_authority = Prepared,
        wr_candidate = Awaiting\<rparr>
      in res_bind (record_validate E r) (\<lambda>_. Ok r))"

definition validate_active_ingress :: "env \<Rightarrow> worker_session_record \<Rightarrow> worker_ingress_context
    \<Rightarrow> session_error + unit" where
  "validate_active_ingress E r x =
     res_bind (record_validate E r) (\<lambda>_.
       case wr_authority r of
         Prepared \<Rightarrow> Err SePrincipalNotActive
       | Tombstoned _ _ _ \<Rightarrow> Err SePrincipalTombstoned
       | Active _ \<Rightarrow>
           (let s = wr_spec r; p = wb_principal (bs_worker s) in
            if ic_authority_domain x \<noteq> bs_authority_domain s then Err SeIngressAuthorityDomainMismatch
            else if ic_epoch x \<noteq> bs_epoch s then Err SeIngressEpochMismatch
            else res_bind (worker_principal_id E p) (\<lambda>pid.
              if ic_principal_id x \<noteq> pid then Err SeIngressPrincipalMismatch
              else if ic_session_id x \<noteq> bs_session s then Err SeIngressSessionMismatch
              else if ic_proposal_workspace_identity x \<noteq> wp_proposal_workspace_identity p
                then Err SeIngressWorkspaceMismatch
              else if ic_security_profile_identity x \<noteq> wp_security_profile_identity p
                then Err SeIngressSecurityProfileMismatch
              else if ic_executable x \<noteq> wp_executable p then Err SeIngressExecutableMismatch
              else if ic_observed_uid x \<noteq> hc_uid (wp_observed_credentials p) then Err SeIngressUidMismatch
              else if ic_observed_gid x \<noteq> hc_gid (wp_observed_credentials p) then Err SeIngressGidMismatch
              else if ic_now_unix_ms x \<ge> wp_expires_at_unix_ms p then Err SePrincipalExpired
              else Ok ())))"

text \<open>The match of \<open>apply\<close>, before its final revalidation.\<close>

fun worker_transition :: "env \<Rightarrow> worker_session_record \<Rightarrow> worker_event
    \<Rightarrow> session_error + worker_session_record" where
  "worker_transition E r (Activate receipt) =
     (if wr_authority r = Prepared then Ok (r\<lparr>wr_authority := Active receipt\<rparr>)
      else Err SeInvalidWorkerTransition)"
| "worker_transition E r (Tombstone t) =
     res_bind (case wr_authority r of
         Prepared \<Rightarrow> Ok None
       | Active receipt \<Rightarrow> Ok (Some receipt)
       | Tombstoned _ _ _ \<Rightarrow> Err SeInvalidWorkerTransition) (\<lambda>receipt.
     res_bind (validate_tombstone E r t) (\<lambda>_.
       Ok (r\<lparr>wr_authority := Tombstoned receipt t CleanupPending\<rparr>)))"
| "worker_transition E r (AcceptCandidate c t) =
     (case wr_authority r of
        Active receipt \<Rightarrow>
          if wr_candidate r \<noteq> Awaiting then Err SeInvalidWorkerTransition
          else res_bind (candidate_verify E c) (\<lambda>_.
            if wc_byte_length c > bs_output_budget_bytes (wr_spec r) then Err SeCandidateBudgetExceeded
            else res_bind (validate_tombstone E r t) (\<lambda>_.
              if tb_reason t \<noteq> CandidateAccepted then Err SeCandidateRequiresTombstone
              else Ok (r\<lparr>wr_authority := Tombstoned (Some receipt) t CleanupPending,
                wr_candidate := InCustody c\<rparr>)))
      | _ \<Rightarrow> Err SeInvalidWorkerTransition)"
| "worker_transition E r (CompleteCleanup receipt now) =
     (case wr_authority r of
        Tombstoned l t CleanupPending \<Rightarrow>
          Ok (r\<lparr>wr_authority := Tombstoned l t (CleanupComplete receipt now)\<rparr>)
      | _ \<Rightarrow> Err SeInvalidWorkerTransition)"
| "worker_transition E r (RecordBrokerOutcome outcome) =
     (case wr_candidate r of
        InCustody c \<Rightarrow> Ok (r\<lparr>wr_candidate := BrokerCompleted c outcome\<rparr>)
      | BrokerCompleted c existing \<Rightarrow>
          if existing = outcome then Ok r else Err SeCandidateBrokerOutcomeConflict
      | Awaiting \<Rightarrow> Err SeInvalidWorkerTransition)"

definition worker_apply :: "env \<Rightarrow> worker_session_record \<Rightarrow> worker_event
    \<Rightarrow> session_error + worker_session_record" where
  "worker_apply E r e =
     res_bind (worker_transition E r e) (\<lambda>r'. res_bind (record_validate E r') (\<lambda>_. Ok r'))"

inductive worker_reachable :: "env \<Rightarrow> worker_session_record \<Rightarrow> bool" for E where
  created: "record_new E s = Inr r \<Longrightarrow> worker_reachable E r"
| applied: "worker_reachable E r \<Longrightarrow> worker_apply E r e = Inr r' \<Longrightarrow> worker_reachable E r'"

section \<open>Lemmas\<close>

inductive_cases worker_reachableE: "worker_reachable E r"

lemma worker_apply_iff:
  "worker_apply E r e = Inr r' \<longleftrightarrow> worker_transition E r e = Inr r' \<and> record_validate E r' = Inr ()"
  by (auto simp: worker_apply_def ag_check)

lemma worker_transition_frame:
  "worker_transition E r e = Inr r' \<Longrightarrow> wr_spec r' = wr_spec r \<and> wr_schema r' = wr_schema r"
  by (cases e) (auto simp: ag_check split: authority_state.splits cleanup_state.splits
      candidate_custody_state.splits if_splits)

lemma worker_transition_authority:
  assumes "worker_transition E r e = Inr r'" and "wr_authority r = Tombstoned l t c"
  shows "(\<exists>c'. wr_authority r' = Tombstoned l t c') \<and>
    custody_of (wr_candidate r') = custody_of (wr_candidate r)"
  using assms by (cases e) (auto simp: ag_check split: cleanup_state.splits
      candidate_custody_state.splits if_splits)

lemma validate_active_ingress_iff:
  "validate_active_ingress E r x = Inr () \<longleftrightarrow>
     record_validate E r = Inr () \<and> (\<exists>l. wr_authority r = Active l) \<and>
     ic_authority_domain x = bs_authority_domain (wr_spec r) \<and> ic_epoch x = bs_epoch (wr_spec r) \<and>
     worker_principal_id E (wb_principal (bs_worker (wr_spec r))) = Inr (ic_principal_id x) \<and>
     ic_session_id x = bs_session (wr_spec r) \<and>
     ic_proposal_workspace_identity x = wp_proposal_workspace_identity (wb_principal (bs_worker (wr_spec r))) \<and>
     ic_security_profile_identity x = wp_security_profile_identity (wb_principal (bs_worker (wr_spec r))) \<and>
     ic_executable x = wp_executable (wb_principal (bs_worker (wr_spec r))) \<and>
     ic_observed_uid x = hc_uid (wp_observed_credentials (wb_principal (bs_worker (wr_spec r)))) \<and>
     ic_observed_gid x = hc_gid (wp_observed_credentials (wb_principal (bs_worker (wr_spec r)))) \<and>
     ic_now_unix_ms x < wp_expires_at_unix_ms (wb_principal (bs_worker (wr_spec r)))"
  by (cases "wr_authority r")
    (auto simp: validate_active_ingress_def Let_def res_bind_Inr_iff guard_Inr_iff not_le)

lemma record_validate_custody:
  assumes "record_validate E r = Inr ()" and "custody_of (wr_candidate r) = Some c"
  shows "\<exists>l t k. wr_authority r = Tombstoned (Some l) t k \<and> tb_reason t = CandidateAccepted \<and>
    candidate_verify E c = Inr () \<and> unat (wc_byte_length c) \<le> unat (bs_output_budget_bytes (wr_spec r))"
  using assms by (auto simp: record_validate_def ag_check word_le_nat_alt [symmetric] not_less
      split: authority_state.splits option.splits if_splits)

lemma worker_reachable_valid: "worker_reachable E r \<Longrightarrow> record_validate E r = Inr ()"
  by (induction rule: worker_reachable.induct)
    (auto simp: record_new_def worker_apply_iff ag_check Let_def)

subsection \<open>What a run of events accepts and records\<close>

fun accepted_candidates :: "worker_event list \<Rightarrow> worker_candidate_custody list" where
  "accepted_candidates [] = []"
| "accepted_candidates (AcceptCandidate c t # es) = c # accepted_candidates es"
| "accepted_candidates (_ # es) = accepted_candidates es"

fun recorded_outcomes :: "worker_event list \<Rightarrow> broker_outcome list" where
  "recorded_outcomes [] = []"
| "recorded_outcomes (RecordBrokerOutcome x # es) = x # recorded_outcomes es"
| "recorded_outcomes (_ # es) = recorded_outcomes es"

fun outcome_of :: "candidate_custody_state \<Rightarrow> broker_outcome option" where
  "outcome_of (BrokerCompleted c x) = Some x"
| "outcome_of _ = None"

lemma worker_transition_custody:
  "worker_transition E r e = Inr r' \<Longrightarrow>
     (\<exists>c t. e = AcceptCandidate c t \<and> custody_of (wr_candidate r) = None \<and>
        custody_of (wr_candidate r') = Some c \<and> outcome_of (wr_candidate r') = None) \<or>
     (\<exists>x. e = RecordBrokerOutcome x \<and> outcome_of (wr_candidate r') = Some x \<and>
        custody_of (wr_candidate r') = custody_of (wr_candidate r) \<and> custody_of (wr_candidate r) \<noteq> None \<and>
        (outcome_of (wr_candidate r) = None \<or> outcome_of (wr_candidate r) = Some x)) \<or>
     (accepted_candidates [e] = [] \<and> recorded_outcomes [e] = [] \<and> wr_candidate r' = wr_candidate r)"
  by (cases e) (auto simp: ag_check split: authority_state.splits cleanup_state.splits
      candidate_custody_state.splits if_splits)

lemma accepted_Cons: "accepted_candidates (e # es) = accepted_candidates [e] @ accepted_candidates es"
  by (cases e) simp_all

lemma recorded_Cons: "recorded_outcomes (e # es) = recorded_outcomes [e] @ recorded_outcomes es"
  by (cases e) simp_all

lemma run_custody:
  assumes "run_events (worker_apply E) r es = Inr r'"
  shows "accepted_candidates es = (if custody_of (wr_candidate r) = None
      then (case custody_of (wr_candidate r') of None \<Rightarrow> [] | Some c \<Rightarrow> [c]) else []) \<and>
    (custody_of (wr_candidate r) \<noteq> None \<longrightarrow> custody_of (wr_candidate r') = custody_of (wr_candidate r)) \<and>
    (outcome_of (wr_candidate r) \<noteq> None \<longrightarrow> outcome_of (wr_candidate r') = outcome_of (wr_candidate r)) \<and>
    set (recorded_outcomes es) \<subseteq> set_option (outcome_of (wr_candidate r')) \<and>
    (outcome_of (wr_candidate r) = None \<longrightarrow>
       set (recorded_outcomes es) = set_option (outcome_of (wr_candidate r')))"
  using assms
proof (induction es arbitrary: r)
  case Nil
  then show ?case by (cases "custody_of (wr_candidate r')") auto
next
  case (Cons e es)
  then obtain s where s: "worker_transition E r e = Inr s"
    and run: "run_events (worker_apply E) s es = Inr r'"
    by (auto simp: ag_check worker_apply_iff)
  note IH = Cons.IH [OF run]
  from worker_transition_custody [OF s] consider
      (accept) c t where "e = AcceptCandidate c t" "custody_of (wr_candidate r) = None"
        "custody_of (wr_candidate s) = Some c" "outcome_of (wr_candidate s) = None"
    | (broker) x where "e = RecordBrokerOutcome x" "outcome_of (wr_candidate s) = Some x"
        "custody_of (wr_candidate s) = custody_of (wr_candidate r)" "custody_of (wr_candidate r) \<noteq> None"
        "outcome_of (wr_candidate r) = None \<or> outcome_of (wr_candidate r) = Some x"
    | (other) "accepted_candidates [e] = []" "recorded_outcomes [e] = []" "wr_candidate s = wr_candidate r"
    by blast
  then show ?case
  proof cases
    case accept
    then have "outcome_of (wr_candidate r) = None" by (cases "wr_candidate r") simp_all
    with accept IH show ?thesis by auto
  next
    case broker
    with IH show ?thesis by auto
  next
    case other
    with IH show ?thesis by (simp only: accepted_Cons [of e es] recorded_Cons [of e es]) simp
  qed
qed

lemma run_tombstoned:
  assumes "run_events (worker_apply E) r es = Inr r'" and "wr_authority r = Tombstoned l t c"
  shows "(\<exists>c'. wr_authority r' = Tombstoned l t c') \<and>
    custody_of (wr_candidate r') = custody_of (wr_candidate r)"
  using assms
proof (induction es arbitrary: r c)
  case Nil
  then show ?case by simp
next
  case (Cons e es)
  then obtain s where s: "worker_transition E r e = Inr s"
    and run: "run_events (worker_apply E) s es = Inr r'"
    by (auto simp: ag_check worker_apply_iff)
  with worker_transition_authority [OF s Cons.prems(2)] Cons.IH [OF run] show ?case by auto
qed

lemma run_frame:
  "run_events (worker_apply E) r es = Inr r' \<Longrightarrow> wr_spec r' = wr_spec r"
proof (induction es arbitrary: r)
  case Nil
  then show ?case by simp
next
  case (Cons e es)
  then show ?case by (auto simp: ag_check worker_apply_iff dest: worker_transition_frame)
qed

subsection \<open>A concrete worker record\<close>

definition sample_principal :: worker_session_principal where
  "sample_principal = \<lparr>wp_authority_domain = AuthorityDomainId ''prod'', wp_epoch = EpochId 3,
     wp_project = ProjectId ''p'', wp_session_id = SessionId ''s'',
     wp_session_nonce = LifecycleNonce (replicate 16 (CHR ''n'')), wp_launcher = PrincipalId (Digest ''l''),
     wp_executable = \<lparr>xi_sha256 = Digest ''x'', xi_size = 1, xi_build_identity = None\<rparr>,
     wp_launch_profile = \<lparr>lp_profile_digest = Digest ''f'', lp_protocol_schema_digest = Digest ''g''\<rparr>,
     wp_proposal_workspace_identity = Digest ''w'',
     wp_security_profile_identity = security_profile_identity sample_env Development,
     wp_candidate_ingress_key_identity = Digest ''k'', wp_expires_at_unix_ms = 9,
     wp_output_budget_bytes = 8, wp_provider_route = RouteOffline, wp_input_set_digest = Digest ''i'',
     wp_observed_credentials = \<lparr>hc_uid = 5, hc_gid = 5, hc_pid = 5, hc_cgroup = CgroupIdentity ''c''\<rparr>\<rparr>"

definition sample_pid :: principal_id where
  "sample_pid = the (principal_id_of sample_env (WorkerSession sample_principal))"

definition sample_spec :: batch_session_spec where
  "sample_spec = \<lparr>bs_schema = session_schema, bs_session = SessionId ''s'',
     bs_authority_domain = AuthorityDomainId ''prod'', bs_epoch = EpochId 3,
     bs_security_profile = Development, bs_reviewed_profile_id = ''r'',
     bs_candidate_ingress_key_identity = Digest ''k'',
     bs_worker = \<lparr>wb_principal = sample_principal,
       wb_principal_chain = \<lparr>pc_authority_domain = AuthorityDomainId ''prod'', pc_epoch = EpochId 3,
         pc_nodes = [chain_root_node (PrincipalId (Digest ''l'')) KDaemon,
           chain_child_node sample_pid KWorkerSession (PrincipalId (Digest ''l''))]\<rparr>,
       wb_isolation = \<lparr>is_user_namespace = Digest ''1'', is_mount_namespace = Digest ''2'',
         is_pid_namespace = Digest ''3'', is_cgroup = Digest ''4'', is_seccomp_profile = Digest ''5'',
         is_landlock_ruleset = Digest ''6'', is_network_namespace = Digest ''7'', is_observed_uid = 5,
         is_observed_gid = 5, is_observed_pid = 5,
         is_observed_executable = \<lparr>xi_sha256 = Digest ''x'', xi_size = 1, xi_build_identity = None\<rparr>\<rparr>\<rparr>,
     bs_workspace_mode = IndependentSnapshot, bs_proposal_workspace_identity = Digest ''w'',
     bs_source = \<lparr>ss_content = Digest ''c'', ss_format = ''f'', ss_source_object = None\<rparr>,
     bs_admitted_descriptors = [\<lparr>ad_descriptor = 1, ad_purpose = PurposeCandidateSink,
       ad_access = WriteOnly, ad_object_identity = Digest ''o''\<rparr>],
     bs_provider_capability = None, bs_deadline_unix_ms = 9, bs_output_budget_bytes = 8\<rparr>"

definition sample_record :: worker_session_record where
  "sample_record = \<lparr>wr_schema = worker_session_record_schema, wr_spec = sample_spec,
     wr_authority = Prepared, wr_candidate = Awaiting\<rparr>"

definition sample_tombstone :: "termination_reason \<Rightarrow> principal_tombstone" where
  "sample_tombstone reason = \<lparr>tb_principal_id = sample_pid, tb_session_id = SessionId ''s'',
     tb_session_nonce = LifecycleNonce (replicate 16 (CHR ''n'')), tb_reason = reason,
     tb_terminal_since_unix_ms = 4\<rparr>"

lemma sample_pid_ok: "worker_principal_id sample_env sample_principal = Inr sample_pid"
proof -
  obtain b where "canonicalize sample_env (principal_json sample_env (WorkerSession sample_principal)) = Inr b"
    using sample_canonicalize_ok by blast
  then show ?thesis
    by (simp add: worker_principal_id_def sample_pid_def principal_id_of_def domain_id_def)
qed

lemma sample_spec_valid: "spec_validate sample_env sample_spec = Inr ()"
proof -
  have fields: "bs_schema sample_spec = session_schema" "bs_reviewed_profile_id sample_spec = ''r''"
    "bs_security_profile sample_spec = Development"
    by (simp_all add: sample_spec_def)
  have id: "valid_reviewed_profile_id ''r''" by code_simp
  have fds: "validate_descriptors [] [] (bs_admitted_descriptors sample_spec) = Inr [PurposeCandidateSink]"
    by (simp add: sample_spec_def)
  have binding: "validate_principal_binding sample_env sample_spec = Inr ()"
    using sample_pid_ok by (simp add: validate_principal_binding_def sample_spec_def sample_principal_def
        Let_def chain_leaf_def chain_child_node_def chain_root_node_def)
  have route: "validate_provider_route sample_env sample_spec [PurposeCandidateSink] = Inr ()"
    by (simp add: validate_provider_route_def sample_spec_def sample_principal_def)
  show ?thesis by (simp add: spec_validate_def fields id fds binding route)
qed

lemma sample_record_new: "record_new sample_env sample_spec = Inr sample_record"
  by (simp add: record_new_def record_validate_def sample_spec_valid sample_record_def Let_def)

lemma sample_record_fields [simp]:
  "wr_schema sample_record = worker_session_record_schema" "wr_spec sample_record = sample_spec"
  "wr_authority sample_record = Prepared" "wr_candidate sample_record = Awaiting"
  by (simp_all add: sample_record_def)

lemma sample_tombstone_ok: "validate_tombstone sample_env (sample_record\<lparr>wr_authority := a\<rparr>) (sample_tombstone x) = Inr ()"
  using sample_pid_ok by (simp add: validate_tombstone_def sample_spec_def sample_tombstone_def
      sample_principal_def Let_def)

lemma sample_record_valid:
  "record_validate sample_env (sample_record\<lparr>wr_authority := Active l\<rparr>) = Inr ()"
  "record_validate sample_env (sample_record\<lparr>wr_authority := Tombstoned k (sample_tombstone x) c\<rparr>) = Inr ()"
  by (simp_all add: record_validate_def sample_tombstone_ok sample_spec_valid)

lemma sample_apply:
  "worker_apply sample_env sample_record (Activate l) = Inr (sample_record\<lparr>wr_authority := Active l\<rparr>)"
  "worker_apply sample_env (sample_record\<lparr>wr_authority := Active l\<rparr>) (Tombstone (sample_tombstone x)) =
     Inr (sample_record\<lparr>wr_authority := Tombstoned (Some l) (sample_tombstone x) CleanupPending\<rparr>)"
  "worker_apply sample_env (sample_record\<lparr>wr_authority := Tombstoned (Some l) (sample_tombstone x) CleanupPending\<rparr>)
       (CompleteCleanup d n) =
     Inr (sample_record\<lparr>wr_authority := Tombstoned (Some l) (sample_tombstone x) (CleanupComplete d n)\<rparr>)"
  by (simp_all add: worker_apply_iff sample_record_valid sample_tombstone_ok)

section \<open>Properties\<close>



text \<open>
  A tombstone is final.  After any accepted sequence of events a fenced worker is fenced by
  the same tombstone and launch receipt, its candidate custody has not changed, the
  specification is the same, and no ingress context whatsoever is accepted.
\<close>

theorem worker_tombstone_final:
  assumes "run_events (worker_apply E) r es = Ok r'" and "wr_authority r = Tombstoned l t c"
  shows "(\<exists>c'. wr_authority r' = Tombstoned l t c') \<and>
    custody_of (wr_candidate r') = custody_of (wr_candidate r) \<and> wr_spec r' = wr_spec r \<and>
    \<not> is_ok (validate_active_ingress E r' x)"
  using run_tombstoned [OF assms] run_frame [OF assms(1)]
  by (auto simp: is_ok_iff validate_active_ingress_iff)

theorem worker_tombstone_final_witness:
  "\<exists>c'. wr_authority (sample_record\<lparr>wr_authority := Tombstoned (Some (Digest ''l''))
       (sample_tombstone DeadlineExpired) (CleanupComplete (Digest ''z'') 6)\<rparr>) =
     Tombstoned (Some (Digest ''l'')) (sample_tombstone DeadlineExpired) c'"
  using worker_tombstone_final [of sample_env
      "sample_record\<lparr>wr_authority := Tombstoned (Some (Digest ''l'')) (sample_tombstone DeadlineExpired) CleanupPending\<rparr>"
      "[CompleteCleanup (Digest ''z'') 6]"
      "sample_record\<lparr>wr_authority := Tombstoned (Some (Digest ''l'')) (sample_tombstone DeadlineExpired) (CleanupComplete (Digest ''z'') 6)\<rparr>"]
  by (simp add: sample_apply)

text \<open>
  C31: one candidate, one outcome.  Along any accepted event sequence from a fresh record, the
  candidates accepted are exactly the one in custody at the end (none if none is), and the
  broker outcomes recorded are all the one outcome stored at the end.
\<close>

theorem worker_single_candidate:
  assumes "record_new E s = Ok r" and "run_events (worker_apply E) r es = Ok r'"
  shows "accepted_candidates es =
      (case custody_of (wr_candidate r') of None \<Rightarrow> [] | Some c \<Rightarrow> [c]) \<and>
    set (recorded_outcomes es) = set_option (outcome_of (wr_candidate r'))"
proof -
  have "custody_of (wr_candidate r) = None" "outcome_of (wr_candidate r) = None"
    using assms(1) by (auto simp: record_new_def ag_check Let_def)
  with run_custody [OF assms(2)] show ?thesis by simp
qed

theorem worker_single_candidate_witness:
  "accepted_candidates [Activate (Digest ''l''), Tombstone (sample_tombstone DeadlineExpired)] = []"
  using worker_single_candidate [OF sample_record_new,
      of "[Activate (Digest ''l''), Tombstone (sample_tombstone DeadlineExpired)]"
         "sample_record\<lparr>wr_authority := Tombstoned (Some (Digest ''l'')) (sample_tombstone DeadlineExpired) CleanupPending\<rparr>"]
  by (simp add: sample_apply)

text \<open>
  A live worker can always be fenced.  In every reachable record that is not yet tombstoned,
  a tombstone that names this worker's principal, session and nonce is accepted whatever its
  reason, and the record afterwards is fenced with it.
\<close>

theorem worker_fence_available:
  assumes "worker_reachable E r" and "\<And>l t c. wr_authority r \<noteq> Tombstoned l t c"
    and "validate_tombstone E r t = Ok ()"
  shows "\<exists>l. worker_apply E r (Tombstone t) = Ok (r\<lparr>wr_authority := Tombstoned l t CleanupPending\<rparr>)"
proof -
  have valid: "record_validate E r = Inr ()" by (rule worker_reachable_valid [OF assms(1)])
  then have "custody_of (wr_candidate r) = None"
    using record_validate_custody assms(2) by (metis option.exhaust)
  with valid assms(3) have ok: "record_validate E (r\<lparr>wr_authority := Tombstoned l t CleanupPending\<rparr>) = Inr ()" for l
    by (simp add: record_validate_def validate_tombstone_def ag_check split: authority_state.splits)
  show ?thesis
    using assms(2,3) ok by (cases "wr_authority r") (auto simp: worker_apply_iff)
qed

theorem worker_fence_available_witness:
  "\<exists>l. worker_apply sample_env sample_record (Tombstone (sample_tombstone RestartRecovery)) =
     Ok (sample_record\<lparr>wr_authority := Tombstoned l (sample_tombstone RestartRecovery) CleanupPending\<rparr>)"
proof (rule worker_fence_available)
  show "worker_reachable sample_env sample_record"
    by (rule worker_reachable.created [OF sample_record_new])
  show "wr_authority sample_record \<noteq> Tombstoned l t c" for l t c
    by simp
  show "validate_tombstone sample_env sample_record (sample_tombstone RestartRecovery) = Ok ()"
    using sample_tombstone_ok [of Prepared RestartRecovery] by (simp add: validate_tombstone_def)
qed

end
