(* ===== verification/AG_Paths.thy ===== *)
theory AG_Paths
  imports AG_Prelude
begin

text \<open>
  The path and reference policy of \<open>crates/ag-effect/src/lib.rs\<close> (\<open>is_canonical_absolute_root\<close>,
  \<open>is_canonical_relative_path\<close>, \<open>is_canonical_git_reference\<close>) over a model of what they use of
  the standard library's \<open>Path\<close> on Unix: its components, comparison and component-wise prefix
  test.  The lemmas characterise the accepted spellings by their segments.
\<close>

section \<open>Unix paths\<close>

datatype path_component = RootDir | CurDir | ParentDir | NormalComp string

fun split_slash :: "string \<Rightarrow> string list" where
  "split_slash [] = [[]]"
| "split_slash (c # cs) =
     (if c = CHR ''/'' then [] # split_slash cs
      else (case split_slash cs of [] \<Rightarrow> [[c]] | s # ss \<Rightarrow> (c # s) # ss))"

fun join_slash :: "string list \<Rightarrow> string" where
  "join_slash [] = []"
| "join_slash [s] = s"
| "join_slash (s # t # ss) = s @ CHR ''/'' # join_slash (t # ss)"

definition path_is_absolute :: "string \<Rightarrow> bool" where
  "path_is_absolute v \<longleftrightarrow> starts_with ''/'' v"

definition segment_component :: "string \<Rightarrow> path_component option" where
  "segment_component s =
     (if s = [] \<or> s = ''.'' then None else if s = ''..'' then Some ParentDir else Some (NormalComp s))"

text \<open>Empty and dot segments vanish, except that a leading dot of a relative path is kept.\<close>

definition path_components :: "string \<Rightarrow> path_component list" where
  "path_components v =
     (if path_is_absolute v then [RootDir]
      else if hd (split_slash v) = ''.'' then [CurDir] else [])
     @ List.map_filter segment_component (split_slash v)"

definition path_eq :: "string \<Rightarrow> string \<Rightarrow> bool" where
  "path_eq a b \<longleftrightarrow> path_components a = path_components b"

definition path_starts_with :: "string \<Rightarrow> string \<Rightarrow> bool" where
  "path_starts_with a b \<longleftrightarrow>
     take (length (path_components b)) (path_components a) = path_components b"

fun is_normal :: "path_component \<Rightarrow> bool" where
  "is_normal (NormalComp _) = True"
| "is_normal _ = False"

section \<open>The policy\<close>

definition is_canonical_absolute_root :: "string \<Rightarrow> bool" where
  "is_canonical_absolute_root v \<longleftrightarrow>
     path_is_absolute v \<and> \<not> path_eq v ''/'' \<and> \<not> ends_with ''/'' v \<and>
     \<not> str_contains ''//'' (drop 1 v) \<and> \<not> str_contains ''/./'' v \<and> \<not> ends_with ''/.'' v \<and>
     \<not> list_ex (\<lambda>c. c = CHR 0x00) v \<and>
     list_all (\<lambda>c. c = RootDir \<or> is_normal c) (path_components v)"

definition is_canonical_relative_path :: "string \<Rightarrow> bool" where
  "is_canonical_relative_path v \<longleftrightarrow>
     v \<noteq> [] \<and> \<not> path_is_absolute v \<and> \<not> starts_with ''./'' v \<and> \<not> ends_with ''/'' v \<and>
     \<not> ends_with ''/.'' v \<and> \<not> str_contains ''//'' v \<and> \<not> str_contains ''/./'' v \<and>
     \<not> list_ex (\<lambda>c. c = CHR 0x00) v \<and> list_all is_normal (path_components v)"

definition is_canonical_git_reference :: "string \<Rightarrow> bool" where
  "is_canonical_git_reference v \<longleftrightarrow>
     starts_with ''refs/'' v \<and> \<not> ends_with ''/'' v \<and> \<not> ends_with ''.'' v \<and>
     \<not> ends_with ''.lock'' v \<and> \<not> str_contains ''..'' v \<and> \<not> str_contains [CHR ''@'', CHR 0x7B] v \<and>
     \<not> str_contains ''//'' v \<and>
     list_all (\<lambda>c. \<not> is_ascii_control c \<and>
       c \<notin> {CHR '' '', CHR ''~'', CHR ''^'', CHR '':'', CHR ''?'', CHR ''*'', CHR ''['', CHR 0x5C}) v"

section \<open>Splitting and joining\<close>

lemma split_slash_nonempty [simp]: "split_slash v \<noteq> []"
  by (induction v) (auto split: list.splits)

lemma split_slash_append: "split_slash (a @ CHR ''/'' # b) = split_slash a @ split_slash b"
  by (induction a) (auto split: list.splits simp: Cons_eq_append_conv)

lemma split_slash_free: "CHR ''/'' \<notin> set s \<Longrightarrow> split_slash s = [s]"
  by (induction s) auto

lemma join_slash_Cons: "ss \<noteq> [] \<Longrightarrow> join_slash (s # ss) = s @ CHR ''/'' # join_slash ss"
  by (cases ss) auto

lemma join_split: "join_slash (split_slash v) = v"
proof (induction v)
  case Nil
  then show ?case by simp
next
  case (Cons c v)
  show ?case
  proof (cases "c = CHR ''/''")
    case True
    with Cons show ?thesis by (simp add: join_slash_Cons)
  next
    case False
    obtain s ss where "split_slash v = s # ss" by (cases "split_slash v") auto
    with Cons False show ?thesis by (cases ss) auto
  qed
qed

lemma split_join:
  assumes "ss \<noteq> []" and "\<And>s. s \<in> set ss \<Longrightarrow> CHR ''/'' \<notin> set s"
  shows "split_slash (join_slash ss) = ss"
  using assms
proof (induction ss rule: join_slash.induct)
  case (3 s t ss)
  then show ?case by (simp add: split_slash_append split_slash_free)
qed (auto simp: split_slash_free)

lemma split_no_slash: "s \<in> set (split_slash v) \<Longrightarrow> CHR ''/'' \<notin> set s"
proof (induction v arbitrary: s)
  case Nil
  then show ?case by simp
next
  case (Cons c v)
  obtain t ts where "split_slash v = t # ts" by (cases "split_slash v") auto
  with Cons show ?case by (auto split: if_splits)
qed

lemma split_subset: "s \<in> set (split_slash v) \<Longrightarrow> set s \<subseteq> set v"
proof (induction v arbitrary: s)
  case Nil
  then show ?case by simp
next
  case (Cons c v)
  obtain t ts where t: "split_slash v = t # ts" by (cases "split_slash v") auto
  have "\<forall>u \<in> set (t # ts). set u \<subseteq> set v" using Cons.IH t by auto
  with t Cons.prems show ?case by (auto split: if_splits)
qed

lemma set_join: "set (join_slash ss) \<subseteq> insert (CHR ''/'') (\<Union> (set ` set ss))"
  by (induction ss rule: join_slash.induct) auto

text \<open>Where a segment of a text sits, as the substring tests of the code see it.\<close>

lemma segment_position:
  assumes "s \<in> set (split_slash v)"
  shows "v = s \<or> starts_with (s @ ''/'') v \<or> ends_with (CHR ''/'' # s) v \<or>
    str_contains (CHR ''/'' # s @ ''/'') v"
proof -
  from assms obtain xs ys where sp: "split_slash v = xs @ s # ys" by (auto dest: split_list)
  have pre: "xs \<noteq> [] \<Longrightarrow> join_slash (xs @ zs) = join_slash xs @ CHR ''/'' # join_slash zs"
    if "zs \<noteq> []" for zs
    using that by (induction xs rule: join_slash.induct) (auto simp: join_slash_Cons)
  have v: "v = join_slash (xs @ s # ys)" using sp join_split by metis
  show ?thesis
    using pre [of "s # ys"] v by (cases "xs = []"; cases "ys = []")
      (auto simp: join_slash_Cons starts_with_iff ends_with_iff str_contains_iff)
qed

lemma segment_substrings:
  "starts_with (s @ ''/'') v \<Longrightarrow> CHR ''/'' \<notin> set s \<Longrightarrow> s \<in> set (split_slash v)"
  "ends_with (CHR ''/'' # s) v \<Longrightarrow> CHR ''/'' \<notin> set s \<Longrightarrow> s \<in> set (split_slash v)"
  "str_contains (CHR ''/'' # s @ ''/'') v \<Longrightarrow> CHR ''/'' \<notin> set s \<Longrightarrow> s \<in> set (split_slash v)"
  by (auto simp: starts_with_iff ends_with_iff str_contains_iff split_slash_append split_slash_free)

section \<open>The accepted spellings\<close>

definition plain_segment :: "string \<Rightarrow> bool" where
  "plain_segment s \<longleftrightarrow>
     s \<noteq> [] \<and> s \<noteq> ''.'' \<and> s \<noteq> ''..'' \<and> CHR ''/'' \<notin> set s \<and> CHR 0x00 \<notin> set s"

lemma set_map_filter: "c \<in> set (List.map_filter f xs) \<longleftrightarrow> (\<exists>x \<in> set xs. f x = Some c)"
  by (induction xs) (auto simp: List.map_filter_simps split: option.splits)

lemma component_iff: "c \<in> set (path_components v) \<longleftrightarrow>
    (c = RootDir \<and> path_is_absolute v) \<or>
    (c = CurDir \<and> \<not> path_is_absolute v \<and> hd (split_slash v) = ''.'') \<or>
    (\<exists>s \<in> set (split_slash v). segment_component s = Some c)"
  by (auto simp: path_components_def set_map_filter)

lemma segment_component_simps:
  "segment_component s = Some RootDir \<longleftrightarrow> False" "segment_component s = Some CurDir \<longleftrightarrow> False"
  "segment_component s = Some ParentDir \<longleftrightarrow> s = ''..''"
  by (auto simp: segment_component_def)

lemma plain_segments_split:
  assumes "ss \<noteq> []" and "list_all plain_segment ss"
  shows "split_slash (join_slash ss) = ss"
  using assms by (intro split_join) (auto simp: list_all_iff plain_segment_def)

lemma plain_segments_chars:
  "list_all plain_segment ss \<Longrightarrow> CHR 0x00 \<notin> set (join_slash ss)"
  using set_join [of ss] by (auto simp: list_all_iff plain_segment_def)

lemma canonical_relative_segments:
  assumes can: "is_canonical_relative_path v" and s: "s \<in> set (split_slash v)"
  shows "plain_segment s"
proof -
  have "s \<noteq> []"
    using segment_position [OF s] can by (auto simp: is_canonical_relative_path_def path_is_absolute_def)
  moreover have "s \<noteq> ''.''"
  proof
    assume dot: "s = ''.''"
    have "v \<noteq> ''.''" using can by (auto simp: is_canonical_relative_path_def path_components_def
          path_is_absolute_def starts_with_iff)
    with segment_position [OF s] dot can show False by (auto simp: is_canonical_relative_path_def)
  qed
  moreover have "s \<noteq> ''..''"
    using can s component_iff [of ParentDir v]
    by (auto simp: is_canonical_relative_path_def list_all_iff segment_component_simps)
  moreover have "CHR 0x00 \<notin> set s"
    using can split_subset [OF s] by (auto simp: is_canonical_relative_path_def list_ex_iff)
  ultimately show ?thesis using split_no_slash [OF s] by (simp add: plain_segment_def)
qed

lemma canonical_relative_join:
  assumes ss: "ss \<noteq> []" "list_all plain_segment ss"
  shows "is_canonical_relative_path (join_slash ss)"
proof -
  let ?v = "join_slash ss"
  note split = plain_segments_split [OF ss]
  have no: "[] \<notin> set ss" "''.'' \<notin> set ss" "''..'' \<notin> set ss" and hd: "hd ss \<in> set ss"
    using ss by (auto simp: list_all_iff plain_segment_def)
  have rel: "\<not> path_is_absolute ?v" using segment_substrings(1) [of "[]" ?v] no split
    by (auto simp: path_is_absolute_def)
  moreover have "\<not> starts_with ''./'' ?v" using segment_substrings(1) [of "''.''" ?v] no split by auto
  moreover have "\<not> ends_with ''/'' ?v" "\<not> ends_with ''/.'' ?v"
    using segment_substrings(2) [of "[]" ?v] segment_substrings(2) [of "''.''" ?v] no split by auto
  moreover have "\<not> str_contains ''//'' ?v" "\<not> str_contains ''/./'' ?v"
    using segment_substrings(3) [of "[]" ?v] segment_substrings(3) [of "''.''" ?v] no split by auto
  moreover have "?v \<noteq> []" using split no hd by auto
  moreover have "\<not> list_ex (\<lambda>c. c = CHR 0x00) ?v"
    using plain_segments_chars [OF ss(2)] by (auto simp: list_ex_iff)
  moreover have "is_normal c" if "c \<in> set (path_components ?v)" for c
    using that rel split hd no by (auto simp: component_iff segment_component_def split: if_splits)
  ultimately show ?thesis by (simp add: is_canonical_relative_path_def list_all_iff)
qed

lemma canonical_relative_iff:
  "is_canonical_relative_path v \<longleftrightarrow>
     (\<exists>ss. ss \<noteq> [] \<and> list_all plain_segment ss \<and> v = join_slash ss)"
  using canonical_relative_segments [of v] canonical_relative_join join_split [of v]
    split_slash_nonempty [of v] by (metis list_all_iff)

text \<open>The tail of an accepted root, after one or two slashes, is an accepted relative path.\<close>

lemma canonical_root_tail:
  assumes can: "is_canonical_absolute_root v"
  obtains u where "v = CHR ''/'' # u \<or> v = CHR ''/'' # CHR ''/'' # u"
    and "is_canonical_relative_path u"
proof -
  from can obtain w where w: "v = CHR ''/'' # w"
    by (auto simp: is_canonical_absolute_root_def path_is_absolute_def starts_with_iff)
  define u where "u = (if starts_with ''/'' w then tl w else w)"
  have v: "v = CHR ''/'' # u \<or> v = CHR ''/'' # CHR ''/'' # u"
    using w by (auto simp: u_def starts_with_iff)
  then obtain p where p: "v = p @ CHR ''/'' # u" by fastforce
  then have sub: "set (split_slash u) \<subseteq> set (split_slash v)" by (simp add: split_slash_append)
  have abs: "\<not> path_is_absolute u"
    using can w by (auto simp: u_def is_canonical_absolute_root_def path_is_absolute_def starts_with_iff)
  have test: "str_contains q v" if "str_contains q u" for q
    using that p unfolding str_contains_iff by (metis append.assoc append_Cons)
  have dot: "\<not> starts_with ''./'' u" "u \<noteq> ''.''" "u \<noteq> []"
    using can p by (auto simp: is_canonical_absolute_root_def starts_with_iff str_contains_iff ends_with_iff)
  moreover have ends: "\<not> ends_with ''/'' u" "\<not> ends_with ''/.'' u"
    using can p by (auto simp: is_canonical_absolute_root_def ends_with_iff)
  moreover have mid: "\<not> str_contains ''/./'' u" using test can by (auto simp: is_canonical_absolute_root_def)
  moreover have "\<not> str_contains ''//'' u"
    using can w by (auto simp: u_def is_canonical_absolute_root_def starts_with_iff split: if_splits)
  moreover have "\<not> list_ex (\<lambda>c. c = CHR 0x00) u" using can p by (auto simp: is_canonical_absolute_root_def)
  moreover have "is_normal c" if "c \<in> set (path_components u)" for c
  proof -
    have "hd (split_slash u) \<noteq> ''.''"
    proof
      assume "hd (split_slash u) = ''.''"
      with hd_in_set [OF split_slash_nonempty [of u]] have "''.'' \<in> set (split_slash u)" by simp
      from segment_position [OF this] dot ends mid show False by simp
    qed
    with that abs obtain s where s: "s \<in> set (split_slash v)" "segment_component s = Some c"
      using sub by (auto simp: component_iff)
    then have "c \<in> set (path_components v)" by (auto simp: component_iff)
    with can s(2) show ?thesis
      by (auto simp: is_canonical_absolute_root_def list_all_iff segment_component_simps)
  qed
  ultimately have "is_canonical_relative_path u" using abs
    by (simp add: is_canonical_relative_path_def list_all_iff)
  with v that show thesis by blast
qed

lemma plain_map_filter:
  "list_all plain_segment ss \<Longrightarrow> List.map_filter segment_component ss = map NormalComp ss"
  by (induction ss) (auto simp: List.map_filter_simps segment_component_def plain_segment_def)

lemma root_components:
  assumes "ss \<noteq> []" and "list_all plain_segment ss"
    and "v = CHR ''/'' # join_slash ss \<or> v = CHR ''/'' # CHR ''/'' # join_slash ss"
  shows "path_components v = RootDir # map NormalComp ss"
proof -
  have "path_is_absolute v" using assms(3) by (auto simp: path_is_absolute_def starts_with_def)
  moreover have "split_slash v = [] # ss \<or> split_slash v = [] # [] # ss"
    using assms(3) plain_segments_split [OF assms(1,2)] by auto
  ultimately show ?thesis
    using plain_map_filter [OF assms(2)]
    by (auto simp: path_components_def List.map_filter_simps segment_component_def)
qed

lemma canonical_root_join:
  assumes ss: "ss \<noteq> []" "list_all plain_segment ss"
    and v: "v = CHR ''/'' # join_slash ss \<or> v = CHR ''/'' # CHR ''/'' # join_slash ss"
  shows "is_canonical_absolute_root v"
proof -
  let ?u = "join_slash ss"
  note rel = canonical_relative_join [OF ss, unfolded is_canonical_relative_path_def]
  note split = plain_segments_split [OF ss]
  have no: "[] \<notin> set ss" "''.'' \<notin> set ss" "''..'' \<notin> set ss" and hd: "hd ss \<in> set ss"
    using ss by (auto simp: list_all_iff plain_segment_def)
  have segs: "s \<in> set (split_slash v) \<longleftrightarrow> s = [] \<or> s \<in> set ss" for s using v split by auto
  have last: "last (split_slash v) = last ss" using v split ss(1) by auto
  have abs: "path_is_absolute v" using v by (auto simp: path_is_absolute_def starts_with_def)
  note comp = root_components [OF ss v]
  have "\<not> path_eq v ''/''"
    using ss(1) by (simp add: path_eq_def comp) (simp add: path_components_def segment_component_def
        List.map_filter_simps)
  moreover have "\<not> ends_with ''/'' v"
    using last no last_in_set [OF ss(1)] by (auto simp: ends_with_iff split_slash_append)
  moreover have "\<not> ends_with ''/.'' v" "\<not> str_contains ''/./'' v"
    using segment_substrings(2) [of "''.''" v] segment_substrings(3) [of "''.''" v] segs no by auto
  moreover have "\<not> str_contains ''//'' (drop 1 v)"
    using v rel by (auto simp: path_is_absolute_def starts_with_def)
  moreover have "\<not> list_ex (\<lambda>c. c = CHR 0x00) v" using v rel by auto
  moreover have "list_all (\<lambda>c. c = RootDir \<or> is_normal c) (path_components v)"
    by (simp add: comp list_all_iff)
  ultimately show ?thesis using abs by (simp add: is_canonical_absolute_root_def)
qed

lemma canonical_root_iff:
  "is_canonical_absolute_root v \<longleftrightarrow>
     (\<exists>ss. ss \<noteq> [] \<and> list_all plain_segment ss \<and>
        (v = CHR ''/'' # join_slash ss \<or> v = CHR ''/'' # CHR ''/'' # join_slash ss))"
  (is "_ \<longleftrightarrow> (\<exists>ss. ?P ss)")
proof
  assume "is_canonical_absolute_root v"
  then obtain u where "v = CHR ''/'' # u \<or> v = CHR ''/'' # CHR ''/'' # u"
    and "is_canonical_relative_path u" by (rule canonical_root_tail)
  then show "\<exists>ss. ?P ss" unfolding canonical_relative_iff by blast
qed (blast intro: canonical_root_join)

lemma path_inside_iff:
  assumes "ss \<noteq> []" and "list_all plain_segment ss"
    and "v = CHR ''/'' # join_slash ss \<or> v = CHR ''/'' # CHR ''/'' # join_slash ss"
    and "rs \<noteq> []" and "list_all plain_segment rs"
    and "r = CHR ''/'' # join_slash rs \<or> r = CHR ''/'' # CHR ''/'' # join_slash rs"
  shows "path_starts_with v r \<longleftrightarrow> (\<exists>ts. ss = rs @ ts)"
proof -
  have "take (length rs) (map NormalComp ss) = map NormalComp rs \<longleftrightarrow> take (length rs) ss = rs"
    using inj_map_eq_map [of NormalComp "take (length rs) ss" rs] by (simp add: take_map inj_def)
  then show ?thesis
    using root_components [OF assms(1-3)] root_components [OF assms(4-6)]
    by (auto simp: path_starts_with_def) (metis append_take_drop_id)
qed

section \<open>Properties\<close>

text \<open>
  C38: the path policy, exactly.  A relative path is accepted exactly when it is a nonempty
  slash-separated sequence of plain segments (nonempty, neither dot nor dot-dot, no slash or
  NUL byte).  An absolute root is accepted exactly when it is such a sequence after one leading
  slash or after two: the doubled spelling of the same directory is also let through, because
  the doubled-slash test skips the first byte.
\<close>

theorem path_policy_exact:
  "(is_canonical_relative_path v \<longleftrightarrow>
      (\<exists>ss. ss \<noteq> [] \<and> list_all plain_segment ss \<and> v = join_slash ss)) \<and>
   (is_canonical_absolute_root v \<longleftrightarrow>
      (\<exists>ss. ss \<noteq> [] \<and> list_all plain_segment ss \<and>
         (v = CHR ''/'' # join_slash ss \<or> v = CHR ''/'' # CHR ''/'' # join_slash ss)))"
  using canonical_relative_iff canonical_root_iff by simp

end
