(* ===== verification/AG_Effect.thy ===== *)
theory AG_Effect
  imports AG_Identity AG_Paths
begin

text \<open>
  \<open>crates/ag-effect/src/lib.rs\<close>, first part: target identifiers, untrusted intents, the
  root-owned target catalog, broker observations, the proposal lifecycle's states and events, the
  closed error type, and the canonical digest every record of the effect plane is bound by.

  Struct-like enum variants with many fields are one constructor over a record.  An
  \<open>InvalidTransition\<close> error keeps the state and event themselves instead of their debug texts.
\<close>

section \<open>Schemas\<close>

definition effect_schema :: string where
  "effect_schema = ''ag.effect/v1''"
definition effect_catalog_schema :: string where
  "effect_catalog_schema = ''ag.effect-catalog/v1''"
definition promotion_schema :: string where
  "promotion_schema = ''ag.managed-pointer-promotion/v2''"
definition exact_basis_schema :: string where
  "exact_basis_schema = ''ag.managed-pointer.exact-basis/v1''"
definition complete_inputs_schema :: string where
  "complete_inputs_schema = ''ag.managed-pointer.complete-inputs/v1''"
definition preparation_standing_schema :: string where
  "preparation_standing_schema = ''ag.managed-pointer.preparation-standing-receipt/v1''"
definition preparation_effects_schema :: string where
  "preparation_effects_schema = ''ag.managed-pointer.preparation-effects/v1''"
definition candidate_preparation_schema :: string where
  "candidate_preparation_schema = ''ag.managed-pointer.candidate-preparation/v1''"
definition prepared_candidate_schema :: string where
  "prepared_candidate_schema = ''ag.managed-pointer.prepared-candidate/v1''"
definition candidate_ratification_schema :: string where
  "candidate_ratification_schema = ''ag.managed-pointer.candidate-ratification/v1''"
definition promotion_refusal_schema :: string where
  "promotion_refusal_schema = ''ag.managed-pointer.promotion-refusal/v1''"
definition host_mandate_schema :: string where
  "host_mandate_schema = ''ag.host-mandate/v1''"

section \<open>Targets, families, lifecycle data and errors\<close>

datatype target_id = TargetId (target_str: string)

instantiation target_id :: linorder
begin

definition less_eq_target_id :: "target_id \<Rightarrow> target_id \<Rightarrow> bool" where
  "less_eq_target_id a b \<longleftrightarrow> target_str a \<le> target_str b"

definition less_target_id :: "target_id \<Rightarrow> target_id \<Rightarrow> bool" where
  "less_target_id a b \<longleftrightarrow> target_str a < target_str b"

instance
  by standard (auto simp: less_eq_target_id_def less_target_id_def intro: target_id.expand)

end

datatype effect_family = CodePromotion | ManagedFileFamily | SystemdFamily

datatype proposal_state =
    Received
  | Ready digest
  | RefusedState digest
  | IndeterminateState digest
  | AuthorizationBurned digest digest effect_family
  | Preparing digest digest
  | Executing digest digest "digest option"
  | Succeeded digest
  | Failed digest
  | ReconciliationRequired digest
  | ReconciledState digest

datatype proposal_event =
    Compiled digest
  | RefusedEvent digest
  | IndeterminateEvent digest
  | BurnAuthorization digest digest effect_family
  | BeginPreparation digest
  | CommitMayProceed digest
  | PreparationFailed digest
  | PreparationAbandoned digest
  | PreparationIndeterminate digest
  | BeginExecution digest
  | ExecutionAbandoned digest
  | ExecutionSucceeded digest
  | ExecutionFailed digest
  | ExecutionIndeterminate digest
  | ReconciledEvent digest

datatype effect_error =
    EeInvalidTargetId string
  | EeUnknownSchema string
  | EeUnknownCatalogSchema string
  | EeMalformedIntent
  | EeArtifactNotAdmitted digest
  | EeUnknownTarget target_id
  | EeMissingObservation target_id
  | EeTargetKindMismatch target_id
  | EeTargetIdentityMismatch target_id
  | EePromotionTargetDirty target_id
  | EePromotionReferenceCheckedOut target_id
  | EePromotionBaseMismatch target_id
  | EeMissingPreparedCandidate target_id
  | EeInvalidPreparedCandidate
  | EePreparedCandidateBindingMismatch
  | EeCandidateRatificationMismatch
  | EeInvalidPromotionDefinition target_id
  | EePromotionExpiryOverflow
  | EeUnsafeTarget target_id
  | EeActionNotAllowed target_id
  | EeInvalidGitObject string
  | EeCanonical string
  | EeCanonicalDigestMismatch
  | EeMandateNotApplicable
  | EeInvalidHostMandate
  | EeMandateDigestMismatch
  | EePromotionRequiresSeparateAuthority
  | EeInvalidTransition proposal_state proposal_event

fun is_semantic_compilation_refusal :: "effect_error \<Rightarrow> bool" where
  "is_semantic_compilation_refusal (EeInvalidTargetId _) = True"
| "is_semantic_compilation_refusal (EeUnknownSchema _) = True"
| "is_semantic_compilation_refusal EeMalformedIntent = True"
| "is_semantic_compilation_refusal (EeArtifactNotAdmitted _) = True"
| "is_semantic_compilation_refusal (EeUnknownTarget _) = True"
| "is_semantic_compilation_refusal (EeTargetKindMismatch _) = True"
| "is_semantic_compilation_refusal (EeTargetIdentityMismatch _) = True"
| "is_semantic_compilation_refusal (EePromotionTargetDirty _) = True"
| "is_semantic_compilation_refusal (EePromotionReferenceCheckedOut _) = True"
| "is_semantic_compilation_refusal (EePromotionBaseMismatch _) = True"
| "is_semantic_compilation_refusal EeInvalidPreparedCandidate = True"
| "is_semantic_compilation_refusal EePreparedCandidateBindingMismatch = True"
| "is_semantic_compilation_refusal (EeUnsafeTarget _) = True"
| "is_semantic_compilation_refusal (EeActionNotAllowed _) = True"
| "is_semantic_compilation_refusal (EeInvalidGitObject _) = True"
| "is_semantic_compilation_refusal _ = False"

definition target_id_parse :: "string \<Rightarrow> effect_error + target_id" where
  "target_id_parse v =
     (if v \<noteq> [] \<and> length v \<le> 128 \<and>
        list_all (\<lambda>c. is_ascii_alphanumeric c \<or> c \<in> set ''._-'') v
      then Ok (TargetId v) else Err (EeInvalidTargetId v))"

definition digest_serializable :: "env \<Rightarrow> json \<Rightarrow> effect_error + digest" where
  "digest_serializable E v =
     res_bind (map_err EeCanonical (env_jcs_to_vec E v)) (\<lambda>b. Ok (hash_bytes E b))"

section \<open>Intents\<close>

datatype systemd_unit_action = Start | Stop | Restart | Reload | Enable | Disable

datatype effect_intent =
    IntentPromotion target_id digest
  | IntentFilePut target_id digest
  | IntentFileDelete target_id
  | IntentSystemdUnit target_id systemd_unit_action
  | IntentManagerReload target_id

fun intent_target :: "effect_intent \<Rightarrow> target_id" where
  "intent_target (IntentPromotion t _) = t"
| "intent_target (IntentFilePut t _) = t"
| "intent_target (IntentFileDelete t) = t"
| "intent_target (IntentSystemdUnit t _) = t"
| "intent_target (IntentManagerReload t) = t"

fun intent_family :: "effect_intent \<Rightarrow> effect_family" where
  "intent_family (IntentPromotion _ _) = CodePromotion"
| "intent_family (IntentFilePut _ _) = ManagedFileFamily"
| "intent_family (IntentFileDelete _) = ManagedFileFamily"
| "intent_family (IntentSystemdUnit _ _) = SystemdFamily"
| "intent_family (IntentManagerReload _) = SystemdFamily"

fun intent_artifact :: "effect_intent \<Rightarrow> digest option" where
  "intent_artifact (IntentPromotion _ a) = Some a"
| "intent_artifact (IntentFilePut _ c) = Some c"
| "intent_artifact _ = None"

record proposal_intent =
  pi_schema :: string
  pi_intent_id :: string
  pi_authority_domain :: authority_domain_id
  pi_epoch :: epoch_id
  pi_proposer :: principal_chain
  pi_judgment :: digest
  pi_admitted_artifacts :: "digest btree_set"
  pi_effects :: "effect_intent list"

definition validate_shape :: "proposal_intent \<Rightarrow> effect_error + unit" where
  "validate_shape p =
     (if pi_schema p \<noteq> effect_schema then Err (EeUnknownSchema (pi_schema p))
      else if pi_intent_id p = [] \<or> pi_effects p = [] then Err EeMalformedIntent
      else try_for_each (\<lambda>e. case intent_artifact e of
          Some a \<Rightarrow> if a \<notin> set (pi_admitted_artifacts p) then Err (EeArtifactNotAdmitted a) else Ok ()
        | None \<Rightarrow> Ok ()) (pi_effects p))"

lemma validate_shape_iff:
  "validate_shape p = Inr () \<longleftrightarrow>
     pi_schema p = effect_schema \<and> pi_intent_id p \<noteq> [] \<and> pi_effects p \<noteq> [] \<and>
     (\<forall>e \<in> set (pi_effects p). set_option (intent_artifact e) \<subseteq> set (pi_admitted_artifacts p))"
  by (auto simp: validate_shape_def ag_check split: option.splits)

section \<open>The catalog and broker observations\<close>

record pointer_definition =
  pd_allowed_root :: string
  pd_repository :: string
  pd_reference :: string
  pd_repository_identity :: digest
  pd_uid :: u32
  pd_gid :: u32
  pd_staging_root :: string
  pd_promotion_ttl_ms :: u64
  pd_helper_executable :: digest
  pd_helper_launch_profile :: digest

record file_definition =
  fd_path :: string
  fd_mode :: u32
  fd_uid :: u32
  fd_gid :: u32

datatype target_definition =
    DefManagedPointer pointer_definition
  | DefManagedFile file_definition
  | DefSystemdUnit string "systemd_unit_action btree_set"
  | DefSystemdManager

record effect_catalog =
  ec_schema :: string
  ec_identity :: digest
  ec_targets :: "(target_id, target_definition) btree_map"

datatype git_object_format = Sha1 | Sha256

fun object_name_length :: "git_object_format \<Rightarrow> nat" where
  "object_name_length Sha1 = 40"
| "object_name_length Sha256 = 64"

record pointer_observation =
  po_current_object :: string
  po_current_tree :: string
  po_candidate_object :: string
  po_candidate_tree :: string
  po_candidate_parent :: string
  po_candidate_pack_digest :: digest
  po_object_format :: git_object_format
  po_repository_identity :: digest
  po_prestate_identity :: digest
  po_repository_device :: u64
  po_repository_inode :: u64
  po_git_directory_device :: u64
  po_git_directory_inode :: u64
  po_repository_uid :: u32
  po_repository_gid :: u32
  po_clean :: bool
  po_reference_checked_out :: bool

datatype target_observation =
    ObsManagedPointer pointer_observation
  | ObsManagedFile "digest option" bool
  | ObsSystemdUnit string string
  | ObsSystemdManager string u64

definition validate_git_object :: "string \<Rightarrow> git_object_format \<Rightarrow> effect_error + unit" where
  "validate_git_object v f =
     (if length v \<noteq> object_name_length f \<or> \<not> list_all is_lower_hex v
      then Err (EeInvalidGitObject v) else Ok ())"

section \<open>JSON trees of the data\<close>

definition target_json :: "target_id \<Rightarrow> json" where
  "target_json t = JStr (target_str t)"

fun systemd_action_str :: "systemd_unit_action \<Rightarrow> string" where
  "systemd_action_str Start = ''start''"
| "systemd_action_str Stop = ''stop''"
| "systemd_action_str Restart = ''restart''"
| "systemd_action_str Reload = ''reload''"
| "systemd_action_str Enable = ''enable''"
| "systemd_action_str Disable = ''disable''"

fun effect_intent_json :: "effect_intent \<Rightarrow> json" where
  "effect_intent_json (IntentPromotion t a) = JObj
     [(''kind'', JStr ''managed_pointer_promotion''), (''target'', target_json t),
      (''artifact'', digest_json a)]"
| "effect_intent_json (IntentFilePut t c) = JObj
     [(''kind'', JStr ''managed_file_put''), (''target'', target_json t), (''content'', digest_json c)]"
| "effect_intent_json (IntentFileDelete t) = JObj
     [(''kind'', JStr ''managed_file_delete''), (''target'', target_json t)]"
| "effect_intent_json (IntentSystemdUnit t a) = JObj
     [(''kind'', JStr ''systemd_unit''), (''target'', target_json t),
      (''action'', JStr (systemd_action_str a))]"
| "effect_intent_json (IntentManagerReload t) = JObj
     [(''kind'', JStr ''systemd_manager_reload''), (''target'', target_json t)]"

definition proposal_intent_json :: "proposal_intent \<Rightarrow> json" where
  "proposal_intent_json p = JObj
     [(''schema'', JStr (pi_schema p)), (''intent_id'', JStr (pi_intent_id p)),
      (''authority_domain'', domain_json (pi_authority_domain p)),
      (''epoch'', epoch_json (pi_epoch p)), (''proposer'', chain_json (pi_proposer p)),
      (''judgment'', digest_json (pi_judgment p)),
      (''admitted_artifacts'', JArr (map digest_json (pi_admitted_artifacts p))),
      (''effects'', JArr (map effect_intent_json (pi_effects p)))]"

definition judgment_subject_json :: "proposal_intent \<Rightarrow> json" where
  "judgment_subject_json p = JObj
     [(''schema'', JStr effect_schema),
      (''authority_domain'', domain_json (pi_authority_domain p)),
      (''epoch'', epoch_json (pi_epoch p)), (''proposer'', chain_json (pi_proposer p)),
      (''admitted_artifacts'', JArr (map digest_json (pi_admitted_artifacts p))),
      (''effects'', JArr (map effect_intent_json (pi_effects p)))]"

definition judgment_subject_digest :: "env \<Rightarrow> proposal_intent \<Rightarrow> effect_error + digest" where
  "judgment_subject_digest E p = digest_serializable E (judgment_subject_json p)"

fun object_format_str :: "git_object_format \<Rightarrow> string" where
  "object_format_str Sha1 = ''sha1''"
| "object_format_str Sha256 = ''sha256''"

fun family_str :: "effect_family \<Rightarrow> string" where
  "family_str CodePromotion = ''code_promotion''"
| "family_str ManagedFileFamily = ''managed_file''"
| "family_str SystemdFamily = ''systemd''"

subsection \<open>The trees determine the data\<close>

lemma u32_json_inject [simp]: "u32_json a = u32_json b \<longleftrightarrow> a = b"
  by (simp add: u32_json_def word_uint_eq_iff)

lemma domain_json_inject [simp]: "domain_json a = domain_json b \<longleftrightarrow> a = b"
  by (cases a; cases b) (simp add: domain_json_def)

lemma target_json_inject [simp]: "target_json a = target_json b \<longleftrightarrow> a = b"
  by (cases a; cases b) (simp add: target_json_def)

lemma option_json_inject [simp]:
  "option_json digest_json a = option_json digest_json b \<longleftrightarrow> a = b"
  by (cases a; cases b) (auto simp: option_json_def digest_json_def intro: digest.expand)

lemma action_str_inject [simp]: "systemd_action_str a = systemd_action_str b \<longleftrightarrow> a = b"
  by (cases a; cases b) simp_all

lemma object_format_str_inject [simp]: "object_format_str a = object_format_str b \<longleftrightarrow> a = b"
  by (cases a; cases b) simp_all

lemma family_str_inject [simp]: "family_str a = family_str b \<longleftrightarrow> a = b"
  by (cases a; cases b) simp_all

lemma effect_intent_json_inject [simp]: "effect_intent_json a = effect_intent_json b \<longleftrightarrow> a = b"
  by (cases a; cases b) simp_all

lemma kind_str_inject [simp]: "kind_str a = kind_str b \<longleftrightarrow> a = b"
  by (cases a; cases b) simp_all

lemma map_json_inject: "(\<And>x y. f x = f y \<longleftrightarrow> x = y) \<Longrightarrow> map f xs = map f ys \<longleftrightarrow> xs = ys"
  by (rule inj_map_eq_map) (simp add: inj_def)

lemmas map_digest_inject [simp] = map_json_inject [of digest_json, OF digest_json_inject]
lemmas map_intent_inject [simp] = map_json_inject [of effect_intent_json, OF effect_intent_json_inject]
lemmas map_target_inject [simp] = map_json_inject [of target_json, OF target_json_inject]

lemma principal_id_json_inject [simp]: "principal_id_json a = principal_id_json b \<longleftrightarrow> a = b"
  by (cases a; cases b) (simp add: principal_id_json_def)

lemma option_principal_json_inject [simp]:
  "option_json principal_id_json a = option_json principal_id_json b \<longleftrightarrow> a = b"
  by (cases a; cases b) (auto simp: option_json_def principal_id_json_def digest_json_def
      intro: principal_id.expand digest.expand)

lemma chain_node_json_inject [simp]: "chain_node_json a = chain_node_json b \<longleftrightarrow> a = b"
  by (auto simp: chain_node_json_def intro: principal_chain_node.equality)

lemmas map_node_inject [simp] = map_json_inject [of chain_node_json, OF chain_node_json_inject]

lemma chain_json_inject [simp]: "chain_json a = chain_json b \<longleftrightarrow> a = b"
  by (auto simp: chain_json_def intro: principal_chain.equality)

section \<open>Digests without collisions\<close>

text \<open>
  The canonical printer and SHA-256 tell the given trees apart: the only assumption under which
  a digest identifies what it was computed from.
\<close>

definition trees_no_collision :: "env \<Rightarrow> json set \<Rightarrow> bool" where
  "trees_no_collision E V \<longleftrightarrow>
     inj_on (\<lambda>v. case env_jcs_to_vec E v of Inr b \<Rightarrow> env_sha256 E b | Inl _ \<Rightarrow> []) V"

lemma trees_no_collision_subset: "trees_no_collision E V \<Longrightarrow> U \<subseteq> V \<Longrightarrow> trees_no_collision E U"
  unfolding trees_no_collision_def by (rule inj_on_subset)

lemma trees_no_collision_insert:
  "trees_no_collision E {v, w} \<longleftrightarrow> v = w \<or>
     (case env_jcs_to_vec E v of Inr b \<Rightarrow> env_sha256 E b | Inl _ \<Rightarrow> []) \<noteq>
     (case env_jcs_to_vec E w of Inr b \<Rightarrow> env_sha256 E b | Inl _ \<Rightarrow> [])"
  by (auto simp: trees_no_collision_def)

lemma digest_serializable_Ok_iff:
  "digest_serializable E v = Inr d \<longleftrightarrow> (\<exists>b. env_jcs_to_vec E v = Inr b \<and> d = hash_bytes E b)"
  by (auto simp: digest_serializable_def ag_check)

lemma digest_serializable_inject:
  assumes "codec_ok E" and "trees_no_collision E V" and "v \<in> V" and "w \<in> V"
    and "digest_serializable E v = Inr d" and "digest_serializable E w = Inr d"
  shows "v = w"
proof -
  from assms(5,6) obtain b c where "env_jcs_to_vec E v = Inr b" "env_jcs_to_vec E w = Inr c"
    and "hash_bytes E b = hash_bytes E c"
    by (auto simp: digest_serializable_Ok_iff)
  then have "(case env_jcs_to_vec E v of Inr b \<Rightarrow> env_sha256 E b | Inl _ \<Rightarrow> []) =
      (case env_jcs_to_vec E w of Inr b \<Rightarrow> env_sha256 E b | Inl _ \<Rightarrow> [])"
    using hex_encode_inject [OF assms(1)] by (simp add: hash_bytes_def)
  with assms(2-4) show ?thesis unfolding trees_no_collision_def inj_on_def by blast
qed

end
