(* ===== verification/AG_Candidate.thy ===== *)
theory AG_Candidate
  imports AG_Effect
begin

text \<open>
  \<open>crates/ag-effect/src/lib.rs\<close>, prepared managed-pointer candidates: the exact basis, the
  complete preparation inputs, the standing receipt, the declared preparation effects, the
  preparation receipt, the prepared candidate that binds them, its ratification and the typed
  promotion refusal.  Each identity is a validation followed by the canonical digest.
\<close>

section \<open>Records\<close>

record exact_basis =
  xb_schema :: string
  xb_authority_domain :: authority_domain_id
  xb_epoch :: epoch_id
  xb_target :: target_id
  xb_catalog_identity :: digest
  xb_security_profile_identity :: digest
  xb_reference :: string
  xb_repository_identity :: digest
  xb_prestate_identity :: digest
  xb_repository_device :: u64
  xb_repository_inode :: u64
  xb_git_directory_device :: u64
  xb_git_directory_inode :: u64
  xb_uid :: u32
  xb_gid :: u32
  xb_object_format :: git_object_format
  xb_current_object :: string
  xb_current_tree :: string

record complete_inputs =
  ci_schema :: string
  ci_exact_basis :: digest
  ci_artifact :: digest
  ci_artifact_byte_length :: u64
  ci_candidate_pack_digest :: digest
  ci_candidate_object :: string
  ci_candidate_tree :: string
  ci_candidate_parent :: string
  ci_staging_root :: string
  ci_helper_executable :: digest
  ci_helper_launch_profile :: digest
  ci_max_artifact_bytes :: u64
  ci_quarantine_budget_bytes :: u64

record standing_receipt =
  sr_schema :: string
  sr_authority_domain :: authority_domain_id
  sr_epoch :: epoch_id
  sr_target :: target_id
  sr_catalog_identity :: digest
  sr_security_profile_identity :: digest
  sr_issued_at_unix_ms :: u64
  sr_expires_at_unix_ms :: u64
  sr_max_artifact_bytes :: u64
  sr_quarantine_budget_bytes :: u64
  sr_nonce :: string

record preparation_effects =
  pe_schema :: string
  pe_candidate_custody_bytes :: u64
  pe_charged_quarantine_bytes :: u64
  pe_target_object_database_bytes :: u64
  pe_authoritative_pointer_writes :: u32
  pe_network_requests :: u32

record preparation_receipt =
  pr_schema :: string
  pr_standing :: digest
  pr_exact_basis :: digest
  pr_complete_inputs :: digest
  pr_artifact :: digest
  pr_protected_prestate :: digest
  pr_protected_poststate :: digest
  pr_effects :: preparation_effects

record prepared_candidate =
  pm_schema :: string
  pm_preparation_standing :: standing_receipt
  pm_exact_basis :: exact_basis
  pm_complete_inputs :: complete_inputs
  pm_preparation_receipt :: preparation_receipt

datatype ratification =
    HumanExact digest principal_chain string digest
  | BoundedMandate digest digest principal
  | DerivedCodePromotion digest digest digest digest principal_chain

fun ratification_proposal :: "ratification \<Rightarrow> digest" where
  "ratification_proposal (HumanExact p _ _ _) = p"
| "ratification_proposal (BoundedMandate _ p _) = p"
| "ratification_proposal (DerivedCodePromotion p _ _ _ _) = p"

record candidate_ratification =
  cf_schema :: string
  cf_proposal :: digest
  cf_candidate :: digest
  cf_exact_basis :: digest
  cf_complete_inputs :: digest
  cf_preparation_receipt :: digest
  cf_authorization :: digest

datatype promotion_refusal_code =
    CurrentBasisMismatch | CandidateBindingMismatch | StandingUnavailable

record promotion_refusal =
  rf_schema :: string
  rf_proposal :: digest
  rf_candidate :: digest
  rf_exact_basis :: digest
  rf_candidate_ratification :: candidate_ratification
  rf_attempted_authorization :: ratification
  rf_observed_at_unix_ms :: u64
  rf_code :: promotion_refusal_code
  rf_detail :: string

section \<open>JSON trees\<close>

definition exact_basis_json :: "exact_basis \<Rightarrow> json" where
  "exact_basis_json b = JObj
     [(''schema'', JStr (xb_schema b)), (''authority_domain'', domain_json (xb_authority_domain b)),
      (''epoch'', epoch_json (xb_epoch b)), (''target'', target_json (xb_target b)),
      (''catalog_identity'', digest_json (xb_catalog_identity b)),
      (''security_profile_identity'', digest_json (xb_security_profile_identity b)),
      (''reference'', JStr (xb_reference b)),
      (''repository_identity'', digest_json (xb_repository_identity b)),
      (''prestate_identity'', digest_json (xb_prestate_identity b)),
      (''repository_device'', u64_json (xb_repository_device b)),
      (''repository_inode'', u64_json (xb_repository_inode b)),
      (''git_directory_device'', u64_json (xb_git_directory_device b)),
      (''git_directory_inode'', u64_json (xb_git_directory_inode b)),
      (''uid'', u32_json (xb_uid b)), (''gid'', u32_json (xb_gid b)),
      (''object_format'', JStr (object_format_str (xb_object_format b))),
      (''current_object'', JStr (xb_current_object b)), (''current_tree'', JStr (xb_current_tree b))]"

definition complete_inputs_json :: "complete_inputs \<Rightarrow> json" where
  "complete_inputs_json i = JObj
     [(''schema'', JStr (ci_schema i)), (''exact_basis'', digest_json (ci_exact_basis i)),
      (''artifact'', digest_json (ci_artifact i)),
      (''artifact_byte_length'', u64_json (ci_artifact_byte_length i)),
      (''candidate_pack_digest'', digest_json (ci_candidate_pack_digest i)),
      (''candidate_object'', JStr (ci_candidate_object i)),
      (''candidate_tree'', JStr (ci_candidate_tree i)),
      (''candidate_parent'', JStr (ci_candidate_parent i)),
      (''staging_root'', JStr (ci_staging_root i)),
      (''helper_executable'', digest_json (ci_helper_executable i)),
      (''helper_launch_profile'', digest_json (ci_helper_launch_profile i)),
      (''max_artifact_bytes'', u64_json (ci_max_artifact_bytes i)),
      (''quarantine_budget_bytes'', u64_json (ci_quarantine_budget_bytes i))]"

definition standing_receipt_json :: "standing_receipt \<Rightarrow> json" where
  "standing_receipt_json r = JObj
     [(''schema'', JStr (sr_schema r)), (''authority_domain'', domain_json (sr_authority_domain r)),
      (''epoch'', epoch_json (sr_epoch r)), (''target'', target_json (sr_target r)),
      (''catalog_identity'', digest_json (sr_catalog_identity r)),
      (''security_profile_identity'', digest_json (sr_security_profile_identity r)),
      (''issued_at_unix_ms'', u64_json (sr_issued_at_unix_ms r)),
      (''expires_at_unix_ms'', u64_json (sr_expires_at_unix_ms r)),
      (''max_artifact_bytes'', u64_json (sr_max_artifact_bytes r)),
      (''quarantine_budget_bytes'', u64_json (sr_quarantine_budget_bytes r)),
      (''nonce'', JStr (sr_nonce r))]"

definition preparation_effects_json :: "preparation_effects \<Rightarrow> json" where
  "preparation_effects_json e = JObj
     [(''schema'', JStr (pe_schema e)),
      (''candidate_custody_bytes'', u64_json (pe_candidate_custody_bytes e)),
      (''charged_quarantine_bytes'', u64_json (pe_charged_quarantine_bytes e)),
      (''target_object_database_bytes'', u64_json (pe_target_object_database_bytes e)),
      (''authoritative_pointer_writes'', u32_json (pe_authoritative_pointer_writes e)),
      (''network_requests'', u32_json (pe_network_requests e))]"

definition preparation_receipt_json :: "preparation_receipt \<Rightarrow> json" where
  "preparation_receipt_json r = JObj
     [(''schema'', JStr (pr_schema r)), (''standing'', digest_json (pr_standing r)),
      (''exact_basis'', digest_json (pr_exact_basis r)),
      (''complete_inputs'', digest_json (pr_complete_inputs r)),
      (''artifact'', digest_json (pr_artifact r)),
      (''protected_prestate'', digest_json (pr_protected_prestate r)),
      (''protected_poststate'', digest_json (pr_protected_poststate r)),
      (''effects'', preparation_effects_json (pr_effects r))]"

definition prepared_candidate_json :: "prepared_candidate \<Rightarrow> json" where
  "prepared_candidate_json c = JObj
     [(''schema'', JStr (pm_schema c)),
      (''preparation_standing'', standing_receipt_json (pm_preparation_standing c)),
      (''exact_basis'', exact_basis_json (pm_exact_basis c)),
      (''complete_inputs'', complete_inputs_json (pm_complete_inputs c)),
      (''preparation_receipt'', preparation_receipt_json (pm_preparation_receipt c))]"

fun ratification_json :: "env \<Rightarrow> ratification \<Rightarrow> json" where
  "ratification_json E (HumanExact p r c s) = JObj
     [(''kind'', JStr ''human_exact''), (''proposal'', digest_json p), (''ratifier'', chain_json r),
      (''challenge'', JStr c), (''signed_request'', digest_json s)]"
| "ratification_json E (BoundedMandate m p a) = JObj
     [(''kind'', JStr ''bounded_mandate''), (''mandate'', digest_json m), (''proposal'', digest_json p),
      (''actor'', principal_json E a)]"
| "ratification_json E (DerivedCodePromotion p x l r a) = JObj
     [(''kind'', JStr ''derived_code_promotion''), (''proposal'', digest_json p),
      (''verifier_executable'', digest_json x), (''verifier_launch_profile'', digest_json l),
      (''verifier_receipt'', digest_json r), (''adapter'', chain_json a)]"

definition candidate_ratification_json :: "candidate_ratification \<Rightarrow> json" where
  "candidate_ratification_json r = JObj
     [(''schema'', JStr (cf_schema r)), (''proposal'', digest_json (cf_proposal r)),
      (''candidate'', digest_json (cf_candidate r)), (''exact_basis'', digest_json (cf_exact_basis r)),
      (''complete_inputs'', digest_json (cf_complete_inputs r)),
      (''preparation_receipt'', digest_json (cf_preparation_receipt r)),
      (''authorization'', digest_json (cf_authorization r))]"

fun refusal_code_str :: "promotion_refusal_code \<Rightarrow> string" where
  "refusal_code_str CurrentBasisMismatch = ''current_basis_mismatch''"
| "refusal_code_str CandidateBindingMismatch = ''candidate_binding_mismatch''"
| "refusal_code_str StandingUnavailable = ''standing_unavailable''"

definition promotion_refusal_json :: "env \<Rightarrow> promotion_refusal \<Rightarrow> json" where
  "promotion_refusal_json E r = JObj
     [(''schema'', JStr (rf_schema r)), (''proposal'', digest_json (rf_proposal r)),
      (''candidate'', digest_json (rf_candidate r)), (''exact_basis'', digest_json (rf_exact_basis r)),
      (''candidate_ratification'', candidate_ratification_json (rf_candidate_ratification r)),
      (''attempted_authorization'', ratification_json E (rf_attempted_authorization r)),
      (''observed_at_unix_ms'', u64_json (rf_observed_at_unix_ms r)),
      (''code'', JStr (refusal_code_str (rf_code r))), (''detail'', JStr (rf_detail r))]"

section \<open>Identities\<close>

definition basis_identity :: "env \<Rightarrow> exact_basis \<Rightarrow> effect_error + digest" where
  "basis_identity E b =
     (if xb_schema b \<noteq> exact_basis_schema \<or> xb_repository_inode b = 0 \<or>
         xb_git_directory_inode b = 0 \<or> xb_uid b = - 1 \<or> xb_gid b = - 1 \<or>
         \<not> is_canonical_git_reference (xb_reference b)
      then Err EeInvalidPreparedCandidate
      else res_bind (validate_git_object (xb_current_object b) (xb_object_format b)) (\<lambda>_.
           res_bind (validate_git_object (xb_current_tree b) (xb_object_format b)) (\<lambda>_.
           digest_serializable E (exact_basis_json b))))"

definition inputs_identity :: "env \<Rightarrow> complete_inputs \<Rightarrow> git_object_format \<Rightarrow> effect_error + digest" where
  "inputs_identity E i f =
     (if ci_schema i \<noteq> complete_inputs_schema \<or> ci_artifact_byte_length i = 0 \<or>
         ci_artifact_byte_length i > ci_max_artifact_bytes i \<or>
         ci_quarantine_budget_bytes i < ci_max_artifact_bytes i \<or>
         \<not> is_canonical_absolute_root (ci_staging_root i)
      then Err EeInvalidPreparedCandidate
      else res_bind (validate_git_object (ci_candidate_object i) f) (\<lambda>_.
           res_bind (validate_git_object (ci_candidate_tree i) f) (\<lambda>_.
           res_bind (validate_git_object (ci_candidate_parent i) f) (\<lambda>_.
           digest_serializable E (complete_inputs_json i)))))"

definition standing_identity :: "env \<Rightarrow> standing_receipt \<Rightarrow> effect_error + digest" where
  "standing_identity E r =
     (if sr_schema r \<noteq> preparation_standing_schema \<or> sr_nonce r = [] \<or>
         sr_max_artifact_bytes r = 0 \<or> sr_quarantine_budget_bytes r = 0 \<or>
         sr_issued_at_unix_ms r \<ge> sr_expires_at_unix_ms r
      then Err EeInvalidPreparedCandidate
      else digest_serializable E (standing_receipt_json r))"

definition preparation_effects_validate :: "preparation_effects \<Rightarrow> effect_error + unit" where
  "preparation_effects_validate e =
     (if pe_schema e \<noteq> preparation_effects_schema \<or> pe_candidate_custody_bytes e = 0 \<or>
         pe_charged_quarantine_bytes e < pe_candidate_custody_bytes e \<or>
         pe_target_object_database_bytes e \<noteq> 0 \<or> pe_authoritative_pointer_writes e \<noteq> 0 \<or>
         pe_network_requests e \<noteq> 0
      then Err EeInvalidPreparedCandidate else Ok ())"

definition receipt_identity :: "env \<Rightarrow> preparation_receipt \<Rightarrow> effect_error + digest" where
  "receipt_identity E r =
     res_bind (preparation_effects_validate (pr_effects r)) (\<lambda>_.
       if pr_schema r \<noteq> candidate_preparation_schema \<or>
          pr_protected_prestate r \<noteq> pr_protected_poststate r \<or>
          pr_protected_prestate r \<noteq> pr_exact_basis r
       then Err EeInvalidPreparedCandidate
       else digest_serializable E (preparation_receipt_json r))"

text \<open>The cross-record comparison of a candidate, given the three recomputed identities.\<close>

definition candidate_bindings_differ ::
  "prepared_candidate \<Rightarrow> digest \<Rightarrow> digest \<Rightarrow> digest \<Rightarrow> bool" where
  "candidate_bindings_differ c basis inputs standing \<longleftrightarrow>
     (let b = pm_exact_basis c; i = pm_complete_inputs c; s = pm_preparation_standing c;
          r = pm_preparation_receipt c
      in ci_exact_basis i \<noteq> basis \<or>
         sr_authority_domain s \<noteq> xb_authority_domain b \<or>
         sr_epoch s \<noteq> xb_epoch b \<or>
         sr_target s \<noteq> xb_target b \<or>
         sr_catalog_identity s \<noteq> xb_catalog_identity b \<or>
         sr_security_profile_identity s \<noteq> xb_security_profile_identity b \<or>
         sr_max_artifact_bytes s \<noteq> ci_max_artifact_bytes i \<or>
         sr_quarantine_budget_bytes s \<noteq> ci_quarantine_budget_bytes i \<or>
         pr_standing r \<noteq> standing \<or>
         ci_candidate_parent i \<noteq> xb_current_object b \<or>
         pr_exact_basis r \<noteq> basis \<or>
         pr_complete_inputs r \<noteq> inputs \<or>
         pr_artifact r \<noteq> ci_artifact i \<or>
         pe_candidate_custody_bytes (pr_effects r) \<noteq> ci_artifact_byte_length i \<or>
         pe_charged_quarantine_bytes (pr_effects r) > ci_quarantine_budget_bytes i)"

definition candidate_identity :: "env \<Rightarrow> prepared_candidate \<Rightarrow> effect_error + digest" where
  "candidate_identity E c =
     (if pm_schema c \<noteq> prepared_candidate_schema then Err EeInvalidPreparedCandidate
      else res_bind (basis_identity E (pm_exact_basis c)) (\<lambda>basis.
           res_bind (inputs_identity E (pm_complete_inputs c) (xb_object_format (pm_exact_basis c))) (\<lambda>inputs.
           res_bind (receipt_identity E (pm_preparation_receipt c)) (\<lambda>_.
           res_bind (standing_identity E (pm_preparation_standing c)) (\<lambda>standing.
           if candidate_bindings_differ c basis inputs standing
           then Err EePreparedCandidateBindingMismatch
           else digest_serializable E (prepared_candidate_json c))))))"

definition verify_bindings :: "env \<Rightarrow> candidate_ratification \<Rightarrow> digest \<Rightarrow> prepared_candidate \<Rightarrow> digest
    \<Rightarrow> effect_error + unit" where
  "verify_bindings E r proposal c authorization =
     res_bind (candidate_identity E c) (\<lambda>candidate.
     res_bind (basis_identity E (pm_exact_basis c)) (\<lambda>basis.
     res_bind (inputs_identity E (pm_complete_inputs c) (xb_object_format (pm_exact_basis c))) (\<lambda>inputs.
     res_bind (receipt_identity E (pm_preparation_receipt c)) (\<lambda>receipt.
       if cf_schema r \<noteq> candidate_ratification_schema \<or> cf_proposal r \<noteq> proposal \<or>
          cf_candidate r \<noteq> candidate \<or> cf_exact_basis r \<noteq> basis \<or>
          cf_complete_inputs r \<noteq> inputs \<or> cf_preparation_receipt r \<noteq> receipt \<or>
          cf_authorization r \<noteq> authorization
       then Err EeCandidateRatificationMismatch else Ok ()))))"

definition ratification_identity :: "env \<Rightarrow> candidate_ratification \<Rightarrow> effect_error + digest" where
  "ratification_identity E r =
     (if cf_schema r \<noteq> candidate_ratification_schema then Err EeCandidateRatificationMismatch
      else digest_serializable E (candidate_ratification_json r))"

definition refusal_identity :: "env \<Rightarrow> promotion_refusal \<Rightarrow> effect_error + digest" where
  "refusal_identity E r =
     res_bind (digest_serializable E (ratification_json E (rf_attempted_authorization r))) (\<lambda>authorization.
     res_bind (ratification_identity E (rf_candidate_ratification r)) (\<lambda>_.
       if rf_schema r \<noteq> promotion_refusal_schema \<or> rf_detail r = [] \<or> length (rf_detail r) > 512 \<or>
          ratification_proposal (rf_attempted_authorization r) \<noteq> rf_proposal r \<or>
          cf_proposal (rf_candidate_ratification r) \<noteq> rf_proposal r \<or>
          cf_candidate (rf_candidate_ratification r) \<noteq> rf_candidate r \<or>
          cf_exact_basis (rf_candidate_ratification r) \<noteq> rf_exact_basis r \<or>
          cf_authorization (rf_candidate_ratification r) \<noteq> authorization
       then Err EeCandidateRatificationMismatch
       else digest_serializable E (promotion_refusal_json E r)))"

section \<open>What an identity establishes\<close>

lemmas effect_checks = ag_check guard_Inr_iff

lemma basis_identity_Ok:
  "basis_identity E b = Inr d \<Longrightarrow> digest_serializable E (exact_basis_json b) = Inr d"
  by (simp add: basis_identity_def effect_checks)

lemma inputs_identity_Ok:
  "inputs_identity E i f = Inr d \<Longrightarrow>
     digest_serializable E (complete_inputs_json i) = Inr d \<and> ci_artifact_byte_length i \<noteq> 0 \<and>
     ci_artifact_byte_length i \<le> ci_max_artifact_bytes i \<and>
     ci_max_artifact_bytes i \<le> ci_quarantine_budget_bytes i \<and>
     is_canonical_absolute_root (ci_staging_root i)"
  by (simp add: inputs_identity_def effect_checks not_less)

lemma receipt_identity_Ok:
  "receipt_identity E r = Inr d \<Longrightarrow>
     digest_serializable E (preparation_receipt_json r) = Inr d \<and>
     pr_protected_prestate r = pr_exact_basis r \<and> pr_protected_poststate r = pr_exact_basis r \<and>
     pe_candidate_custody_bytes (pr_effects r) \<le> pe_charged_quarantine_bytes (pr_effects r) \<and>
     pe_target_object_database_bytes (pr_effects r) = 0 \<and>
     pe_authoritative_pointer_writes (pr_effects r) = 0 \<and> pe_network_requests (pr_effects r) = 0"
  by (auto simp: receipt_identity_def preparation_effects_validate_def effect_checks not_less)

lemma standing_identity_Ok:
  "standing_identity E r = Inr d \<Longrightarrow>
     digest_serializable E (standing_receipt_json r) = Inr d \<and>
     sr_issued_at_unix_ms r < sr_expires_at_unix_ms r"
  by (simp add: standing_identity_def effect_checks not_le)

lemma candidate_identity_Ok_iff:
  "candidate_identity E c = Inr d \<longleftrightarrow>
     pm_schema c = prepared_candidate_schema \<and>
     (\<exists>basis inputs receipt standing.
        basis_identity E (pm_exact_basis c) = Inr basis \<and>
        inputs_identity E (pm_complete_inputs c) (xb_object_format (pm_exact_basis c)) = Inr inputs \<and>
        receipt_identity E (pm_preparation_receipt c) = Inr receipt \<and>
        standing_identity E (pm_preparation_standing c) = Inr standing \<and>
        \<not> candidate_bindings_differ c basis inputs standing) \<and>
     digest_serializable E (prepared_candidate_json c) = Inr d"
  by (auto simp: candidate_identity_def effect_checks)

subsection \<open>Injective trees\<close>

lemma exact_basis_json_inject [simp]: "exact_basis_json a = exact_basis_json b \<longleftrightarrow> a = b"
  by (auto simp: exact_basis_json_def intro: exact_basis.equality)

lemma complete_inputs_json_inject [simp]: "complete_inputs_json a = complete_inputs_json b \<longleftrightarrow> a = b"
  by (auto simp: complete_inputs_json_def intro: complete_inputs.equality)

lemma standing_receipt_json_inject [simp]: "standing_receipt_json a = standing_receipt_json b \<longleftrightarrow> a = b"
  by (auto simp: standing_receipt_json_def intro: standing_receipt.equality)

lemma preparation_effects_json_inject [simp]:
  "preparation_effects_json a = preparation_effects_json b \<longleftrightarrow> a = b"
  by (auto simp: preparation_effects_json_def intro: preparation_effects.equality)

lemma preparation_receipt_json_inject [simp]:
  "preparation_receipt_json a = preparation_receipt_json b \<longleftrightarrow> a = b"
  by (auto simp: preparation_receipt_json_def intro: preparation_receipt.equality)

lemma prepared_candidate_json_inject [simp]:
  "prepared_candidate_json a = prepared_candidate_json b \<longleftrightarrow> a = b"
  by (auto simp: prepared_candidate_json_def intro: prepared_candidate.equality)

lemma verify_bindings_Ok:
  assumes "verify_bindings E r p c a = Inr ()"
  shows "cf_proposal r = p" and "cf_authorization r = a"
    and "digest_serializable E (prepared_candidate_json c) = Inr (cf_candidate r)"
    and "candidate_identity E c = Inr (cf_candidate r)"
  using assms by (auto simp: verify_bindings_def effect_checks candidate_identity_Ok_iff)

section \<open>A sample candidate\<close>

definition sample_digest :: "json \<Rightarrow> digest" where
  "sample_digest v = (case digest_serializable sample_env v of Inr d \<Rightarrow> d | Inl _ \<Rightarrow> Digest [])"

lemma sample_digest: "digest_serializable sample_env v = Inr (sample_digest v)"
proof -
  obtain b where "env_jcs_to_vec sample_env v = Inr b" using sample_to_vec_ok by blast
  then have "digest_serializable sample_env v = Inr (hash_bytes sample_env b)"
    by (simp add: digest_serializable_def)
  then show ?thesis by (simp add: sample_digest_def)
qed

definition sample_object :: "char \<Rightarrow> string" where
  "sample_object c = replicate 40 c"

lemma sample_object_valid [simp]:
  "c \<in> set ''0123456789abcdef'' \<Longrightarrow> validate_git_object (sample_object c) Sha1 = Inr ()"
  by (auto simp: validate_git_object_def sample_object_def list_all_iff is_lower_hex_def ascii_defs)

definition sample_basis :: exact_basis where
  "sample_basis = \<lparr>xb_schema = exact_basis_schema, xb_authority_domain = AuthorityDomainId ''d'',
     xb_epoch = EpochId 1, xb_target = TargetId ''t'', xb_catalog_identity = Digest ''c'',
     xb_security_profile_identity = Digest ''s'', xb_reference = ''refs/heads/m'',
     xb_repository_identity = Digest ''r'', xb_prestate_identity = Digest ''p'',
     xb_repository_device = 1, xb_repository_inode = 2, xb_git_directory_device = 1,
     xb_git_directory_inode = 3, xb_uid = 4, xb_gid = 5, xb_object_format = Sha1,
     xb_current_object = sample_object (CHR ''a''), xb_current_tree = sample_object (CHR ''b'')\<rparr>"

definition sample_inputs :: complete_inputs where
  "sample_inputs = \<lparr>ci_schema = complete_inputs_schema,
     ci_exact_basis = sample_digest (exact_basis_json sample_basis), ci_artifact = Digest ''x'',
     ci_artifact_byte_length = 6, ci_candidate_pack_digest = Digest ''k'',
     ci_candidate_object = sample_object (CHR ''c''), ci_candidate_tree = sample_object (CHR ''d''),
     ci_candidate_parent = sample_object (CHR ''a''), ci_staging_root = ''/q'',
     ci_helper_executable = Digest ''h'', ci_helper_launch_profile = Digest ''l'',
     ci_max_artifact_bytes = 7, ci_quarantine_budget_bytes = 9\<rparr>"

definition sample_standing :: standing_receipt where
  "sample_standing = \<lparr>sr_schema = preparation_standing_schema, sr_authority_domain = AuthorityDomainId ''d'',
     sr_epoch = EpochId 1, sr_target = TargetId ''t'', sr_catalog_identity = Digest ''c'',
     sr_security_profile_identity = Digest ''s'', sr_issued_at_unix_ms = 1, sr_expires_at_unix_ms = 9,
     sr_max_artifact_bytes = 7, sr_quarantine_budget_bytes = 9, sr_nonce = ''n''\<rparr>"

definition sample_receipt :: preparation_receipt where
  "sample_receipt = \<lparr>pr_schema = candidate_preparation_schema,
     pr_standing = sample_digest (standing_receipt_json sample_standing),
     pr_exact_basis = sample_digest (exact_basis_json sample_basis),
     pr_complete_inputs = sample_digest (complete_inputs_json sample_inputs),
     pr_artifact = Digest ''x'',
     pr_protected_prestate = sample_digest (exact_basis_json sample_basis),
     pr_protected_poststate = sample_digest (exact_basis_json sample_basis),
     pr_effects = \<lparr>pe_schema = preparation_effects_schema, pe_candidate_custody_bytes = 6,
       pe_charged_quarantine_bytes = 8, pe_target_object_database_bytes = 0,
       pe_authoritative_pointer_writes = 0, pe_network_requests = 0\<rparr>\<rparr>"

definition sample_candidate :: prepared_candidate where
  "sample_candidate = \<lparr>pm_schema = prepared_candidate_schema,
     pm_preparation_standing = sample_standing, pm_exact_basis = sample_basis,
     pm_complete_inputs = sample_inputs, pm_preparation_receipt = sample_receipt\<rparr>"

lemma sample_paths [simp]:
  "is_canonical_git_reference ''refs/heads/m''" "is_canonical_absolute_root ''/q''"
  by (code_simp, code_simp)

lemma sample_basis_identity:
  "basis_identity sample_env sample_basis = Inr (sample_digest (exact_basis_json sample_basis))"
  by (simp add: basis_identity_def sample_digest) (simp add: sample_basis_def)

lemma sample_inputs_identity:
  "inputs_identity sample_env sample_inputs Sha1 = Inr (sample_digest (complete_inputs_json sample_inputs))"
  by (simp add: inputs_identity_def sample_digest) (simp add: sample_inputs_def)

lemma sample_standing_identity:
  "standing_identity sample_env sample_standing =
     Inr (sample_digest (standing_receipt_json sample_standing))"
  by (simp add: standing_identity_def sample_digest) (simp add: sample_standing_def word_le_nat_alt)

lemma sample_receipt_identity:
  "receipt_identity sample_env sample_receipt =
     Inr (sample_digest (preparation_receipt_json sample_receipt))"
  by (simp add: receipt_identity_def preparation_effects_validate_def sample_digest)
    (simp add: sample_receipt_def)

lemma sample_candidate_identity:
  "candidate_identity sample_env sample_candidate =
     Inr (sample_digest (prepared_candidate_json sample_candidate))"
proof -
  have "\<not> candidate_bindings_differ sample_candidate (sample_digest (exact_basis_json sample_basis))
      (sample_digest (complete_inputs_json sample_inputs))
      (sample_digest (standing_receipt_json sample_standing))"
    by (simp add: candidate_bindings_differ_def Let_def sample_candidate_def)
      (simp add: sample_basis_def sample_inputs_def sample_standing_def sample_receipt_def)
  moreover have "pm_schema sample_candidate = prepared_candidate_schema"
    "pm_exact_basis sample_candidate = sample_basis"
    "pm_complete_inputs sample_candidate = sample_inputs"
    "pm_preparation_standing sample_candidate = sample_standing"
    "pm_preparation_receipt sample_candidate = sample_receipt"
    "xb_object_format sample_basis = Sha1"
    by (simp_all add: sample_candidate_def) (simp add: sample_basis_def)
  ultimately show ?thesis
    by (simp add: candidate_identity_def sample_basis_identity sample_inputs_identity
        sample_receipt_identity sample_standing_identity sample_digest)
qed

section \<open>Properties\<close>

text \<open>
  Preparation is bounded and leaves no trace.  A candidate that has an identity charges at
  least its custody bytes and at most the granted quarantine budget, its artifact is nonempty and
  within the granted maximum, it declares no write to the target object database, no pointer
  write and no network request, its protected state before and after is the identity of its exact
  basis, its only parent is the basis commit, and its standing window is nonempty.
\<close>

theorem candidate_preparation_bounded:
  assumes "candidate_identity E c = Ok d"
  shows "0 < unat (ci_artifact_byte_length (pm_complete_inputs c)) \<and>
    unat (ci_artifact_byte_length (pm_complete_inputs c)) \<le> unat (sr_max_artifact_bytes (pm_preparation_standing c)) \<and>
    unat (ci_artifact_byte_length (pm_complete_inputs c)) \<le>
      unat (pe_charged_quarantine_bytes (pr_effects (pm_preparation_receipt c))) \<and>
    unat (pe_charged_quarantine_bytes (pr_effects (pm_preparation_receipt c))) \<le>
      unat (sr_quarantine_budget_bytes (pm_preparation_standing c)) \<and>
    pe_target_object_database_bytes (pr_effects (pm_preparation_receipt c)) = 0 \<and>
    pe_authoritative_pointer_writes (pr_effects (pm_preparation_receipt c)) = 0 \<and>
    pe_network_requests (pr_effects (pm_preparation_receipt c)) = 0 \<and>
    basis_identity E (pm_exact_basis c) = Ok (pr_protected_prestate (pm_preparation_receipt c)) \<and>
    pr_protected_poststate (pm_preparation_receipt c) = pr_protected_prestate (pm_preparation_receipt c) \<and>
    ci_candidate_parent (pm_complete_inputs c) = xb_current_object (pm_exact_basis c) \<and>
    sr_issued_at_unix_ms (pm_preparation_standing c) < sr_expires_at_unix_ms (pm_preparation_standing c)"
proof -
  from assms obtain basis inputs receipt standing where
    ids: "basis_identity E (pm_exact_basis c) = Inr basis"
      "inputs_identity E (pm_complete_inputs c) (xb_object_format (pm_exact_basis c)) = Inr inputs"
      "receipt_identity E (pm_preparation_receipt c) = Inr receipt"
      "standing_identity E (pm_preparation_standing c) = Inr standing"
    and same: "\<not> candidate_bindings_differ c basis inputs standing"
    by (auto simp: candidate_identity_Ok_iff)
  from same inputs_identity_Ok [OF ids(2)] receipt_identity_Ok [OF ids(3)]
    standing_identity_Ok [OF ids(4)] ids(1)
  show ?thesis by (simp add: candidate_bindings_differ_def Let_def word_le_nat_alt unat_gt_0 not_less)
qed

theorem candidate_preparation_bounded_witness:
  "candidate_identity sample_env sample_candidate =
     Ok (sample_digest (prepared_candidate_json sample_candidate)) \<and>
   unat (pe_charged_quarantine_bytes (pr_effects (pm_preparation_receipt sample_candidate))) \<le> 9"
  using candidate_preparation_bounded [OF sample_candidate_identity] sample_candidate_identity
  by (simp add: sample_candidate_def sample_standing_def)

text \<open>
  C5: a candidate ratification cannot be carried over.  If one ratification record verifies
  against two presentations of proposal, prepared candidate and authorization, the two are
  identical in all three, down to every field of the candidate's basis, inputs, standing and
  receipt, provided the printer and SHA-256 tell the two candidates' trees apart.
\<close>

theorem ratification_not_transportable:
  assumes "codec_ok E"
    and "trees_no_collision E {prepared_candidate_json c, prepared_candidate_json c'}"
    and "verify_bindings E r p c a = Ok ()" and "verify_bindings E r p' c' a' = Ok ()"
  shows "p = p' \<and> c = c' \<and> a = a'"
proof -
  have "prepared_candidate_json c = prepared_candidate_json c'"
    by (rule digest_serializable_inject [OF assms(1,2) _ _ verify_bindings_Ok(3) [OF assms(3)]
          verify_bindings_Ok(3) [OF assms(4)]]) simp_all
  with verify_bindings_Ok(1,2) [OF assms(3)] verify_bindings_Ok(1,2) [OF assms(4)]
  show ?thesis by simp
qed

definition sample_ratification :: candidate_ratification where
  "sample_ratification = \<lparr>cf_schema = candidate_ratification_schema, cf_proposal = Digest ''p'',
     cf_candidate = sample_digest (prepared_candidate_json sample_candidate),
     cf_exact_basis = sample_digest (exact_basis_json sample_basis),
     cf_complete_inputs = sample_digest (complete_inputs_json sample_inputs),
     cf_preparation_receipt = sample_digest (preparation_receipt_json sample_receipt),
     cf_authorization = Digest ''a''\<rparr>"

lemma sample_ratification_ok:
  "verify_bindings sample_env sample_ratification (Digest ''p'') sample_candidate (Digest ''a'') = Inr ()"
proof -
  have "pm_exact_basis sample_candidate = sample_basis"
    "pm_complete_inputs sample_candidate = sample_inputs"
    "pm_preparation_receipt sample_candidate = sample_receipt"
    "xb_object_format sample_basis = Sha1"
    by (simp_all add: sample_candidate_def) (simp add: sample_basis_def)
  then show ?thesis
    by (simp add: verify_bindings_def sample_candidate_identity sample_basis_identity
        sample_inputs_identity sample_receipt_identity)
      (simp add: sample_ratification_def)
qed

theorem ratification_not_transportable_witness:
  "verify_bindings sample_env sample_ratification (Digest ''p'') sample_candidate (Digest ''a'') = Ok () \<and>
   verify_bindings sample_env sample_ratification (Digest ''z'') sample_candidate (Digest ''a'') \<noteq> Ok ()"
  using ratification_not_transportable [OF sample_env_ok _ sample_ratification_ok,
      of sample_candidate "Digest ''z''" "Digest ''a''"] sample_ratification_ok
  by (auto simp: trees_no_collision_def)

end
