(* ===== verification/AG_Proposal.thy ===== *)
theory AG_Proposal
  imports AG_Effect
begin

text \<open>
  The durable proposal lifecycle of \<open>crates/ag-effect/src/lib.rs\<close> (\<open>ProposalStateV1::apply\<close>):
  authority is burned before anything runs, code promotion must pass a preparation checkpoint,
  and no edge retries.  The lifecycle is a ranked one, so the shared lemmas bound every run; the
  histories that reach each state are computed backwards from the state.
\<close>

definition proposal_apply :: "proposal_state \<Rightarrow> proposal_event \<Rightarrow> effect_error + proposal_state" where
  "proposal_apply s e =
     (let invalid = Err (EeInvalidTransition s e) in
      case s of
        Received \<Rightarrow> (case e of
            Compiled p \<Rightarrow> Ok (Ready p)
          | RefusedEvent r \<Rightarrow> Ok (RefusedState r)
          | IndeterminateEvent v \<Rightarrow> Ok (IndeterminateState v)
          | _ \<Rightarrow> invalid)
      | Ready expected \<Rightarrow> (case e of
            BurnAuthorization p a f \<Rightarrow>
              if expected = p then Ok (AuthorizationBurned p a f) else invalid
          | _ \<Rightarrow> invalid)
      | AuthorizationBurned p a f \<Rightarrow> (case e of
            BeginPreparation x \<Rightarrow> if f = CodePromotion then Ok (Preparing p x) else invalid
          | BeginExecution x \<Rightarrow> if f \<noteq> CodePromotion then Ok (Executing p x None) else invalid
          | ExecutionAbandoned r \<Rightarrow> Ok (Failed r)
          | _ \<Rightarrow> invalid)
      | Preparing p x \<Rightarrow> (case e of
            CommitMayProceed k \<Rightarrow> Ok (Executing p x (Some k))
          | PreparationFailed r \<Rightarrow> Ok (Failed r)
          | PreparationAbandoned r \<Rightarrow> Ok (Failed r)
          | PreparationIndeterminate v \<Rightarrow> Ok (ReconciliationRequired v)
          | _ \<Rightarrow> invalid)
      | Executing p x k \<Rightarrow> (case e of
            ExecutionFailed r \<Rightarrow> Ok (Failed r)
          | ExecutionIndeterminate v \<Rightarrow> Ok (ReconciliationRequired v)
          | ExecutionSucceeded r \<Rightarrow> Ok (Succeeded r)
          | _ \<Rightarrow> invalid)
      | ReconciliationRequired v \<Rightarrow> (case e of
            ReconciledEvent r \<Rightarrow> Ok (ReconciledState r)
          | _ \<Rightarrow> invalid)
      | _ \<Rightarrow> invalid)"

text \<open>The edges of the lifecycle, as a relation.\<close>

inductive proposal_edge :: "proposal_state \<Rightarrow> proposal_event \<Rightarrow> proposal_state \<Rightarrow> bool" where
  compiled: "proposal_edge Received (Compiled p) (Ready p)"
| refused: "proposal_edge Received (RefusedEvent r) (RefusedState r)"
| indeterminate: "proposal_edge Received (IndeterminateEvent v) (IndeterminateState v)"
| burn: "proposal_edge (Ready p) (BurnAuthorization p a f) (AuthorizationBurned p a f)"
| prepare: "proposal_edge (AuthorizationBurned p a CodePromotion) (BeginPreparation x) (Preparing p x)"
| execute: "f \<noteq> CodePromotion \<Longrightarrow>
    proposal_edge (AuthorizationBurned p a f) (BeginExecution x) (Executing p x None)"
| abandon: "proposal_edge (AuthorizationBurned p a f) (ExecutionAbandoned r) (Failed r)"
| checkpoint: "proposal_edge (Preparing p x) (CommitMayProceed k) (Executing p x (Some k))"
| prep_failed: "proposal_edge (Preparing p x) (PreparationFailed r) (Failed r)"
| prep_abandoned: "proposal_edge (Preparing p x) (PreparationAbandoned r) (Failed r)"
| prep_unknown: "proposal_edge (Preparing p x) (PreparationIndeterminate v) (ReconciliationRequired v)"
| exec_failed: "proposal_edge (Executing p x k) (ExecutionFailed r) (Failed r)"
| exec_unknown: "proposal_edge (Executing p x k) (ExecutionIndeterminate v) (ReconciliationRequired v)"
| exec_done: "proposal_edge (Executing p x k) (ExecutionSucceeded r) (Succeeded r)"
| reconciled: "proposal_edge (ReconciliationRequired v) (ReconciledEvent r) (ReconciledState r)"

inductive_cases proposal_edgeE: "proposal_edge s e t"

inductive_simps proposal_edge_into:
  "proposal_edge s e Received" "proposal_edge s e (Ready p)" "proposal_edge s e (AuthorizationBurned p a f)"
  "proposal_edge s e (Preparing p x)" "proposal_edge s e (Executing p x k)"
  "proposal_edge s e (Succeeded r)"

lemma proposal_apply_iff: "proposal_apply s e = Inr t \<longleftrightarrow> proposal_edge s e t"
proof
  show "proposal_edge s e t" if "proposal_apply s e = Inr t"
    using that by (cases s; cases e)
      (auto simp: proposal_apply_def intro: proposal_edge.intros split: if_splits)
  show "proposal_apply s e = Inr t" if "proposal_edge s e t"
    using that by cases (simp_all add: proposal_apply_def)
qed

section \<open>The lifecycle is ranked\<close>

fun proposal_terminal :: "proposal_state \<Rightarrow> bool" where
  "proposal_terminal (RefusedState _) = True"
| "proposal_terminal (IndeterminateState _) = True"
| "proposal_terminal (Succeeded _) = True"
| "proposal_terminal (Failed _) = True"
| "proposal_terminal (ReconciledState _) = True"
| "proposal_terminal _ = False"

fun proposal_rank :: "proposal_state \<Rightarrow> nat" where
  "proposal_rank Received = 0"
| "proposal_rank (Ready _) = 1"
| "proposal_rank (AuthorizationBurned _ _ _) = 2"
| "proposal_rank (Preparing _ _) = 3"
| "proposal_rank (Executing _ _ _) = 4"
| "proposal_rank (ReconciliationRequired _) = 5"
| "proposal_rank _ = 6"

fun is_burn :: "proposal_event \<Rightarrow> bool" where
  "is_burn (BurnAuthorization _ _ _) = True"
| "is_burn _ = False"

fun is_begin :: "proposal_event \<Rightarrow> bool" where
  "is_begin (BeginPreparation _) = True"
| "is_begin (BeginExecution _) = True"
| "is_begin _ = False"

interpretation proposal: ranked_lifecycle proposal_apply proposal_terminal proposal_rank 6
proof unfold_locales
  show "proposal_terminal s \<Longrightarrow> \<not> is_ok (proposal_apply s e)" for s e
    by (cases s) (simp_all add: proposal_apply_def)
  show "proposal_apply s e = Inr s' \<Longrightarrow> proposal_rank s < proposal_rank s'" for s e s'
    unfolding proposal_apply_iff by (erule proposal_edgeE) simp_all
  show "proposal_rank s \<le> 6" for s
    by (cases s) simp_all
qed

section \<open>Histories\<close>

abbreviation history :: "proposal_event list \<Rightarrow> proposal_state \<Rightarrow> bool" where
  "history es t \<equiv> run_events proposal_apply Received es = Inr t"

lemma history_Received: "history es Received \<longleftrightarrow> es = []"
  by (rule iffI, subst (asm) run_events_last)
    (auto simp: proposal_apply_iff proposal_edge_into  simp del: run_events.simps,
     auto simp: proposal_apply_def)

lemma history_Ready: "history es (Ready p) \<longleftrightarrow> es = [Compiled p]"
  by (rule iffI, subst (asm) run_events_last)
    (auto simp: proposal_apply_iff proposal_edge_into history_Received simp del: run_events.simps,
     auto simp: proposal_apply_def)

lemma history_Burned:
  "history es (AuthorizationBurned p a f) \<longleftrightarrow> es = [Compiled p, BurnAuthorization p a f]"
  by (rule iffI, subst (asm) run_events_last)
    (auto simp: proposal_apply_iff proposal_edge_into history_Ready simp del: run_events.simps,
     auto simp: proposal_apply_def)

lemma history_Preparing:
  "history es (Preparing p x) \<longleftrightarrow>
     (\<exists>a. es = [Compiled p, BurnAuthorization p a CodePromotion, BeginPreparation x])"
  by (rule iffI, subst (asm) run_events_last)
    (auto simp: proposal_apply_iff proposal_edge_into history_Burned simp del: run_events.simps,
     auto simp: proposal_apply_def)

lemma history_Executing:
  "history es (Executing p x k) \<longleftrightarrow>
     (\<exists>a f. k = None \<and> f \<noteq> CodePromotion \<and>
        es = [Compiled p, BurnAuthorization p a f, BeginExecution x]) \<or>
     (\<exists>a c. k = Some c \<and>
        es = [Compiled p, BurnAuthorization p a CodePromotion, BeginPreparation x, CommitMayProceed c])"
  by (rule iffI, subst (asm) run_events_last)
    (auto simp: proposal_apply_iff proposal_edge_into history_Burned history_Preparing simp del: run_events.simps,
     auto simp: proposal_apply_def)

section \<open>Properties\<close>

text \<open>
  C23: the only road to success.  A proposal reaches its success state exactly along a history
  that compiles it, burns an authorization for that same digest, begins one attempt and succeeds;
  for code promotion the attempt is a preparation followed by a commit checkpoint, and for every
  other family it is a direct execution.
\<close>

theorem proposal_success_history:
  "run_events proposal_apply Received es = Ok (Succeeded r) \<longleftrightarrow>
     (\<exists>p a f x. f \<noteq> CodePromotion \<and>
        es = [Compiled p, BurnAuthorization p a f, BeginExecution x, ExecutionSucceeded r]) \<or>
     (\<exists>p a x c. es = [Compiled p, BurnAuthorization p a CodePromotion, BeginPreparation x,
        CommitMayProceed c, ExecutionSucceeded r])"
  by (rule iffI, subst (asm) run_events_last)
    (auto simp: proposal_apply_iff proposal_edge_into history_Executing simp del: run_events.simps,
     auto simp: proposal_apply_def)

text \<open>
  C24: no retry.  From any state, an accepted sequence of events has at most six events, burns at
  most one authorization and begins at most one attempt, and once a terminal state is reached
  every further event is refused with the unchanged state and event in the error.
\<close>

theorem proposal_no_retry:
  assumes "run_events proposal_apply s es = Ok t"
  shows "length es \<le> 6 \<and> length (filter is_burn es) \<le> 1 \<and> length (filter is_begin es) \<le> 1 \<and>
    (proposal_terminal t \<longrightarrow> proposal_apply t e = Err (EeInvalidTransition t e))"
proof -
  have "proposal_rank u = 1" if "is_burn f" and "proposal_apply u f = Inr v" for f u v
    using that unfolding proposal_apply_iff by (auto elim: proposal_edgeE)
  moreover have "proposal_rank u = 2" if "is_begin f" and "proposal_apply u f = Inr v" for f u v
    using that unfolding proposal_apply_iff by (auto elim: proposal_edgeE)
  moreover have "proposal_apply t e = Inl (EeInvalidTransition t e)" if "proposal_terminal t"
    using that by (cases t) (simp_all add: proposal_apply_def)
  ultimately show ?thesis
    using proposal.run_length_bound [OF assms] proposal.events_once [OF assms, of is_burn 1]
      proposal.events_once [OF assms, of is_begin 2] by blast
qed

theorem proposal_no_retry_witness:
  "proposal_apply (Failed (Digest ''r'')) (BurnAuthorization (Digest ''p'') (Digest ''b'') SystemdFamily) =
     Err (EeInvalidTransition (Failed (Digest ''r''))
       (BurnAuthorization (Digest ''p'') (Digest ''b'') SystemdFamily))"
  using proposal_no_retry [of Received "[Compiled (Digest ''p''),
      BurnAuthorization (Digest ''p'') (Digest ''a'') SystemdFamily, BeginExecution (Digest ''x''),
      ExecutionFailed (Digest ''r'')]" "Failed (Digest ''r'')"
      "BurnAuthorization (Digest ''p'') (Digest ''b'') SystemdFamily"]
  by (simp add: proposal_apply_def)

end
