(* ===== verification/AG_Compile.thy ===== *)
theory AG_Compile
  imports AG_Candidate
begin

text \<open>
  The canonical effect compiler of \<open>crates/ag-effect/src/lib.rs\<close>: \<open>CanonicalEffectV1\<close>, the
  canonical proposal with its digest check, and \<open>EffectCompilerV1::compile\<close> with \<open>compile_one\<close>.
  The compiler is the only producer of canonical proposals; the properties say what a produced
  proposal is known to be bound to.
\<close>

section \<open>Canonical effects\<close>

record promotion_effect =
  mp_schema :: string
  mp_operation_id :: digest
  mp_prepared_candidate :: digest
  mp_exact_basis :: digest
  mp_complete_inputs :: digest
  mp_candidate_preparation_receipt :: digest
  mp_target :: target_id
  mp_allowed_root :: string
  mp_repository :: string
  mp_reference :: string
  mp_repository_identity :: digest
  mp_prestate_identity :: digest
  mp_repository_device :: u64
  mp_repository_inode :: u64
  mp_git_directory_device :: u64
  mp_git_directory_inode :: u64
  mp_uid :: u32
  mp_gid :: u32
  mp_staging_root :: string
  mp_artifact :: digest
  mp_candidate_pack_digest :: digest
  mp_object_format :: git_object_format
  mp_expected_object :: string
  mp_expected_tree :: string
  mp_new_object :: string
  mp_expected_post_tree :: string
  mp_expires_unix_ms :: u64
  mp_helper_executable :: digest
  mp_helper_launch_profile :: digest

record file_put_effect =
  fp_target :: target_id
  fp_path :: string
  fp_expected_content :: "digest option"
  fp_content :: digest
  fp_mode :: u32
  fp_uid :: u32
  fp_gid :: u32

datatype canonical_effect =
    EffPromotion promotion_effect
  | EffFilePut file_put_effect
  | EffFileDelete target_id string digest
  | EffSystemdUnit target_id string systemd_unit_action string string
  | EffManagerReload target_id string u64

fun effect_family_of :: "canonical_effect \<Rightarrow> effect_family" where
  "effect_family_of (EffPromotion _) = CodePromotion"
| "effect_family_of (EffFilePut _) = ManagedFileFamily"
| "effect_family_of (EffFileDelete _ _ _) = ManagedFileFamily"
| "effect_family_of (EffSystemdUnit _ _ _ _ _) = SystemdFamily"
| "effect_family_of (EffManagerReload _ _ _) = SystemdFamily"

fun effect_target :: "canonical_effect \<Rightarrow> target_id" where
  "effect_target (EffPromotion e) = mp_target e"
| "effect_target (EffFilePut e) = fp_target e"
| "effect_target (EffFileDelete t _ _) = t"
| "effect_target (EffSystemdUnit t _ _ _ _) = t"
| "effect_target (EffManagerReload t _ _) = t"

record proposal_body =
  cb_schema :: string
  cb_proposal_id :: string
  cb_intent_digest :: digest
  cb_governor_authentication :: digest
  cb_authority_domain :: authority_domain_id
  cb_epoch :: epoch_id
  cb_compiled_at_unix_ms :: u64
  cb_proposer :: principal_chain
  cb_catalog_schema :: string
  cb_catalog_identity :: digest
  cb_security_profile_identity :: digest
  cb_judgment :: digest
  cb_effects :: "canonical_effect list"

record canonical_proposal =
  cp_digest :: digest
  cp_body :: proposal_body

subsection \<open>JSON trees\<close>

definition promotion_effect_json :: "promotion_effect \<Rightarrow> json" where
  "promotion_effect_json e = JObj
     [(''kind'', JStr ''managed_pointer_promotion''), (''schema'', JStr (mp_schema e)),
      (''operation_id'', digest_json (mp_operation_id e)),
      (''prepared_candidate'', digest_json (mp_prepared_candidate e)),
      (''exact_basis'', digest_json (mp_exact_basis e)),
      (''complete_inputs'', digest_json (mp_complete_inputs e)),
      (''candidate_preparation_receipt'', digest_json (mp_candidate_preparation_receipt e)),
      (''target'', target_json (mp_target e)), (''allowed_root'', JStr (mp_allowed_root e)),
      (''repository'', JStr (mp_repository e)), (''reference'', JStr (mp_reference e)),
      (''repository_identity'', digest_json (mp_repository_identity e)),
      (''prestate_identity'', digest_json (mp_prestate_identity e)),
      (''repository_device'', u64_json (mp_repository_device e)),
      (''repository_inode'', u64_json (mp_repository_inode e)),
      (''git_directory_device'', u64_json (mp_git_directory_device e)),
      (''git_directory_inode'', u64_json (mp_git_directory_inode e)),
      (''uid'', u32_json (mp_uid e)), (''gid'', u32_json (mp_gid e)),
      (''staging_root'', JStr (mp_staging_root e)), (''artifact'', digest_json (mp_artifact e)),
      (''candidate_pack_digest'', digest_json (mp_candidate_pack_digest e)),
      (''object_format'', JStr (object_format_str (mp_object_format e))),
      (''expected_object'', JStr (mp_expected_object e)), (''expected_tree'', JStr (mp_expected_tree e)),
      (''new_object'', JStr (mp_new_object e)), (''expected_post_tree'', JStr (mp_expected_post_tree e)),
      (''expires_unix_ms'', u64_json (mp_expires_unix_ms e)),
      (''helper_executable'', digest_json (mp_helper_executable e)),
      (''helper_launch_profile'', digest_json (mp_helper_launch_profile e))]"

fun canonical_effect_json :: "canonical_effect \<Rightarrow> json" where
  "canonical_effect_json (EffPromotion e) = promotion_effect_json e"
| "canonical_effect_json (EffFilePut e) = JObj
     [(''kind'', JStr ''managed_file_put''), (''target'', target_json (fp_target e)),
      (''path'', JStr (fp_path e)),
      (''expected_content'', option_json digest_json (fp_expected_content e)),
      (''content'', digest_json (fp_content e)), (''mode'', u32_json (fp_mode e)),
      (''uid'', u32_json (fp_uid e)), (''gid'', u32_json (fp_gid e))]"
| "canonical_effect_json (EffFileDelete t p c) = JObj
     [(''kind'', JStr ''managed_file_delete''), (''target'', target_json t), (''path'', JStr p),
      (''expected_content'', digest_json c)]"
| "canonical_effect_json (EffSystemdUnit t u a s f) = JObj
     [(''kind'', JStr ''systemd_unit''), (''target'', target_json t), (''unit'', JStr u),
      (''action'', JStr (systemd_action_str a)), (''expected_active_state'', JStr s),
      (''expected_unit_file_state'', JStr f)]"
| "canonical_effect_json (EffManagerReload t m g) = JObj
     [(''kind'', JStr ''systemd_manager_reload''), (''target'', target_json t),
      (''machine_identity'', JStr m), (''expected_generation'', u64_json g)]"

definition body_json :: "proposal_body \<Rightarrow> json" where
  "body_json b = JObj
     [(''schema'', JStr (cb_schema b)), (''proposal_id'', JStr (cb_proposal_id b)),
      (''intent_digest'', digest_json (cb_intent_digest b)),
      (''governor_authentication'', digest_json (cb_governor_authentication b)),
      (''authority_domain'', domain_json (cb_authority_domain b)), (''epoch'', epoch_json (cb_epoch b)),
      (''compiled_at_unix_ms'', u64_json (cb_compiled_at_unix_ms b)),
      (''proposer'', chain_json (cb_proposer b)), (''catalog_schema'', JStr (cb_catalog_schema b)),
      (''catalog_identity'', digest_json (cb_catalog_identity b)),
      (''security_profile_identity'', digest_json (cb_security_profile_identity b)),
      (''judgment'', digest_json (cb_judgment b)),
      (''effects'', JArr (map canonical_effect_json (cb_effects b)))]"

definition proposal_verify_digest :: "env \<Rightarrow> canonical_proposal \<Rightarrow> effect_error + unit" where
  "proposal_verify_digest E p =
     res_bind (digest_serializable E (body_json (cp_body p))) (\<lambda>d.
       if d \<noteq> cp_digest p then Err EeCanonicalDigestMismatch else Ok ())"

section \<open>Compilation\<close>

record effect_compiler =
  co_catalog :: effect_catalog
  co_security_profile_identity :: digest

record compilation_cut =
  cc_compiled_at_unix_ms :: u64
  cc_observations :: "(target_id, target_observation) btree_map"
  cc_prepared_candidates :: "(target_id, prepared_candidate) btree_map"

record compile_one_context =
  cx_prepared_candidate :: "prepared_candidate option"
  cx_authority_domain :: authority_domain_id
  cx_epoch :: epoch_id
  cx_catalog_identity :: digest
  cx_security_profile_identity :: digest
  cx_operation_id :: "digest option"
  cx_compiled_at_unix_ms :: u64

text \<open>The comparison of the prepared candidate with the intent, the catalog and the live observation.\<close>

definition promotion_bindings_differ :: "target_id \<Rightarrow> digest \<Rightarrow> pointer_definition \<Rightarrow> pointer_observation
    \<Rightarrow> compile_one_context \<Rightarrow> prepared_candidate \<Rightarrow> digest \<Rightarrow> bool" where
  "promotion_bindings_differ target artifact d ob x c basis_id \<longleftrightarrow>
     (let basis = pm_exact_basis c; inputs = pm_complete_inputs c; standing = pm_preparation_standing c
      in xb_authority_domain basis \<noteq> cx_authority_domain x \<or>
         xb_epoch basis \<noteq> cx_epoch x \<or>
         xb_target basis \<noteq> target \<or>
         xb_catalog_identity basis \<noteq> cx_catalog_identity x \<or>
         xb_security_profile_identity basis \<noteq> cx_security_profile_identity x \<or>
         xb_reference basis \<noteq> pd_reference d \<or>
         xb_repository_identity basis \<noteq> po_repository_identity ob \<or>
         xb_prestate_identity basis \<noteq> po_prestate_identity ob \<or>
         xb_repository_device basis \<noteq> po_repository_device ob \<or>
         xb_repository_inode basis \<noteq> po_repository_inode ob \<or>
         xb_git_directory_device basis \<noteq> po_git_directory_device ob \<or>
         xb_git_directory_inode basis \<noteq> po_git_directory_inode ob \<or>
         xb_uid basis \<noteq> po_repository_uid ob \<or>
         xb_gid basis \<noteq> po_repository_gid ob \<or>
         xb_object_format basis \<noteq> po_object_format ob \<or>
         xb_current_object basis \<noteq> po_current_object ob \<or>
         xb_current_tree basis \<noteq> po_current_tree ob \<or>
         ci_exact_basis inputs \<noteq> basis_id \<or>
         ci_artifact inputs \<noteq> artifact \<or>
         ci_candidate_pack_digest inputs \<noteq> po_candidate_pack_digest ob \<or>
         ci_candidate_object inputs \<noteq> po_candidate_object ob \<or>
         ci_candidate_tree inputs \<noteq> po_candidate_tree ob \<or>
         ci_candidate_parent inputs \<noteq> po_candidate_parent ob \<or>
         ci_staging_root inputs \<noteq> pd_staging_root d \<or>
         ci_helper_executable inputs \<noteq> pd_helper_executable d \<or>
         ci_helper_launch_profile inputs \<noteq> pd_helper_launch_profile d \<or>
         cx_compiled_at_unix_ms x < sr_issued_at_unix_ms standing \<or>
         cx_compiled_at_unix_ms x \<ge> sr_expires_at_unix_ms standing)"

definition compile_promotion :: "env \<Rightarrow> target_id \<Rightarrow> digest \<Rightarrow> pointer_definition \<Rightarrow> pointer_observation
    \<Rightarrow> compile_one_context \<Rightarrow> effect_error + canonical_effect" where
  "compile_promotion E target artifact d ob x =
     res_bind (ok_or (EeMissingPreparedCandidate target) (cx_prepared_candidate x)) (\<lambda>c.
     res_bind (candidate_identity E c) (\<lambda>candidate_id.
     res_bind (basis_identity E (pm_exact_basis c)) (\<lambda>basis_id.
     res_bind (inputs_identity E (pm_complete_inputs c) (po_object_format ob)) (\<lambda>inputs_id.
     res_bind (receipt_identity E (pm_preparation_receipt c)) (\<lambda>receipt_id.
     if pd_repository_identity d \<noteq> po_repository_identity ob \<or> pd_uid d \<noteq> po_repository_uid ob \<or>
        pd_gid d \<noteq> po_repository_gid ob \<or> po_repository_inode ob = 0 \<or> po_git_directory_inode ob = 0
     then Err (EeTargetIdentityMismatch target)
     else if \<not> po_clean ob then Err (EePromotionTargetDirty target)
     else if po_reference_checked_out ob then Err (EePromotionReferenceCheckedOut target)
     else
     res_bind (validate_git_object (po_current_object ob) (po_object_format ob)) (\<lambda>_.
     res_bind (validate_git_object (po_current_tree ob) (po_object_format ob)) (\<lambda>_.
     res_bind (validate_git_object (po_candidate_object ob) (po_object_format ob)) (\<lambda>_.
     res_bind (validate_git_object (po_candidate_tree ob) (po_object_format ob)) (\<lambda>_.
     res_bind (validate_git_object (po_candidate_parent ob) (po_object_format ob)) (\<lambda>_.
     if po_candidate_parent ob \<noteq> po_current_object ob then Err (EePromotionBaseMismatch target)
     else if \<not> is_canonical_absolute_root (pd_allowed_root d) \<or>
        \<not> is_canonical_relative_path (pd_repository d) \<or>
        \<not> is_canonical_git_reference (pd_reference d) \<or>
        \<not> is_canonical_absolute_root (pd_staging_root d) \<or>
        path_starts_with (pd_staging_root d) (pd_allowed_root d) \<or>
        pd_uid d = - 1 \<or> pd_gid d = - 1 \<or> pd_promotion_ttl_ms d = 0
     then Err (EeInvalidPromotionDefinition target)
     else if promotion_bindings_differ target artifact d ob x c basis_id
     then Err EePreparedCandidateBindingMismatch
     else
     res_bind (ok_or EePromotionExpiryOverflow
       (checked_add_u64 (cx_compiled_at_unix_ms x) (pd_promotion_ttl_ms d))) (\<lambda>expires.
     res_bind (ok_or EeMalformedIntent (cx_operation_id x)) (\<lambda>operation_id.
     Ok (EffPromotion
       \<lparr>mp_schema = promotion_schema, mp_operation_id = operation_id,
        mp_prepared_candidate = candidate_id, mp_exact_basis = basis_id,
        mp_complete_inputs = inputs_id, mp_candidate_preparation_receipt = receipt_id,
        mp_target = target, mp_allowed_root = pd_allowed_root d, mp_repository = pd_repository d,
        mp_reference = pd_reference d, mp_repository_identity = pd_repository_identity d,
        mp_prestate_identity = po_prestate_identity ob,
        mp_repository_device = po_repository_device ob, mp_repository_inode = po_repository_inode ob,
        mp_git_directory_device = po_git_directory_device ob,
        mp_git_directory_inode = po_git_directory_inode ob,
        mp_uid = pd_uid d, mp_gid = pd_gid d, mp_staging_root = pd_staging_root d,
        mp_artifact = artifact, mp_candidate_pack_digest = po_candidate_pack_digest ob,
        mp_object_format = po_object_format ob, mp_expected_object = po_current_object ob,
        mp_expected_tree = po_current_tree ob, mp_new_object = po_candidate_object ob,
        mp_expected_post_tree = po_candidate_tree ob, mp_expires_unix_ms = expires,
        mp_helper_executable = pd_helper_executable d,
        mp_helper_launch_profile = pd_helper_launch_profile d\<rparr>)))))))))))))"

definition compile_one :: "env \<Rightarrow> effect_intent \<Rightarrow> target_definition \<Rightarrow> target_observation
    \<Rightarrow> compile_one_context \<Rightarrow> effect_error + canonical_effect" where
  "compile_one E intent definition observation x =
     (case (intent, definition, observation) of
        (IntentPromotion target artifact, DefManagedPointer d, ObsManagedPointer ob) \<Rightarrow>
          compile_promotion E target artifact d ob x
      | (IntentFilePut target content, DefManagedFile d, ObsManagedFile current regular) \<Rightarrow>
          if \<not> regular then Err (EeUnsafeTarget target)
          else Ok (EffFilePut \<lparr>fp_target = target, fp_path = fd_path d, fp_expected_content = current,
             fp_content = content, fp_mode = fd_mode d, fp_uid = fd_uid d, fp_gid = fd_gid d\<rparr>)
      | (IntentFileDelete target, DefManagedFile d, ObsManagedFile (Some current) True) \<Rightarrow>
          Ok (EffFileDelete target (fd_path d) current)
      | (IntentSystemdUnit target action, DefSystemdUnit unit allowed, ObsSystemdUnit active unit_file) \<Rightarrow>
          if action \<notin> set allowed then Err (EeActionNotAllowed target)
          else Ok (EffSystemdUnit target unit action active unit_file)
      | (IntentManagerReload target, DefSystemdManager, ObsSystemdManager machine generation) \<Rightarrow>
          Ok (EffManagerReload target machine generation)
      | _ \<Rightarrow> Err (EeTargetKindMismatch (intent_target intent)))"

definition operation_tree :: "proposal_intent \<Rightarrow> string \<Rightarrow> nat \<Rightarrow> target_id \<Rightarrow> digest \<Rightarrow> json" where
  "operation_tree intent proposal_id index target artifact = JArr
     [JStr ''ag.effect.managed-pointer-operation/v1'', domain_json (pi_authority_domain intent),
      epoch_json (pi_epoch intent), JStr proposal_id, u32_json (of_nat index), target_json target,
      digest_json artifact]"

definition operation_id_of :: "env \<Rightarrow> proposal_intent \<Rightarrow> string \<Rightarrow> nat \<Rightarrow> effect_intent
    \<Rightarrow> effect_error + digest option" where
  "operation_id_of E intent proposal_id index requested =
     (case requested of
        IntentPromotion target artifact \<Rightarrow>
          if index \<ge> 2 ^ 32 then Err EeMalformedIntent
          else res_bind (digest_serializable E (operation_tree intent proposal_id index target artifact))
            (\<lambda>d. Ok (Some d))
      | _ \<Rightarrow> Ok None)"

definition compile_step :: "env \<Rightarrow> effect_compiler \<Rightarrow> string \<Rightarrow> proposal_intent \<Rightarrow> compilation_cut
    \<Rightarrow> nat \<Rightarrow> effect_intent \<Rightarrow> effect_error + canonical_effect" where
  "compile_step E k proposal_id intent ct index requested =
     res_bind (ok_or (EeUnknownTarget (intent_target requested))
       (bt_get (ec_targets (co_catalog k)) (intent_target requested))) (\<lambda>definition.
     res_bind (ok_or (EeMissingObservation (intent_target requested))
       (bt_get (cc_observations ct) (intent_target requested))) (\<lambda>observation.
     res_bind (operation_id_of E intent proposal_id index requested) (\<lambda>operation_id.
     compile_one E requested definition observation
       \<lparr>cx_prepared_candidate = bt_get (cc_prepared_candidates ct) (intent_target requested),
        cx_authority_domain = pi_authority_domain intent, cx_epoch = pi_epoch intent,
        cx_catalog_identity = ec_identity (co_catalog k),
        cx_security_profile_identity = co_security_profile_identity k,
        cx_operation_id = operation_id,
        cx_compiled_at_unix_ms = cc_compiled_at_unix_ms ct\<rparr>)))"

fun compile_effects :: "(nat \<Rightarrow> effect_intent \<Rightarrow> effect_error + canonical_effect) \<Rightarrow> nat
    \<Rightarrow> effect_intent list \<Rightarrow> effect_error + canonical_effect list" where
  "compile_effects f index [] = Ok []"
| "compile_effects f index (r # rs) =
     res_bind (f index r) (\<lambda>e. res_bind (compile_effects f (Suc index) rs) (\<lambda>es. Ok (e # es)))"

fun promotion_target :: "effect_intent \<Rightarrow> target_id option" where
  "promotion_target (IntentPromotion target _) = Some target"
| "promotion_target _ = None"

definition compile :: "env \<Rightarrow> effect_compiler \<Rightarrow> string \<Rightarrow> proposal_intent \<Rightarrow> principal_chain \<Rightarrow> digest
    \<Rightarrow> compilation_cut \<Rightarrow> effect_error + canonical_proposal" where
  "compile E k proposal_id intent proposer governor ct =
     res_bind (validate_shape intent) (\<lambda>_.
     if ec_schema (co_catalog k) \<noteq> effect_catalog_schema
     then Err (EeUnknownCatalogSchema (ec_schema (co_catalog k)))
     else if proposal_id = [] \<or> pi_proposer intent \<noteq> proposer \<or>
       pi_authority_domain intent \<noteq> pc_authority_domain proposer \<or> pi_epoch intent \<noteq> pc_epoch proposer
     then Err EeMalformedIntent
     else if bs_collect (map fst (cc_prepared_candidates ct)) \<noteq>
       bs_collect (List.map_filter promotion_target (pi_effects intent))
     then Err EePreparedCandidateBindingMismatch
     else
     res_bind (compile_effects (compile_step E k proposal_id intent ct) 0 (pi_effects intent)) (\<lambda>effects.
     res_bind (digest_serializable E (proposal_intent_json intent)) (\<lambda>intent_digest.
     let body = \<lparr>cb_schema = effect_schema, cb_proposal_id = proposal_id,
        cb_intent_digest = intent_digest, cb_governor_authentication = governor,
        cb_authority_domain = pi_authority_domain intent, cb_epoch = pi_epoch intent,
        cb_compiled_at_unix_ms = cc_compiled_at_unix_ms ct, cb_proposer = proposer,
        cb_catalog_schema = ec_schema (co_catalog k), cb_catalog_identity = ec_identity (co_catalog k),
        cb_security_profile_identity = co_security_profile_identity k,
        cb_judgment = pi_judgment intent, cb_effects = effects\<rparr>
     in res_bind (digest_serializable E (body_json body)) (\<lambda>d. Ok \<lparr>cp_digest = d, cp_body = body\<rparr>))))"

section \<open>What a compiled proposal is bound to\<close>

lemma compile_effects_Ok:
  "compile_effects f n rs = Inr es \<Longrightarrow>
     length es = length rs \<and> (\<forall>i < length rs. f (n + i) (rs ! i) = Inr (es ! i))"
proof (induction rs arbitrary: n es)
  case Nil
  then show ?case by simp
next
  case (Cons r rs)
  then obtain e es' where e: "f n r = Inr e" and es': "compile_effects f (Suc n) rs = Inr es'"
    and es: "es = e # es'"
    by (auto simp: ag_check)
  from Cons.IH [OF es'] e es show ?case by (auto simp: nth_Cons split: nat.splits)
qed

lemma compile_Ok:
  assumes "compile E k pid intent proposer gov ct = Inr p"
  shows "validate_shape intent = Inr ()" and "ec_schema (co_catalog k) = effect_catalog_schema"
    and "pid \<noteq> []" and "pi_proposer intent = proposer"
    and "pi_authority_domain intent = pc_authority_domain proposer" and "pi_epoch intent = pc_epoch proposer"
    and "fst ` set (cc_prepared_candidates ct) = set (List.map_filter promotion_target (pi_effects intent))"
    and "compile_effects (compile_step E k pid intent ct) 0 (pi_effects intent) = Inr (cb_effects (cp_body p))"
    and "digest_serializable E (proposal_intent_json intent) = Inr (cb_intent_digest (cp_body p))"
    and "digest_serializable E (body_json (cp_body p)) = Inr (cp_digest p)"
    and "cp_body p = \<lparr>cb_schema = effect_schema, cb_proposal_id = pid,
        cb_intent_digest = cb_intent_digest (cp_body p), cb_governor_authentication = gov,
        cb_authority_domain = pi_authority_domain intent, cb_epoch = pi_epoch intent,
        cb_compiled_at_unix_ms = cc_compiled_at_unix_ms ct, cb_proposer = proposer,
        cb_catalog_schema = ec_schema (co_catalog k), cb_catalog_identity = ec_identity (co_catalog k),
        cb_security_profile_identity = co_security_profile_identity k,
        cb_judgment = pi_judgment intent, cb_effects = cb_effects (cp_body p)\<rparr>"
proof -
  from assms have "bs_collect (map fst (cc_prepared_candidates ct)) =
      bs_collect (List.map_filter promotion_target (pi_effects intent))"
    by (simp add: compile_def effect_checks)
  then have "set (bs_collect (map fst (cc_prepared_candidates ct))) =
      set (bs_collect (List.map_filter promotion_target (pi_effects intent)))" by (rule arg_cong)
  then show "fst ` set (cc_prepared_candidates ct) = set (List.map_filter promotion_target (pi_effects intent))"
    by simp
qed (use assms in \<open>auto simp: compile_def effect_checks Let_def\<close>)

lemma compiled_effect:
  assumes "compile E k pid intent proposer gov ct = Inr p" and "i < length (pi_effects intent)"
  shows "compile_step E k pid intent ct i (pi_effects intent ! i) = Inr (cb_effects (cp_body p) ! i)"
  using compile_effects_Ok [OF compile_Ok(8) [OF assms(1)]] assms(2) by simp

lemma compiled_length:
  "compile E k pid intent proposer gov ct = Inr p \<Longrightarrow> length (cb_effects (cp_body p)) = length (pi_effects intent)"
  using compile_effects_Ok [OF compile_Ok(8)] by blast

lemma compile_promotion_shape:
  "compile_promotion E target artifact d ob x = Inr e \<Longrightarrow>
     (\<exists>m. e = EffPromotion m \<and> mp_target m = target \<and> Some (mp_operation_id m) = cx_operation_id x)"
  by (auto simp: compile_promotion_def effect_checks)

lemma compile_one_shape:
  assumes "compile_one E r d ob x = Inr e"
  shows "effect_target e = intent_target r" and "effect_family_of e = intent_family r"
  using assms
  by (cases r; cases d; cases ob;
      auto simp: compile_one_def effect_checks dest!: compile_promotion_shape
        split: option.splits bool.splits if_splits)+

lemma compile_one_promotion:
  assumes "compile_one E r d ob x = Inr (EffPromotion e)"
  obtains target artifact d' ob' where "r = IntentPromotion target artifact"
    and "d = DefManagedPointer d'" and "ob = ObsManagedPointer ob'"
    and "compile_promotion E target artifact d' ob' x = Inr (EffPromotion e)"
  using assms that
  by (cases r; cases d; cases ob)
    (auto simp: compile_one_def effect_checks split: option.splits bool.splits if_splits)

lemma compile_promotion_Ok:
  assumes "compile_promotion E target artifact d ob x = Inr (EffPromotion e)"
  obtains c where "cx_prepared_candidate x = Some c"
    and "candidate_identity E c = Inr (mp_prepared_candidate e)"
    and "basis_identity E (pm_exact_basis c) = Inr (mp_exact_basis e)"
    and "\<not> promotion_bindings_differ target artifact d ob x c (mp_exact_basis e)"
    and "po_clean ob" and "\<not> po_reference_checked_out ob"
    and "po_candidate_parent ob = po_current_object ob"
    and "is_canonical_absolute_root (pd_allowed_root d)" and "is_canonical_absolute_root (pd_staging_root d)"
    and "is_canonical_relative_path (pd_repository d)"
    and "\<not> path_starts_with (pd_staging_root d) (pd_allowed_root d)" and "pd_promotion_ttl_ms d \<noteq> 0"
    and "checked_add_u64 (cx_compiled_at_unix_ms x) (pd_promotion_ttl_ms d) = Some (mp_expires_unix_ms e)"
    and "mp_target e = target" and "mp_artifact e = artifact"
    and "mp_expected_object e = po_current_object ob" and "mp_new_object e = po_candidate_object ob"
    and "cx_operation_id x = Some (mp_operation_id e)"
  using assms that by (auto simp: compile_promotion_def effect_checks)

lemma compile_step_promotion:
  assumes "compile_step E k pid intent ct i r = Inr (EffPromotion e)"
  obtains artifact d ob where "r = IntentPromotion (mp_target e) artifact"
    and "bt_get (ec_targets (co_catalog k)) (mp_target e) = Some (DefManagedPointer d)"
    and "bt_get (cc_observations ct) (mp_target e) = Some (ObsManagedPointer ob)"
    and "i < 2 ^ 32"
    and "digest_serializable E (operation_tree intent pid i (mp_target e) artifact) = Inr (mp_operation_id e)"
    and "compile_promotion E (mp_target e) artifact d ob
       \<lparr>cx_prepared_candidate = bt_get (cc_prepared_candidates ct) (mp_target e),
        cx_authority_domain = pi_authority_domain intent, cx_epoch = pi_epoch intent,
        cx_catalog_identity = ec_identity (co_catalog k),
        cx_security_profile_identity = co_security_profile_identity k,
        cx_operation_id = Some (mp_operation_id e),
        cx_compiled_at_unix_ms = cc_compiled_at_unix_ms ct\<rparr> = Inr (EffPromotion e)"
proof -
  from assms obtain d ob opid where d: "bt_get (ec_targets (co_catalog k)) (intent_target r) = Some d"
    and ob: "bt_get (cc_observations ct) (intent_target r) = Some ob"
    and opid: "operation_id_of E intent pid i r = Inr opid"
    and one: "compile_one E r d ob
       \<lparr>cx_prepared_candidate = bt_get (cc_prepared_candidates ct) (intent_target r),
        cx_authority_domain = pi_authority_domain intent, cx_epoch = pi_epoch intent,
        cx_catalog_identity = ec_identity (co_catalog k),
        cx_security_profile_identity = co_security_profile_identity k, cx_operation_id = opid,
        cx_compiled_at_unix_ms = cc_compiled_at_unix_ms ct\<rparr> = Inr (EffPromotion e)"
    by (auto simp: compile_step_def ag_check)
  from compile_one_promotion [OF one] obtain target artifact d' ob' where
    r: "r = IntentPromotion target artifact" and d': "d = DefManagedPointer d'"
    and ob': "ob = ObsManagedPointer ob'"
    and prom: "compile_promotion E target artifact d' ob'
       \<lparr>cx_prepared_candidate = bt_get (cc_prepared_candidates ct) (intent_target r),
        cx_authority_domain = pi_authority_domain intent, cx_epoch = pi_epoch intent,
        cx_catalog_identity = ec_identity (co_catalog k),
        cx_security_profile_identity = co_security_profile_identity k, cx_operation_id = opid,
        cx_compiled_at_unix_ms = cc_compiled_at_unix_ms ct\<rparr> = Inr (EffPromotion e)"
    by blast
  from compile_promotion_shape [OF prom] have t: "mp_target e = target"
    and o': "opid = Some (mp_operation_id e)" by auto
  have "i < 2 ^ 32"
    "digest_serializable E (operation_tree intent pid i target artifact) = Inr (mp_operation_id e)"
    using opid r o' by (auto simp: operation_id_of_def effect_checks)
  with that r t d d' ob ob' o' prom show thesis by simp
qed

lemma canonical_effect_json_inject [simp]:
  "canonical_effect_json a = canonical_effect_json b \<longleftrightarrow> a = b"
proof -
  have "e = e'" if "promotion_effect_json e = promotion_effect_json e'" for e e'
    using that by (auto simp: promotion_effect_json_def intro: promotion_effect.equality)
  moreover have "e = e'" if "canonical_effect_json (EffFilePut e) = canonical_effect_json (EffFilePut e')" for e e'
    using that by (auto intro: file_put_effect.equality)
  ultimately show ?thesis
    by (cases a; cases b) (auto simp: promotion_effect_json_def)
qed

lemmas map_effect_inject [simp] = map_json_inject [of canonical_effect_json, OF canonical_effect_json_inject]

lemma body_json_inject [simp]: "body_json a = body_json b \<longleftrightarrow> a = b"
  by (auto simp: body_json_def intro: proposal_body.equality)

lemma operation_tree_inject:
  "operation_tree intent pid i t a = operation_tree intent pid j u b \<Longrightarrow> i < 2 ^ 32 \<Longrightarrow> j < 2 ^ 32 \<Longrightarrow> i = j"
  by (simp add: operation_tree_def word_of_nat_eq_iff take_bit_nat_eq_self)

section \<open>A sample compilation\<close>

definition sample_pointer :: pointer_definition where
  "sample_pointer = \<lparr>pd_allowed_root = ''/r'', pd_repository = ''a'', pd_reference = ''refs/heads/m'',
     pd_repository_identity = Digest ''r'', pd_uid = 4, pd_gid = 5, pd_staging_root = ''/q'',
     pd_promotion_ttl_ms = 6, pd_helper_executable = Digest ''h'', pd_helper_launch_profile = Digest ''l''\<rparr>"

definition sample_observation :: pointer_observation where
  "sample_observation = \<lparr>po_current_object = sample_object (CHR ''a''),
     po_current_tree = sample_object (CHR ''b''), po_candidate_object = sample_object (CHR ''c''),
     po_candidate_tree = sample_object (CHR ''d''), po_candidate_parent = sample_object (CHR ''a''),
     po_candidate_pack_digest = Digest ''k'', po_object_format = Sha1,
     po_repository_identity = Digest ''r'', po_prestate_identity = Digest ''p'',
     po_repository_device = 1, po_repository_inode = 2, po_git_directory_device = 1,
     po_git_directory_inode = 3, po_repository_uid = 4, po_repository_gid = 5,
     po_clean = True, po_reference_checked_out = False\<rparr>"

definition sample_compiler :: effect_compiler where
  "sample_compiler = \<lparr>co_catalog = \<lparr>ec_schema = effect_catalog_schema, ec_identity = Digest ''c'',
       ec_targets = [(TargetId ''f'', DefManagedFile \<lparr>fd_path = ''/f'', fd_mode = 6, fd_uid = 0, fd_gid = 0\<rparr>),
         (TargetId ''t'', DefManagedPointer sample_pointer)]\<rparr>,
     co_security_profile_identity = Digest ''s''\<rparr>"

definition sample_cut :: compilation_cut where
  "sample_cut = \<lparr>cc_compiled_at_unix_ms = 2,
     cc_observations = [(TargetId ''f'', ObsManagedFile None True),
       (TargetId ''t'', ObsManagedPointer sample_observation)],
     cc_prepared_candidates = [(TargetId ''t'', sample_candidate)]\<rparr>"

definition sample_proposer :: principal_chain where
  "sample_proposer = \<lparr>pc_authority_domain = AuthorityDomainId ''d'', pc_epoch = EpochId 1,
     pc_nodes = [chain_root_node (PrincipalId (Digest ''o'')) KOperator]\<rparr>"

definition sample_intent :: proposal_intent where
  "sample_intent = \<lparr>pi_schema = effect_schema, pi_intent_id = ''i'',
     pi_authority_domain = AuthorityDomainId ''d'', pi_epoch = EpochId 1, pi_proposer = sample_proposer,
     pi_judgment = Digest ''j'', pi_admitted_artifacts = [Digest ''x'', Digest ''y''],
     pi_effects = [IntentPromotion (TargetId ''t'') (Digest ''x''), IntentFilePut (TargetId ''f'') (Digest ''y''),
       IntentPromotion (TargetId ''t'') (Digest ''x'')]\<rparr>"

definition sample_operation :: "nat \<Rightarrow> digest" where
  "sample_operation i = sample_digest (operation_tree sample_intent ''n'' i (TargetId ''t'') (Digest ''x''))"

definition sample_promotion :: "digest \<Rightarrow> promotion_effect" where
  "sample_promotion op = \<lparr>mp_schema = promotion_schema, mp_operation_id = op,
     mp_prepared_candidate = sample_digest (prepared_candidate_json sample_candidate),
     mp_exact_basis = sample_digest (exact_basis_json sample_basis),
     mp_complete_inputs = sample_digest (complete_inputs_json sample_inputs),
     mp_candidate_preparation_receipt = sample_digest (preparation_receipt_json sample_receipt),
     mp_target = TargetId ''t'', mp_allowed_root = ''/r'', mp_repository = ''a'',
     mp_reference = ''refs/heads/m'', mp_repository_identity = Digest ''r'',
     mp_prestate_identity = Digest ''p'', mp_repository_device = 1, mp_repository_inode = 2,
     mp_git_directory_device = 1, mp_git_directory_inode = 3, mp_uid = 4, mp_gid = 5,
     mp_staging_root = ''/q'', mp_artifact = Digest ''x'', mp_candidate_pack_digest = Digest ''k'',
     mp_object_format = Sha1, mp_expected_object = sample_object (CHR ''a''),
     mp_expected_tree = sample_object (CHR ''b''), mp_new_object = sample_object (CHR ''c''),
     mp_expected_post_tree = sample_object (CHR ''d''), mp_expires_unix_ms = 8,
     mp_helper_executable = Digest ''h'', mp_helper_launch_profile = Digest ''l''\<rparr>"

lemma sample_definition_paths [simp]:
  "is_canonical_absolute_root ''/r''" "is_canonical_relative_path ''a''"
  "\<not> path_starts_with ''/q'' ''/r''"
  by (code_simp, code_simp, code_simp)

lemma sample_compile_promotion:
  assumes "cx_prepared_candidate x = Some sample_candidate" "cx_authority_domain x = AuthorityDomainId ''d''"
    "cx_epoch x = EpochId 1" "cx_catalog_identity x = Digest ''c''"
    "cx_security_profile_identity x = Digest ''s''" "cx_compiled_at_unix_ms x = 2"
    "cx_operation_id x = Some op"
  shows "compile_promotion sample_env (TargetId ''t'') (Digest ''x'') sample_pointer sample_observation x =
    Inr (EffPromotion (sample_promotion op))"
proof -
  have parts: "pm_exact_basis sample_candidate = sample_basis"
    "pm_complete_inputs sample_candidate = sample_inputs"
    "pm_preparation_receipt sample_candidate = sample_receipt"
    "pm_preparation_standing sample_candidate = sample_standing"
    by (simp_all add: sample_candidate_def)
  have "\<not> promotion_bindings_differ (TargetId ''t'') (Digest ''x'') sample_pointer sample_observation x
      sample_candidate (sample_digest (exact_basis_json sample_basis))"
    unfolding promotion_bindings_differ_def Let_def parts assms
    by (simp add: sample_basis_def sample_inputs_def sample_standing_def sample_pointer_def
        sample_observation_def word_less_nat_alt word_le_nat_alt)
  moreover have "checked_add_u64 2 6 = Some 8" by (simp add: checked_add_u64_def)
  ultimately show ?thesis
    unfolding compile_promotion_def assms
    by (simp add: parts sample_candidate_identity sample_basis_identity sample_receipt_identity)
      (simp add: sample_observation_def sample_pointer_def sample_inputs_identity sample_promotion_def)
qed

definition sample_body :: proposal_body where
  "sample_body = \<lparr>cb_schema = effect_schema, cb_proposal_id = ''n'',
     cb_intent_digest = sample_digest (proposal_intent_json sample_intent),
     cb_governor_authentication = Digest ''g'', cb_authority_domain = AuthorityDomainId ''d'',
     cb_epoch = EpochId 1, cb_compiled_at_unix_ms = 2, cb_proposer = sample_proposer,
     cb_catalog_schema = effect_catalog_schema, cb_catalog_identity = Digest ''c'',
     cb_security_profile_identity = Digest ''s'', cb_judgment = Digest ''j'',
     cb_effects = [EffPromotion (sample_promotion (sample_operation 0)),
       EffFilePut \<lparr>fp_target = TargetId ''f'', fp_path = ''/f'', fp_expected_content = None,
         fp_content = Digest ''y'', fp_mode = 6, fp_uid = 0, fp_gid = 0\<rparr>,
       EffPromotion (sample_promotion (sample_operation 2))]\<rparr>"

definition sample_proposal :: canonical_proposal where
  "sample_proposal = \<lparr>cp_digest = sample_digest (body_json sample_body), cp_body = sample_body\<rparr>"

lemma sample_compile_steps:
  "compile_effects (compile_step sample_env sample_compiler ''n'' sample_intent sample_cut) 0
     (pi_effects sample_intent) = Inr (cb_effects sample_body)"
proof -
  have "compile_step sample_env sample_compiler ''n'' sample_intent sample_cut i
      (IntentPromotion (TargetId ''t'') (Digest ''x'')) = Inr (EffPromotion (sample_promotion (sample_operation i)))"
    if "i < 2 ^ 32" for i
    unfolding compile_step_def using that
    by (simp add: sample_compiler_def sample_cut_def operation_id_of_def sample_digest compile_one_def
        sample_compile_promotion)
      (simp add: sample_compile_promotion sample_intent_def sample_operation_def)
  then show ?thesis
    by (simp add: sample_intent_def [THEN arg_cong [of _ _ pi_effects]] sample_body_def)
      (simp add: compile_step_def sample_compiler_def sample_cut_def operation_id_of_def compile_one_def
        numeral_2_eq_2)
qed

lemma sample_compile:
  "compile sample_env sample_compiler ''n'' sample_intent sample_proposer (Digest ''g'') sample_cut =
     Inr sample_proposal"
proof -
  have "validate_shape sample_intent = Inr ()"
    by (simp add: validate_shape_iff sample_intent_def)
  moreover have "bs_collect (map fst (cc_prepared_candidates sample_cut)) =
      bs_collect (List.map_filter promotion_target (pi_effects sample_intent))"
    by (simp add: sample_cut_def sample_intent_def List.map_filter_simps bs_collect_def)
  moreover have "pi_proposer sample_intent = sample_proposer" by (simp add: sample_intent_def)
  moreover have "pi_authority_domain sample_intent = pc_authority_domain sample_proposer"
    "pi_epoch sample_intent = pc_epoch sample_proposer"
    by (simp_all add: sample_intent_def sample_proposer_def)
  moreover have "ec_schema (co_catalog sample_compiler) = effect_catalog_schema"
    by (simp add: sample_compiler_def)
  ultimately show ?thesis
    unfolding compile_def
    by (simp add: sample_compile_steps sample_digest Let_def)
      (simp add: sample_proposal_def sample_body_def sample_compiler_def sample_cut_def
        sample_intent_def sample_proposer_def)
qed

section \<open>Properties\<close>



text \<open>
  C3: a compiled promotion is pinned to live state.  The catalog defines its target as a managed
  pointer and the broker observed it clean, not checked out, and at the commit the effect expects
  to find; the prepared candidate of that target has exactly the recorded candidate and basis
  identities, was prepared on that observed commit for that artifact, and its only parent is that
  commit; the compile time lies inside the preparation standing; the expiry is the compile time
  plus a positive lifetime computed without wrap-around; and the staging root is not inside the
  allowed root.
\<close>

theorem promotion_pinned:
  assumes "compile E k pid intent proposer gov ct = Ok p" and "EffPromotion e \<in> set (cb_effects (cp_body p))"
  shows "\<exists>d ob c.
    bt_get (ec_targets (co_catalog k)) (mp_target e) = Some (DefManagedPointer d) \<and>
    bt_get (cc_observations ct) (mp_target e) = Some (ObsManagedPointer ob) \<and>
    bt_get (cc_prepared_candidates ct) (mp_target e) = Some c \<and>
    candidate_identity E c = Ok (mp_prepared_candidate e) \<and>
    basis_identity E (pm_exact_basis c) = Ok (mp_exact_basis e) \<and>
    po_clean ob \<and> \<not> po_reference_checked_out ob \<and>
    mp_expected_object e = po_current_object ob \<and>
    xb_current_object (pm_exact_basis c) = po_current_object ob \<and>
    ci_candidate_parent (pm_complete_inputs c) = po_current_object ob \<and>
    ci_candidate_object (pm_complete_inputs c) = mp_new_object e \<and>
    ci_artifact (pm_complete_inputs c) = mp_artifact e \<and>
    mp_artifact e \<in> set (pi_admitted_artifacts intent) \<and>
    sr_issued_at_unix_ms (pm_preparation_standing c) \<le> cc_compiled_at_unix_ms ct \<and>
    cc_compiled_at_unix_ms ct < sr_expires_at_unix_ms (pm_preparation_standing c) \<and>
    0 < unat (pd_promotion_ttl_ms d) \<and>
    unat (mp_expires_unix_ms e) = unat (cc_compiled_at_unix_ms ct) + unat (pd_promotion_ttl_ms d) \<and>
    \<not> path_starts_with (pd_staging_root d) (pd_allowed_root d)"
proof -
  from assms(2) obtain i where i: "i < length (pi_effects intent)"
    and e: "cb_effects (cp_body p) ! i = EffPromotion e"
    using compiled_length [OF assms(1)] by (auto simp: in_set_conv_nth)
  from compiled_effect [OF assms(1) i, unfolded e] obtain artifact d ob where
    r: "pi_effects intent ! i = IntentPromotion (mp_target e) artifact"
    and d: "bt_get (ec_targets (co_catalog k)) (mp_target e) = Some (DefManagedPointer d)"
    and ob: "bt_get (cc_observations ct) (mp_target e) = Some (ObsManagedPointer ob)"
    and prom: "compile_promotion E (mp_target e) artifact d ob
       \<lparr>cx_prepared_candidate = bt_get (cc_prepared_candidates ct) (mp_target e),
        cx_authority_domain = pi_authority_domain intent, cx_epoch = pi_epoch intent,
        cx_catalog_identity = ec_identity (co_catalog k),
        cx_security_profile_identity = co_security_profile_identity k,
        cx_operation_id = Some (mp_operation_id e),
        cx_compiled_at_unix_ms = cc_compiled_at_unix_ms ct\<rparr> = Inr (EffPromotion e)"
    by (rule compile_step_promotion)
  have admitted: "artifact \<in> set (pi_admitted_artifacts intent)"
    using compile_Ok(1) [OF assms(1)] nth_mem [OF i] r unfolding validate_shape_iff by fastforce
  show ?thesis
  proof (rule compile_promotion_Ok [OF prom], goal_cases)
    case (1 c)
    with d ob admitted show ?case
      by (intro exI [of _ d] exI [of _ ob] exI [of _ c])
        (simp add: promotion_bindings_differ_def Let_def checked_add_u64_Some_iff unat_gt_0 not_less not_le)
  qed
qed

theorem promotion_pinned_witness:
  "unat (mp_expires_unix_ms (sample_promotion (sample_operation 0))) = 8 \<and>
   mp_artifact (sample_promotion (sample_operation 0)) \<in> set (pi_admitted_artifacts sample_intent)"
proof -
  have "EffPromotion (sample_promotion (sample_operation 0)) \<in> set (cb_effects (cp_body sample_proposal))"
    by (simp add: sample_proposal_def sample_body_def)
  from promotion_pinned [OF sample_compile this]
  have "mp_artifact (sample_promotion (sample_operation 0)) \<in> set (pi_admitted_artifacts sample_intent)" by blast
  then show ?thesis by (simp add: sample_promotion_def)
qed

text \<open>
  Operation identities are single-use.  Two promotions at different positions of one compiled
  proposal never share an operation identity, even for the same target and artifact, provided the
  printer and SHA-256 tell the proposal's operation trees apart.
\<close>

theorem operation_ids_distinct:
  assumes "codec_ok E" and "compile E k pid intent proposer gov ct = Ok p"
    and "trees_no_collision E {operation_tree intent pid i t a |i t a.
           i < length (pi_effects intent) \<and> pi_effects intent ! i = IntentPromotion t a}"
    and "i < length (pi_effects intent)" and "j < length (pi_effects intent)" and "i \<noteq> j"
    and "cb_effects (cp_body p) ! i = EffPromotion e" and "cb_effects (cp_body p) ! j = EffPromotion f"
  shows "mp_operation_id e \<noteq> mp_operation_id f"
proof
  assume same: "mp_operation_id e = mp_operation_id f"
  from compiled_effect [OF assms(2,4), unfolded assms(7)] obtain a where
    e: "pi_effects intent ! i = IntentPromotion (mp_target e) a" "i < 2 ^ 32"
      "digest_serializable E (operation_tree intent pid i (mp_target e) a) = Inr (mp_operation_id e)"
    by (rule compile_step_promotion)
  from compiled_effect [OF assms(2,5), unfolded assms(8)] obtain b where
    f: "pi_effects intent ! j = IntentPromotion (mp_target f) b" "j < 2 ^ 32"
      "digest_serializable E (operation_tree intent pid j (mp_target f) b) = Inr (mp_operation_id f)"
    by (rule compile_step_promotion)
  have "operation_tree intent pid i (mp_target e) a = operation_tree intent pid j (mp_target f) b"
    by (rule digest_serializable_inject [OF assms(1,3) _ _ e(3) f(3) [folded same]])
      (use assms(4,5) e(1) f(1) in blast)+
  with operation_tree_inject e(2) f(2) assms(6) show False by blast
qed

theorem operation_ids_distinct_witness:
  "mp_operation_id (sample_promotion (sample_operation 0)) \<noteq>
   mp_operation_id (sample_promotion (sample_operation 2))"
proof (rule operation_ids_distinct [OF sample_env_ok sample_compile, of 0 2])
  have "{operation_tree sample_intent ''n'' i t a |i t a.
      i < length (pi_effects sample_intent) \<and> pi_effects sample_intent ! i = IntentPromotion t a} \<subseteq>
    {operation_tree sample_intent ''n'' 0 (TargetId ''t'') (Digest ''x''),
     operation_tree sample_intent ''n'' 2 (TargetId ''t'') (Digest ''x'')}"
    by (auto simp: sample_intent_def less_Suc_eq numeral_2_eq_2)
  moreover have "trees_no_collision sample_env
    {operation_tree sample_intent ''n'' 0 (TargetId ''t'') (Digest ''x''),
     operation_tree sample_intent ''n'' 2 (TargetId ''t'') (Digest ''x'')}"
    unfolding trees_no_collision_insert by code_simp
  ultimately show "trees_no_collision sample_env {operation_tree sample_intent ''n'' i t a |i t a.
      i < length (pi_effects sample_intent) \<and> pi_effects sample_intent ! i = IntentPromotion t a}"
    by (rule trees_no_collision_subset [rotated])
qed (simp_all add: sample_intent_def sample_proposal_def sample_body_def)

text \<open>
  The canonical digest binds every byte.  Two canonical proposals whose digests verify and are
  equal have equal bodies, provided the printer and SHA-256 tell the two body trees apart; so an
  altered body is always refused under its old digest.
\<close>

theorem proposal_digest_binds:
  assumes "codec_ok E" and "trees_no_collision E {body_json (cp_body p), body_json (cp_body q)}"
    and "proposal_verify_digest E p = Ok ()" and "proposal_verify_digest E q = Ok ()"
  shows "cp_digest p = cp_digest q \<longleftrightarrow> cp_body p = cp_body q"
proof -
  have p: "digest_serializable E (body_json (cp_body p)) = Inr (cp_digest p)"
    and q: "digest_serializable E (body_json (cp_body q)) = Inr (cp_digest q)"
    using assms(3,4) by (auto simp: proposal_verify_digest_def effect_checks)
  show ?thesis
  proof
    assume "cp_digest p = cp_digest q"
    with digest_serializable_inject [OF assms(1,2) _ _ p, of "body_json (cp_body q)"] q
    show "cp_body p = cp_body q" by simp
  next
    assume "cp_body p = cp_body q"
    with p q show "cp_digest p = cp_digest q" by simp
  qed
qed

definition small_body :: "string \<Rightarrow> proposal_body" where
  "small_body j = \<lparr>cb_schema = ''s'', cb_proposal_id = ''n'', cb_intent_digest = Digest ''i'',
     cb_governor_authentication = Digest ''g'', cb_authority_domain = AuthorityDomainId ''d'',
     cb_epoch = EpochId 1, cb_compiled_at_unix_ms = 2, cb_proposer = sample_proposer,
     cb_catalog_schema = ''c'', cb_catalog_identity = Digest ''c'',
     cb_security_profile_identity = Digest ''p'', cb_judgment = Digest j, cb_effects = []\<rparr>"

definition small_proposal :: "string \<Rightarrow> canonical_proposal" where
  "small_proposal j = \<lparr>cp_digest = sample_digest (body_json (small_body j)), cp_body = small_body j\<rparr>"

theorem proposal_digest_binds_witness: "cp_digest (small_proposal ''j'') \<noteq> cp_digest (small_proposal ''k'')"
proof -
  have "proposal_verify_digest sample_env (small_proposal j) = Inr ()" for j
    by (simp add: proposal_verify_digest_def sample_digest small_proposal_def)
  moreover have "trees_no_collision sample_env {body_json (small_body ''j''), body_json (small_body ''k'')}"
    unfolding trees_no_collision_insert by code_simp
  ultimately show ?thesis
    using proposal_digest_binds [OF sample_env_ok, of "small_proposal ''j''" "small_proposal ''k''"]
    by (simp add: small_proposal_def) (simp add: small_body_def)
qed

end
