(* ===== verification/AG_Mandate.thy ===== *)
theory AG_Mandate
  imports AG_Compile
begin

text \<open>
  Bounded host-effect mandates of \<open>crates/ag-effect/src/lib.rs\<close> (\<open>HostMandateV1\<close>): a
  human-installed, digest-bound grant for closed host effects that structurally excludes code
  promotion.
\<close>

record mandate_body =
  mb_schema :: string
  mb_authority_domain :: authority_domain_id
  mb_epoch :: epoch_id
  mb_grantee :: principal
  mb_targets :: "target_id btree_set"
  mb_families :: "effect_family btree_set"
  mb_expires_unix_ms :: u64
  mb_max_uses :: u32

record host_mandate =
  hm_digest :: digest
  hm_body :: mandate_body

definition mandate_body_json :: "env \<Rightarrow> mandate_body \<Rightarrow> json" where
  "mandate_body_json E b = JObj
     [(''schema'', JStr (mb_schema b)), (''authority_domain'', domain_json (mb_authority_domain b)),
      (''epoch'', epoch_json (mb_epoch b)), (''grantee'', principal_json E (mb_grantee b)),
      (''targets'', JArr (map target_json (mb_targets b))),
      (''families'', JArr (map (\<lambda>f. JStr (family_str f)) (mb_families b))),
      (''expires_unix_ms'', u64_json (mb_expires_unix_ms b)), (''max_uses'', u32_json (mb_max_uses b))]"

definition mandate_tree :: "env \<Rightarrow> mandate_body \<Rightarrow> json" where
  "mandate_tree E b = JArr [JStr host_mandate_schema, mandate_body_json E b]"

definition validate_host_mandate_body :: "mandate_body \<Rightarrow> effect_error + unit" where
  "validate_host_mandate_body b =
     (if mb_schema b \<noteq> host_mandate_schema \<or> mb_targets b = [] \<or> mb_families b = [] \<or>
         mb_max_uses b = 0 \<or> CodePromotion \<in> set (mb_families b) \<or>
         principal_domain (mb_grantee b) \<noteq> mb_authority_domain b \<or>
         principal_epoch (mb_grantee b) \<noteq> mb_epoch b
      then Err EeInvalidHostMandate else Ok ())"

definition mandate_new :: "env \<Rightarrow> mandate_body \<Rightarrow> effect_error + host_mandate" where
  "mandate_new E b =
     res_bind (validate_host_mandate_body b) (\<lambda>_.
     res_bind (digest_serializable E (mandate_tree E b)) (\<lambda>d.
     Ok \<lparr>hm_digest = d, hm_body = b\<rparr>))"

definition mandate_verify_digest :: "env \<Rightarrow> host_mandate \<Rightarrow> effect_error + unit" where
  "mandate_verify_digest E m =
     res_bind (validate_host_mandate_body (hm_body m)) (\<lambda>_.
     res_bind (digest_serializable E (mandate_tree E (hm_body m))) (\<lambda>d.
     if d \<noteq> hm_digest m then Err EeMandateDigestMismatch else Ok ()))"

definition permits_effect :: "mandate_body \<Rightarrow> canonical_effect \<Rightarrow> effect_error + unit" where
  "permits_effect b e =
     (if effect_family_of e = CodePromotion then Err EePromotionRequiresSeparateAuthority
      else if effect_target e \<notin> set (mb_targets b) \<or> effect_family_of e \<notin> set (mb_families b)
      then Err EeMandateNotApplicable else Ok ())"

definition permits :: "env \<Rightarrow> host_mandate \<Rightarrow> canonical_proposal \<Rightarrow> principal \<Rightarrow> u64 \<Rightarrow> u32
    \<Rightarrow> effect_error + unit" where
  "permits E m p actor now uses =
     res_bind (mandate_verify_digest E m) (\<lambda>_.
     if mb_grantee (hm_body m) \<noteq> actor \<or>
        mb_authority_domain (hm_body m) \<noteq> cb_authority_domain (cp_body p) \<or>
        mb_epoch (hm_body m) \<noteq> cb_epoch (cp_body p) \<or>
        now > mb_expires_unix_ms (hm_body m) \<or> uses \<ge> mb_max_uses (hm_body m)
     then Err EeMandateNotApplicable
     else try_for_each (permits_effect (hm_body m)) (cb_effects (cp_body p)))"

section \<open>Lemmas\<close>

lemma mandate_verify_iff:
  "mandate_verify_digest E m = Inr () \<longleftrightarrow>
     validate_host_mandate_body (hm_body m) = Inr () \<and>
     digest_serializable E (mandate_tree E (hm_body m)) = Inr (hm_digest m)"
  by (auto simp: mandate_verify_digest_def effect_checks)

lemma mandate_new_iff:
  "mandate_new E b = Inr m \<longleftrightarrow> hm_body m = b \<and> mandate_verify_digest E m = Inr ()"
  by (auto simp: mandate_new_def mandate_verify_iff ag_check intro: host_mandate.equality)

lemma permits_effect_iff:
  "permits_effect b e = Inr () \<longleftrightarrow> effect_family_of e \<noteq> CodePromotion \<and>
     effect_target e \<in> set (mb_targets b) \<and> effect_family_of e \<in> set (mb_families b)"
  by (simp add: permits_effect_def effect_checks)

lemma permits_iff:
  "permits E m p actor now uses = Inr () \<longleftrightarrow>
     mandate_verify_digest E m = Inr () \<and> mb_grantee (hm_body m) = actor \<and>
     mb_authority_domain (hm_body m) = cb_authority_domain (cp_body p) \<and>
     mb_epoch (hm_body m) = cb_epoch (cp_body p) \<and>
     now \<le> mb_expires_unix_ms (hm_body m) \<and> uses < mb_max_uses (hm_body m) \<and>
     (\<forall>e \<in> set (cb_effects (cp_body p)). permits_effect (hm_body m) e = Inr ())"
  by (auto simp: permits_def effect_checks not_less not_le)

lemma scope_sets:
  "(\<forall>e \<in> S. f e \<noteq> c \<and> t e \<in> T \<and> f e \<in> F) \<longleftrightarrow> c \<notin> f ` S \<and> t ` S \<subseteq> T \<and> f ` S \<subseteq> F"
  by blast

lemma try_for_each_first:
  assumes "list_all (\<lambda>x. f x = Inr ()) xs" and "f y = Inl e"
  shows "try_for_each f (xs @ y # ys) = Inl e"
  using assms by (induction xs) auto

section \<open>Properties\<close>


text \<open>
  Code promotion never travels on a mandate.  For a verified mandate that otherwise covers the
  caller, a proposal whose first uncovered effect is a code promotion is refused with the distinct
  separate-authority error, whatever the granted sets are.
\<close>

theorem mandate_refuses_promotion:
  assumes "mandate_verify_digest E m = Ok ()" and "mb_grantee (hm_body m) = actor"
    and "mb_authority_domain (hm_body m) = cb_authority_domain (cp_body p)"
    and "mb_epoch (hm_body m) = cb_epoch (cp_body p)"
    and "now \<le> mb_expires_unix_ms (hm_body m)" and "uses < mb_max_uses (hm_body m)"
    and "cb_effects (cp_body p) = es @ EffPromotion e # fs"
    and "list_all (\<lambda>x. permits_effect (hm_body m) x = Ok ()) es"
  shows "permits E m p actor now uses = Err EePromotionRequiresSeparateAuthority"
proof -
  have "permits_effect (hm_body m) (EffPromotion e) = Inl EePromotionRequiresSeparateAuthority"
    by (simp add: permits_effect_def)
  from try_for_each_first [OF assms(8) this] assms(1-7) show ?thesis
    by (simp add: permits_def not_less not_le)
qed

definition sample_mandate_body :: mandate_body where
  "sample_mandate_body = \<lparr>mb_schema = host_mandate_schema, mb_authority_domain = AuthorityDomainId ''d'',
     mb_epoch = EpochId 1,
     mb_grantee = Operator \<lparr>op_authority_domain = AuthorityDomainId ''d'', op_epoch = EpochId 1,
       op_enrollment_id = EnrollmentId ''e'', op_configured_role = RoleId ''r'',
       op_enrollment_policy_digest = Digest ''p'',
       op_enrollment_lifecycle_nonce = LifecycleNonce ''n'', op_enrollment_state = EnrollmentActive,
       op_observed_credentials = \<lparr>hc_uid = 1, hc_gid = 1, hc_pid = 1, hc_cgroup = CgroupIdentity ''c''\<rparr>\<rparr>,
     mb_targets = [TargetId ''t''], mb_families = [ManagedFileFamily, SystemdFamily],
     mb_expires_unix_ms = 9, mb_max_uses = 2\<rparr>"

definition sample_mandate :: host_mandate where
  "sample_mandate = \<lparr>hm_digest = sample_digest (mandate_tree sample_env sample_mandate_body),
     hm_body = sample_mandate_body\<rparr>"

lemma sample_mandate_verifies: "mandate_verify_digest sample_env sample_mandate = Inr ()"
proof -
  have "validate_host_mandate_body sample_mandate_body = Inr ()"
    by (simp add: validate_host_mandate_body_def sample_mandate_body_def)
  then show ?thesis by (simp add: mandate_verify_iff sample_mandate_def sample_digest)
qed

theorem mandate_refuses_promotion_witness:
  "permits sample_env sample_mandate sample_proposal (mb_grantee sample_mandate_body) 3 0 =
     Err EePromotionRequiresSeparateAuthority"
proof (rule mandate_refuses_promotion [OF sample_mandate_verifies, where es = "[]"])
  show "3 \<le> mb_expires_unix_ms (hm_body sample_mandate)" "0 < mb_max_uses (hm_body sample_mandate)"
    by (simp_all add: sample_mandate_def sample_mandate_body_def word_le_nat_alt word_less_nat_alt)
qed (simp_all add: sample_mandate_def sample_mandate_body_def sample_proposal_def sample_body_def)

text \<open>
  Installing a mandate is a round trip.  A body is accepted for installation with a mandate
  as result exactly when that mandate carries the body unchanged and verifies; and whatever
  verifies grants no code promotion, has a nonempty scope and at least one use.
\<close>

theorem mandate_install_roundtrip:
  "(mandate_new E b = Ok m \<longleftrightarrow> hm_body m = b \<and> mandate_verify_digest E m = Ok ()) \<and>
   (mandate_verify_digest E m = Ok () \<longrightarrow>
      CodePromotion \<notin> set (mb_families (hm_body m)) \<and> mb_targets (hm_body m) \<noteq> [] \<and>
      mb_families (hm_body m) \<noteq> [] \<and> 0 < mb_max_uses (hm_body m))"
  by (auto simp: mandate_new_iff) (auto simp: mandate_verify_iff validate_host_mandate_body_def
      effect_checks word_neq_0_conv)

theorem mandate_install_roundtrip_witness:
  "mandate_new sample_env sample_mandate_body = Ok sample_mandate \<and>
   CodePromotion \<notin> set (mb_families (hm_body sample_mandate))"
  using mandate_install_roundtrip [of sample_env sample_mandate_body sample_mandate]
    sample_mandate_verifies by (simp add: sample_mandate_def)

end
