(* ===== verification/AG_Protocol.thy ===== *)
theory AG_Protocol
  imports AG_Origin
begin

text \<open>
  \<open>crates/ag-protocol/src/lib.rs\<close>: protocol versions and request identifiers, the request and
  response envelopes, artifact descriptors, canonical JSON, the strict decoder that refuses
  duplicate and ignored fields, and the bounded length-prefixed frame codec over byte slices and
  over streams.

  A type parameter with its Serde implementations is a pair of functions (\<open>ser\<close>, \<open>de\<close>) given as
  arguments.  A byte stream is the list of its remaining bytes; an I/O failure other than a
  premature end is outside the model.  For bytes that are not one JSON text only the refusal is
  modelled, not which of several defects is reported first.
\<close>

section \<open>Versions, identifiers, envelopes\<close>

definition current_protocol_version :: string where
  "current_protocol_version = ''ag-local/v1''"

definition default_max_frame_len :: u32 where
  "default_max_frame_len = 1024 * 1024"

datatype protocol_version = ProtocolVersion (version_str: string)
datatype request_id = RequestId (request_str: string)

datatype protocol_error =
    PeInvalidFrameLimit
  | PeFrameTooLarge nat u32
  | PeTruncatedFrame nat nat
  | PeTrailingFrameBytes nat
  | PeInvalidUtf8
  | PeInvalidJson string
  | PeDuplicateKey string string
  | PeUnknownFields "string list"
  | PeCanonicalization jcs_error
  | PeCanonicalSerialization string
  | PeUnsupportedVersion string
  | PeRequestDigestMismatch digest digest
  | PeResponseEchoMismatch
  | PeInvalidDigest
  | PeInvalidRequestId
  | PeInvalidArtifactDescriptor string
  | PeIo

definition version_current :: protocol_version where
  "version_current = ProtocolVersion current_protocol_version"

definition version_parse :: "string \<Rightarrow> protocol_error + protocol_version" where
  "version_parse v =
     (if v \<noteq> current_protocol_version then Err (PeUnsupportedVersion v) else Ok (ProtocolVersion v))"

definition request_id_new :: "string \<Rightarrow> protocol_error + request_id" where
  "request_id_new v =
     (if v = [] \<or> length v > 128 \<or> \<not> list_all (\<lambda>c. is_ascii_alphanumeric c \<or> c \<in> set ''-_.:'') v
      then Err PeInvalidRequestId else Ok (RequestId v))"

definition canonical_json :: "env \<Rightarrow> json \<Rightarrow> protocol_error + bytes" where
  "canonical_json E v = map_err PeCanonicalization (canonicalize E v)"

definition canonical_json_digest :: "env \<Rightarrow> string \<Rightarrow> json \<Rightarrow> protocol_error + digest" where
  "canonical_json_digest E domain v =
     res_bind (canonical_json E v) (\<lambda>b. Ok (hash_domain E domain b))"

record request_echo =
  re_protocol_version :: protocol_version
  re_request_id :: request_id
  re_request_digest :: digest

record 'b request_envelope =
  rq_echo :: request_echo
  rq_body :: 'b

record 'b response_envelope =
  rs_echo :: request_echo
  rs_body :: 'b

definition request_body_domain :: string where
  "request_body_domain = ''ag-protocol-request-body-v1''"

definition request_envelope_new :: "env \<Rightarrow> ('b \<Rightarrow> json) \<Rightarrow> request_id \<Rightarrow> 'b
    \<Rightarrow> protocol_error + 'b request_envelope" where
  "request_envelope_new E ser rid body =
     res_bind (canonical_json_digest E request_body_domain (ser body)) (\<lambda>d.
     Ok \<lparr>rq_echo = \<lparr>re_protocol_version = version_current, re_request_id = rid, re_request_digest = d\<rparr>,
         rq_body = body\<rparr>)"

definition request_envelope_validate :: "env \<Rightarrow> ('b \<Rightarrow> json) \<Rightarrow> 'b request_envelope
    \<Rightarrow> protocol_error + unit" where
  "request_envelope_validate E ser q =
     (if version_str (re_protocol_version (rq_echo q)) \<noteq> current_protocol_version
      then Err (PeUnsupportedVersion (version_str (re_protocol_version (rq_echo q))))
      else res_bind (canonical_json_digest E request_body_domain (ser (rq_body q))) (\<lambda>actual.
        if actual \<noteq> re_request_digest (rq_echo q)
        then Err (PeRequestDigestMismatch (re_request_digest (rq_echo q)) actual) else Ok ()))"

definition response_for_request :: "'u request_envelope \<Rightarrow> 'b \<Rightarrow> 'b response_envelope" where
  "response_for_request q body = \<lparr>rs_echo = rq_echo q, rs_body = body\<rparr>"

definition validate_echo :: "'b response_envelope \<Rightarrow> 'u request_envelope \<Rightarrow> protocol_error + unit" where
  "validate_echo s q = (if rs_echo s \<noteq> rq_echo q then Err PeResponseEchoMismatch else Ok ())"

record artifact_descriptor =
  ad_content_digest :: digest
  ad_byte_length :: u64
  ad_media_type :: string
  ad_semantic_type :: string

definition valid_token :: "string \<Rightarrow> nat \<Rightarrow> bool" where
  "valid_token v maximum \<longleftrightarrow>
     v \<noteq> [] \<and> length v \<le> maximum \<and> list_all (\<lambda>c. is_ascii_alphanumeric c \<or> c \<in> set ''-_.+/'') v"

definition artifact_descriptor_validate :: "artifact_descriptor \<Rightarrow> protocol_error + unit" where
  "artifact_descriptor_validate a =
     (if \<not> valid_token (ad_media_type a) 128 \<or> CHR ''/'' \<notin> set (ad_media_type a)
      then Err (PeInvalidArtifactDescriptor ''invalid media_type'')
      else if \<not> valid_token (ad_semantic_type a) 128
      then Err (PeInvalidArtifactDescriptor ''invalid semantic_type'') else Ok ())"

section \<open>The strict decoder\<close>

definition json_pointer_escape :: "string \<Rightarrow> string" where
  "json_pointer_escape v =
     concat (map (\<lambda>c. if c = CHR ''/'' then ''~1'' else [c])
       (concat (map (\<lambda>c. if c = CHR ''~'' then ''~0'' else [c]) v)))"

datatype unique_error = UniqueDuplicate string string | UniqueCustom string

function (sequential)
  unique_value :: "string \<Rightarrow> json \<Rightarrow> unique_error + json" and
  unique_seq :: "string \<Rightarrow> nat \<Rightarrow> json list \<Rightarrow> unique_error + json list" and
  unique_map :: "string \<Rightarrow> string list \<Rightarrow> (string, json) btree_map \<Rightarrow> (string \<times> json) list
    \<Rightarrow> unique_error + (string, json) btree_map"
where
  "unique_value path (JFloat f) = Err (UniqueCustom ''floating-point JSON numbers are forbidden'')"
| "unique_value path (JArr vs) = res_bind (unique_seq path 0 vs) (\<lambda>ws. Ok (JArr ws))"
| "unique_value path (JObj ms) = res_bind (unique_map path [] [] ms) (\<lambda>ws. Ok (JObj ws))"
| "unique_value path v = Ok v"
| "unique_seq path i [] = Ok []"
| "unique_seq path i (v # vs) =
     res_bind (unique_value (path @ ''/'' @ show_nat i) v) (\<lambda>w.
     res_bind (unique_seq path (Suc i) vs) (\<lambda>ws. Ok (w # ws)))"
| "unique_map path keys vals [] = Ok vals"
| "unique_map path keys vals ((k, v) # ms) =
     (if k \<in> set keys then Err (UniqueDuplicate path k)
      else res_bind (unique_value (path @ ''/'' @ json_pointer_escape k) v) (\<lambda>w.
        unique_map path (k # keys) (bt_insert k w vals) ms))"
  by pat_completeness auto
termination
  by (relation "measure (\<lambda>x. case x of
        Inl (_, v) \<Rightarrow> 2 * size v
      | Inr (Inl (_, _, vs)) \<Rightarrow> 2 * size_list size vs + 1
      | Inr (Inr (_, _, _, ms)) \<Rightarrow> 2 * size_list (size_prod (\<lambda>_. 0) size) ms + 1)") auto

definition parse_duplicate_free_value :: "env \<Rightarrow> bytes \<Rightarrow> protocol_error + json" where
  "parse_duplicate_free_value E b =
     res_bind (map_err PeInvalidJson (env_json_tree E b)) (\<lambda>tree.
     map_err (\<lambda>e. case e of UniqueDuplicate path key \<Rightarrow> PeDuplicateKey path key
                         | UniqueCustom m \<Rightarrow> PeInvalidJson m) (unique_value [] tree))"

function (sequential)
  unknown_paths :: "json \<Rightarrow> json \<Rightarrow> string \<Rightarrow> string list" and
  unknown_members :: "(string \<times> json) list \<Rightarrow> (string \<times> json) list \<Rightarrow> string \<Rightarrow> string list" and
  unknown_elements :: "json list \<Rightarrow> json list \<Rightarrow> nat \<Rightarrow> string \<Rightarrow> string list"
where
  "unknown_paths (JObj ms) (JObj ns) path = unknown_members ms ns path"
| "unknown_paths (JArr vs) (JArr ws) path = unknown_elements vs ws 0 path"
| "unknown_paths _ _ path = []"
| "unknown_members [] ns path = []"
| "unknown_members ((k, v) # ms) ns path =
     (case map_of ns k of
        Some w \<Rightarrow> unknown_paths v w (path @ ''/'' @ json_pointer_escape k)
      | None \<Rightarrow> [path @ ''/'' @ json_pointer_escape k]) @ unknown_members ms ns path"
| "unknown_elements (v # vs) (w # ws) i path =
     unknown_paths v w (path @ ''/'' @ show_nat i) @ unknown_elements vs ws (Suc i) path"
| "unknown_elements _ _ i path = []"
  by pat_completeness auto
termination
  by (relation "measure (\<lambda>x. case x of
        Inl (v, _, _) \<Rightarrow> 2 * size v
      | Inr (Inl (ms, _, _)) \<Rightarrow> 2 * size_list (size_prod (\<lambda>_. 0) size) ms + 1
      | Inr (Inr (vs, _, _, _)) \<Rightarrow> 2 * size_list size vs + 1)") auto

text \<open>UTF-8 well-formedness of a byte string, by the byte ranges of the Unicode standard.\<close>

definition byte_in :: "nat \<Rightarrow> nat \<Rightarrow> char \<Rightarrow> bool" where
  "byte_in lo hi c \<longleftrightarrow> lo \<le> of_char c \<and> of_char c \<le> hi"

fun from_utf8 :: "bytes \<Rightarrow> bool" where
  "from_utf8 [] = True"
| "from_utf8 (a # r) =
     (if byte_in 0x00 0x7F a then from_utf8 r
      else (case r of
        b # r2 \<Rightarrow>
          if byte_in 0xC2 0xDF a \<and> byte_in 0x80 0xBF b then from_utf8 r2
          else (case r2 of
            c # r3 \<Rightarrow>
              if (byte_in 0xE0 0xE0 a \<and> byte_in 0xA0 0xBF b \<or> byte_in 0xE1 0xEC a \<and> byte_in 0x80 0xBF b \<or>
                  byte_in 0xED 0xED a \<and> byte_in 0x80 0x9F b \<or> byte_in 0xEE 0xEF a \<and> byte_in 0x80 0xBF b) \<and>
                 byte_in 0x80 0xBF c then from_utf8 r3
              else (case r3 of
                d # r4 \<Rightarrow>
                  (byte_in 0xF0 0xF0 a \<and> byte_in 0x90 0xBF b \<or> byte_in 0xF1 0xF3 a \<and> byte_in 0x80 0xBF b \<or>
                   byte_in 0xF4 0xF4 a \<and> byte_in 0x80 0x8F b) \<and>
                  byte_in 0x80 0xBF c \<and> byte_in 0x80 0xBF d \<and> from_utf8 r4
              | [] \<Rightarrow> False)
          | [] \<Rightarrow> False)
      | [] \<Rightarrow> False))"

definition strict_json_from_slice :: "env \<Rightarrow> (json \<Rightarrow> string + 'a) \<Rightarrow> ('a \<Rightarrow> json) \<Rightarrow> bytes
    \<Rightarrow> protocol_error + 'a" where
  "strict_json_from_slice E de ser b =
     (if \<not> from_utf8 b then Err PeInvalidUtf8
      else res_bind (parse_duplicate_free_value E b) (\<lambda>v.
           res_bind (map_err PeInvalidJson (de v)) (\<lambda>decoded.
           let unknown = bs_collect (unknown_paths v (ser decoded) []) in
           if unknown \<noteq> [] then Err (PeUnknownFields unknown) else Ok decoded)))"

section \<open>Frames\<close>

datatype frame_codec = FrameCodec (codec_maximum: u32)

definition frame_codec_new :: "u32 \<Rightarrow> protocol_error + frame_codec" where
  "frame_codec_new m = (if m = 0 then Err PeInvalidFrameLimit else Ok (FrameCodec m))"

definition check_size :: "frame_codec \<Rightarrow> nat \<Rightarrow> protocol_error + unit" where
  "check_size c n =
     (if n > unat (codec_maximum c) then Err (PeFrameTooLarge n (codec_maximum c)) else Ok ())"

definition be_val :: "bytes \<Rightarrow> nat" where
  "be_val b = foldl (\<lambda>n c. 256 * n + of_char c) 0 b"

definition encode_frame :: "frame_codec \<Rightarrow> bytes \<Rightarrow> protocol_error + bytes" where
  "encode_frame c payload =
     res_bind (check_size c (length payload)) (\<lambda>_.
     if length payload \<ge> 2 ^ 32 then Err (PeFrameTooLarge (length payload) (codec_maximum c))
     else Ok (be_bytes 4 (length payload) @ payload))"

definition decode_frame :: "frame_codec \<Rightarrow> bytes \<Rightarrow> protocol_error + bytes" where
  "decode_frame c frame =
     (if length frame < 4 then Err (PeTruncatedFrame 0 (length frame))
      else let n = be_val (take 4 frame) in
        res_bind (check_size c n) (\<lambda>_.
        let available = length frame - 4 in
        if available < n then Err (PeTruncatedFrame n available)
        else if available > n then Err (PeTrailingFrameBytes (available - n))
        else Ok (drop 4 frame)))"

text \<open>The stream versions return what is left of the stream, or the stream with the frame appended.\<close>

definition read_exact :: "nat \<Rightarrow> bytes \<Rightarrow> (protocol_error + bytes) \<times> bytes" where
  "read_exact n stream =
     (if length stream < n then (Err PeIo, []) else (Ok (take n stream), drop n stream))"

definition read_frame :: "frame_codec \<Rightarrow> bytes \<Rightarrow> (protocol_error + bytes) \<times> bytes" where
  "read_frame c stream =
     (case read_exact 4 stream of
        (Inl e, rest) \<Rightarrow> (Err e, rest)
      | (Inr header, rest) \<Rightarrow>
          (case check_size c (be_val header) of
             Inl e \<Rightarrow> (Err e, rest)
           | Inr _ \<Rightarrow> read_exact (be_val header) rest))"

definition write_frame :: "frame_codec \<Rightarrow> bytes \<Rightarrow> bytes \<Rightarrow> (protocol_error + unit) \<times> bytes" where
  "write_frame c stream payload =
     (case encode_frame c payload of Inl e \<Rightarrow> (Err e, stream) | Inr f \<Rightarrow> (Ok (), stream @ f))"

definition encode_json :: "env \<Rightarrow> frame_codec \<Rightarrow> json \<Rightarrow> protocol_error + bytes" where
  "encode_json E c v = res_bind (canonical_json E v) (encode_frame c)"

definition decode_json :: "env \<Rightarrow> (json \<Rightarrow> string + 'a) \<Rightarrow> ('a \<Rightarrow> json) \<Rightarrow> frame_codec \<Rightarrow> bytes
    \<Rightarrow> protocol_error + 'a" where
  "decode_json E de ser c frame = res_bind (decode_frame c frame) (strict_json_from_slice E de ser)"

section \<open>Lemmas\<close>

lemma be_val_snoc [simp]: "be_val (b @ [c]) = 256 * be_val b + of_char c"
  by (simp add: be_val_def)

lemma be_val_be_bytes: "n < 256 ^ k \<Longrightarrow> be_val (be_bytes k n) = n"
proof (induction k arbitrary: n)
  case 0
  then show ?case by (simp add: be_val_def)
next
  case (Suc k)
  have "n div 256 < 256 ^ k" using Suc.prems by (simp add: less_mult_imp_div_less mult.commute)
  from Suc.IH [OF this] show ?case by simp
qed

lemma be_bytes_be_val: "be_bytes (length b) (be_val b) = b"
proof (induction b rule: rev_induct)
  case Nil
  then show ?case by simp
next
  case (snoc c b)
  have c: "(of_char c :: nat) < 256" by simp
  then have "(256 * be_val b + of_char c) div 256 = be_val b" by simp
  moreover have "char_of ((256 * be_val b + of_char c) mod 256) = c" by simp
  ultimately show ?case using snoc by simp
qed

lemma unat_u32_less: "unat (w :: u32) < 2 ^ 32"
  using unsigned_less [of w] by simp

lemma encode_frame_iff:
  "encode_frame c p = Inr f \<longleftrightarrow> length p \<le> unat (codec_maximum c) \<and> f = be_bytes 4 (length p) @ p"
  using unat_u32_less [of "codec_maximum c"] by (auto simp: encode_frame_def check_size_def ag_check)

lemma decode_frame_iff:
  "decode_frame c f = Inr p \<longleftrightarrow> length p \<le> unat (codec_maximum c) \<and> f = be_bytes 4 (length p) @ p"
proof
  assume d: "decode_frame c f = Inr p"
  then have len: "4 \<le> length f" and "be_val (take 4 f) \<le> unat (codec_maximum c)"
    and "length f - 4 = be_val (take 4 f)" and p: "p = drop 4 f"
    by (auto simp: decode_frame_def check_size_def ag_check Let_def)
  moreover have "be_bytes 4 (be_val (take 4 f)) = take 4 f"
    using be_bytes_be_val [of "take 4 f"] len by simp
  ultimately show "length p \<le> unat (codec_maximum c) \<and> f = be_bytes 4 (length p) @ p"
    using append_take_drop_id [of 4 f] by simp
next
  assume f: "length p \<le> unat (codec_maximum c) \<and> f = be_bytes 4 (length p) @ p"
  then have "length p < 256 ^ 4" using unat_u32_less [of "codec_maximum c"] by simp
  with f be_val_be_bytes [of "length p" 4] show "decode_frame c f = Inr p"
    by (simp add: decode_frame_def check_size_def Let_def)
qed

lemma read_frame_encoded:
  assumes "encode_frame c p = Inr f"
  shows "read_frame c (f @ rest) = (Inr p, rest)"
proof -
  from assms have p: "length p \<le> unat (codec_maximum c)" and f: "f = be_bytes 4 (length p) @ p"
    by (simp_all add: encode_frame_iff)
  have "length p < 256 ^ 4" using p unat_u32_less [of "codec_maximum c"] by simp
  then have "be_val (be_bytes 4 (length p)) = length p" by (rule be_val_be_bytes)
  with p f show ?thesis by (simp add: read_frame_def read_exact_def check_size_def)
qed

fun write_frames :: "frame_codec \<Rightarrow> bytes \<Rightarrow> bytes list \<Rightarrow> (protocol_error + unit) list \<times> bytes" where
  "write_frames c stream [] = ([], stream)"
| "write_frames c stream (p # ps) =
     (let (r, stream') = write_frame c stream p; (rs, stream'') = write_frames c stream' ps
      in (r # rs, stream''))"

fun read_frames :: "frame_codec \<Rightarrow> nat \<Rightarrow> bytes \<Rightarrow> (protocol_error + bytes) list \<times> bytes" where
  "read_frames c 0 stream = ([], stream)"
| "read_frames c (Suc n) stream =
     (let (r, stream') = read_frame c stream; (rs, stream'') = read_frames c n stream'
      in (r # rs, stream''))"

lemma write_frames_append:
  "list_all (\<lambda>p. length p \<le> unat (codec_maximum c)) ps \<Longrightarrow>
     write_frames c s ps = (map (\<lambda>_. Inr ()) ps, s @ concat (map (\<lambda>p. be_bytes 4 (length p) @ p) ps))"
  by (induction ps arbitrary: s) (simp_all add: write_frame_def encode_frame_iff [THEN iffD2])

lemma read_frames_concat:
  "list_all (\<lambda>p. length p \<le> unat (codec_maximum c)) ps \<Longrightarrow>
     read_frames c (length ps) (concat (map (\<lambda>p. be_bytes 4 (length p) @ p) ps) @ rest) = (map Inr ps, rest)"
proof (induction ps)
  case Nil
  then show ?case by simp
next
  case (Cons p ps)
  then have "encode_frame c p = Inr (be_bytes 4 (length p) @ p)" by (simp add: encode_frame_iff)
  from read_frame_encoded [OF this] Cons show ?case by simp
qed

lemma unique_strict:
  "map_err (\<lambda>_. ()) (unique_value path v) = map_err (\<lambda>_. ()) (strict_value v)"
  "map_err (\<lambda>_. ()) (unique_seq path i vs) = map_err (\<lambda>_. ()) (strict_seq vs)"
  "map_err (\<lambda>_. ()) (unique_map path keys vals ms) = map_err (\<lambda>_. ()) (strict_map keys vals ms)"
proof (induction path v and path i vs and path keys vals ms
    rule: unique_value_unique_seq_unique_map.induct)
  case (2 path vs)
  then show ?case by (cases "unique_seq path 0 vs"; cases "strict_seq vs") simp_all
next
  case (3 path ms)
  then show ?case by (cases "unique_map path [] [] ms"; cases "strict_map [] [] ms") simp_all
next
  case (6 path i v vs)
  show ?case
  proof (cases "unique_value (path @ ''/'' @ show_nat i) v")
    case (Inl e)
    with 6 show ?thesis by (cases "strict_value v") simp_all
  next
    case (Inr w)
    with 6 show ?thesis
      by (cases "strict_value v"; cases "unique_seq path (Suc i) vs"; cases "strict_seq vs") simp_all
  qed
next
  case (8 path keys vals k v ms)
  show ?case
  proof (cases "k \<in> set keys")
    case True
    then show ?thesis by simp
  next
    case new: False
    with 8 show ?thesis
      by (cases "unique_value (path @ ''/'' @ json_pointer_escape k) v"; cases "strict_value v") simp_all
  qed
qed simp_all

lemma map_err_unit_Inr: "map_err (\<lambda>_. ()) r = map_err (\<lambda>_. ()) q \<Longrightarrow> r = Inr x \<longleftrightarrow> q = Inr x"
  by (cases r; cases q) auto

lemma unique_strict_Inr: "unique_value path v = Inr w \<longleftrightarrow> strict_value v = Inr w"
  by (rule map_err_unit_Inr) (rule unique_strict)

lemma parse_duplicate_free_iff:
  "parse_duplicate_free_value E b = Inr v \<longleftrightarrow> parse_strict_value E b = Inr v"
  by (auto simp: parse_duplicate_free_value_def parse_strict_value_def ag_check unique_strict_Inr)

lemma unknown_members_Nil:
  "unknown_members ms ns path = [] \<longleftrightarrow>
     (\<forall>(k, v) \<in> set ms. \<exists>w. map_of ns k = Some w \<and>
        unknown_paths v w (path @ ''/'' @ json_pointer_escape k) = [])"
  by (induction ms) (auto split: option.splits)

lemma bs_collect_Nil [simp]: "bs_collect xs = [] \<longleftrightarrow> xs = []"
  using set_bs_collect [of xs] by (metis set_empty)

lemma strict_json_iff:
  "strict_json_from_slice E de ser b = Inr x \<longleftrightarrow>
     from_utf8 b \<and> (\<exists>v. parse_strict_value E b = Inr v \<and> de v = Inr x \<and> unknown_paths v (ser x) [] = [])"
  by (auto simp: strict_json_from_slice_def ag_check parse_duplicate_free_iff Let_def)

lemma request_new_validates:
  "request_envelope_new E ser rid body = Inr q \<Longrightarrow> request_envelope_validate E ser q = Inr ()"
  by (auto simp: request_envelope_new_def request_envelope_validate_def version_current_def ag_check)

section \<open>Properties\<close>

text \<open>
  C36: the frame codec is exact in both directions.  Decoding a byte string yields a payload
  exactly when encoding that payload yields that byte string, which is the case exactly when the
  payload is within the configured bound and the byte string is its four-byte big-endian length
  followed by it: no trailing, missing or oversized byte is ever accepted.
\<close>

theorem frame_codec_exact:
  "(decode_frame c f = Ok p \<longleftrightarrow> encode_frame c p = Ok f) \<and>
   (decode_frame c f = Ok p \<longleftrightarrow>
      length p \<le> unat (codec_maximum c) \<and> f = be_bytes 4 (length p) @ p)"
  by (simp add: decode_frame_iff encode_frame_iff)

text \<open>
  C37: frames do not run into each other.  Any sequence of payloads within the bound that is
  written to a stream one after the other is read back frame by frame as the same sequence, and
  whatever follows on the stream is left untouched.
\<close>

theorem frame_stream_roundtrip:
  assumes "list_all (\<lambda>p. length p \<le> unat (codec_maximum c)) ps"
  shows "fst (write_frames c [] ps) = map (\<lambda>_. Ok ()) ps \<and>
    read_frames c (length ps) (snd (write_frames c [] ps) @ rest) = (map Ok ps, rest)"
  using write_frames_append [OF assms, of "[]"] read_frames_concat [OF assms] by simp

theorem frame_stream_roundtrip_witness:
  "read_frames (FrameCodec 3) 2 (snd (write_frames (FrameCodec 3) [] [''abc'', []]) @ ''z'') =
     ([Ok ''abc'', Ok []], ''z'')"
proof -
  have "list_all (\<lambda>p. length p \<le> unat (codec_maximum (FrameCodec 3))) [''abc'', []]" by simp
  from frame_stream_roundtrip [OF this, of "''z''"] show ?thesis
    by (simp add: numeral_2_eq_2 del: write_frames.simps read_frames.simps)
qed

text \<open>
  The two strict readers of the workspace agree.  The path-tracking duplicate-free reader of
  the protocol crate accepts exactly the values the digest crate's strict reader accepts and
  returns the same value; so the strict decoder accepts bytes exactly when they are UTF-8, the
  digest crate's strict reader accepts them, the target type decodes the value, and no field of
  the value is missing from the target's own rendering.
\<close>

theorem strict_readers_equivalent:
  "(unique_value path v = Ok w \<longleftrightarrow> strict_value v = Ok w) \<and>
   (strict_json_from_slice E de ser b = Ok x \<longleftrightarrow>
      from_utf8 b \<and> (\<exists>t. parse_strict_value E b = Ok t \<and> de t = Ok x \<and> unknown_paths t (ser x) [] = []))"
  by (simp add: unique_strict_Inr strict_json_iff)

end
