(* ===== verification/AG_Wire.thy ===== *)
theory AG_Wire
  imports AG_Protocol
begin

text \<open>
  Canonical printing and strict reading of wire values, for every struct that a component prints
  with \<open>canonical_json\<close> and reads with \<open>strict_json_from_slice\<close>: \<open>wire_codec\<close> is the contract of
  one Serde pair, and \<open>reads_back\<close> the documented behaviour of the JSON printer and reader.
  \<open>tree_codec\<close> is the contract of a pair whose stored bytes are read without the strict pass.
  \<open>text_env\<close> is a concrete printer and reader with that behaviour.
\<close>

section \<open>Base64 and Ed25519\<close>

text \<open>
  The URL-safe base64 codec and the signature check of the two components that sign: third-party
  code, handed to the definitions that use it.  The concrete instance encodes in hexadecimal and
  accepts a message behind its public key as signature.
\<close>

record sign_env =
  sg_b64_encode :: "bytes \<Rightarrow> string"
  sg_b64_decode :: "string \<Rightarrow> bytes option"
  sg_verify :: "bytes \<Rightarrow> bytes \<Rightarrow> bytes \<Rightarrow> bool"

definition sample_sign_env :: sign_env where
  "sample_sign_env = \<lparr>sg_b64_encode = hex_lower, sg_b64_decode = unhex,
     sg_verify = (\<lambda>pk m s. s = pk @ m)\<rparr>"

section \<open>Strings and lists\<close>

definition strings_json :: "string list \<Rightarrow> json" where
  "strings_json ss = JArr (map JStr ss)"

definition string_deserialize :: "json \<Rightarrow> string + string" where
  "string_deserialize j = (case j of JStr s \<Rightarrow> Ok s | _ \<Rightarrow> Err ''invalid type'')"

definition list_deserialize :: "(json \<Rightarrow> string + 'a) \<Rightarrow> json \<Rightarrow> string + 'a list" where
  "list_deserialize f j = (case j of JArr vs \<Rightarrow> try_map f vs | _ \<Rightarrow> Err ''invalid type'')"

lemma string_deserialize_JStr [simp]: "string_deserialize (JStr s) = Inr s"
  by (simp add: string_deserialize_def)

section \<open>The strict form of a tree\<close>

lemma strict_map_lookup:
  "strict_map keys vals ms = Inr us \<Longrightarrow>
     map_of us k = (case map_of ms k of
        None \<Rightarrow> map_of vals k
      | Some v \<Rightarrow> (case strict_value v of Inr w \<Rightarrow> Some w | Inl _ \<Rightarrow> None))"
proof (induction ms arbitrary: keys vals)
  case (Cons m ms)
  obtain j v where m: "m = (j, v)" by fastforce
  from Cons.prems obtain w where w: "j \<notin> set keys" "strict_value v = Inr w"
    and us: "strict_map (j # keys) (bt_insert j w vals) ms = Inr us"
    by (auto simp: m ag_check split: if_splits)
  have "is_ok (strict_map (j # keys) (bt_insert j w vals) ms)" by (simp add: us)
  then have "j \<notin> fst ` set ms" by (auto simp: strict_accepts_clean(3))
  then have "map_of ms j = None" by (simp add: map_of_eq_None_iff)
  with Cons.IH [OF us] w show ?case by (auto simp: m split: option.split)
qed simp

lemma strict_map_wf: "strict_map [] [] ms = Inr us \<Longrightarrow> bt_wf us"
  using strict_result_strict(3) [of "[]" "[]" ms us] by (simp add: bt_wf_def)

lemma bt_wf_distinct: "bt_wf m \<Longrightarrow> distinct (map fst m)"
  unfolding bt_wf_def using strict_sorted_iff by blast

lemma take_field_distinct:
  "distinct (map fst ms) \<Longrightarrow> map_of ms f = Some v \<Longrightarrow> take_field ms f = Inr v"
proof (induction ms)
  case (Cons m ms)
  have "filter (\<lambda>m. fst m = f) ms = []" if "fst m = f"
    using that Cons.prems(1) by (auto simp: filter_empty_conv image_iff)
  with Cons show ?case by (cases m) (auto simp: take_field_def split: if_splits)
qed simp

lemma strict_struct_fields:
  assumes w: "strict_value (JObj (zip fs vs)) = Inr w" and fs: "distinct fs" "length fs = length vs"
  shows "\<exists>ws. struct_fields fs w = Inr ws \<and> list_all2 (\<lambda>v x. strict_value v = Inr x) vs ws"
proof -
  from w obtain us where us: "strict_map [] [] (zip fs vs) = Inr us" and w_us: "w = JObj us"
    by (auto simp: ag_check)
  have dist: "distinct (map fst us)" by (rule bt_wf_distinct [OF strict_map_wf [OF us]])
  have clean: "list_all json_clean vs"
    using strict_accepts_clean(3) [of "[]" "[]" "zip fs vs"] us fs(2)
    by (auto simp: list_all_length)
  define ws where "ws = map (\<lambda>v. case strict_value v of Inr x \<Rightarrow> x | Inl _ \<Rightarrow> JNull) vs"
  have "\<exists>x. strict_value v = Inr x" if "v \<in> set vs" for v
    using clean strict_accepts_clean(1) [of v] that by (simp add: is_ok_iff list_all_iff)
  then have ws: "list_all2 (\<lambda>v x. strict_value v = Inr x) vs ws"
    by (fastforce simp: ws_def list_all2_map2 list_all2_same)
  have mem: "fst m \<in> set fs" if m: "m \<in> set us" for m
  proof -
    from m dist have "map_of us (fst m) = Some (snd m)" by simp
    with strict_map_lookup [OF us, of "fst m"] show ?thesis
      by (auto split: option.splits dest!: map_of_SomeD dest: set_zip_leftD)
  qed
  have "list_all2 (\<lambda>f x. take_field us f = Inr x) fs ws"
  proof (rule list_all2_all_nthI)
    show "length fs = length ws" by (simp add: ws_def fs)
    fix i assume i: "i < length fs"
    have "map_of (zip fs vs) (fs ! i) = Some (vs ! i)"
      using fs i by (simp add: map_of_zip_nth)
    with strict_map_lookup [OF us, of "fs ! i"] ws i fs(2)
    have "map_of us (fs ! i) = Some (ws ! i)" by (auto dest: list_all2_nthD)
    then show "take_field us (fs ! i) = Inr (ws ! i)" by (rule take_field_distinct [OF dist])
  qed
  with mem have "struct_fields fs w = Inr ws"
    by (auto simp: w_us struct_fields_def try_map_Inr_iff list_all_iff)
  with ws show ?thesis by blast
qed

lemma strict_no_unknown_paths:
  "strict_value v = Inr w \<Longrightarrow> unknown_paths w v path = []"
proof (induction v arbitrary: w path)
  case (JArr vs)
  have "unknown_elements ws vs i path = []" if "strict_seq vs = Inr ws"
    "\<And>v w path. v \<in> set vs \<Longrightarrow> strict_value v = Inr w \<Longrightarrow> unknown_paths w v path = []" for i ws
    using that by (induction vs arbitrary: i ws) (auto simp: ag_check)
  with JArr show ?case by (fastforce simp: ag_check)
next
  case (JObj ms)
  from JObj.prems obtain us where us: "strict_map [] [] ms = Inr us" and w: "w = JObj us"
    by (auto simp: ag_check)
  have dist: "distinct (map fst us)" by (rule bt_wf_distinct [OF strict_map_wf [OF us]])
  have "\<exists>v. map_of ms k = Some v \<and> unknown_paths x v p = []" if "(k, x) \<in> set us" for k x p
  proof -
    from dist that have "map_of us k = Some x" by simp
    with strict_map_lookup [OF us, of k] obtain v where v: "map_of ms k = Some v" "strict_value v = Inr x"
      by (auto split: option.splits sum.splits)
    have "unknown_paths x v p = []"
      using JObj.IH [of "(k, v)" v x p] map_of_SomeD [OF v(1)] v(2) by simp
    with v(1) show ?thesis by blast
  qed
  then show ?case by (auto simp: w unknown_members_Nil)
qed auto

section \<open>The contract of a Serde pair\<close>

text \<open>
  What the JSON printer and reader promise for one tree: the printed bytes are UTF-8, and they
  read as a tree with the same strict form.  The order of object members is left open.
\<close>

definition reads_back :: "env \<Rightarrow> json \<Rightarrow> bool" where
  "reads_back E v \<longleftrightarrow>
     (\<forall>b. env_jcs_to_vec E v = Inr b \<longrightarrow>
        from_utf8 b \<and> (\<exists>u. env_json_tree E b = Inr u \<and> strict_value u = strict_value v))"

definition printing_reads_back :: "env \<Rightarrow> json \<Rightarrow> bool" where
  "printing_reads_back E v \<longleftrightarrow>
     reads_back E v \<and> (case strict_value v of Inr s \<Rightarrow> reads_back E s | Inl _ \<Rightarrow> True)"

lemma canonical_json_strict:
  assumes "printing_reads_back E v" and "canonical_json E v = Inr b"
  obtains s where "strict_value v = Inr s" and "parse_strict_value E b = Inr s" and "from_utf8 b"
proof -
  from assms(2) obtain e s where e: "env_jcs_to_vec E v = Inr e" "parse_strict_value E e = Inr s"
    and b: "env_jcs_to_vec E s = Inr b"
    by (auto simp: canonical_json_def canonicalize_def ag_check)
  from assms(1) e have s: "strict_value v = Inr s"
    by (auto simp: printing_reads_back_def reads_back_def parse_strict_value_def ag_check)
  with assms(1) b obtain u where u: "env_json_tree E b = Inr u" "strict_value u = strict_value s"
    and utf8: "from_utf8 b"
    by (auto simp: printing_reads_back_def reads_back_def)
  have "strict_value s = Inr s" by (rule strict_stable(1) [OF strict_result_strict(1) [OF s]])
  with u have "parse_strict_value E b = Inr s" by (simp add: parse_strict_value_def)
  with s utf8 that show thesis by blast
qed

lemma canonical_same_strict:
  assumes "printing_reads_back E v" and "printing_reads_back E w"
    and "canonical_json E v = Inr b" and "canonical_json E w = Inr b"
  obtains s where "strict_value v = Inr s" and "strict_value w = Inr s"
proof -
  obtain s where "strict_value v = Inr s" "parse_strict_value E b = Inr s"
    using canonical_json_strict [OF assms(1,3)] by blast
  moreover obtain s' where "strict_value w = Inr s'" "parse_strict_value E b = Inr s'"
    using canonical_json_strict [OF assms(2,4)] by blast
  ultimately show thesis using that by simp
qed

lemma canonical_fields:
  assumes "printing_reads_back E (JObj (zip fs vs))" and "printing_reads_back E (JObj (zip fs ws))"
    and "canonicalize E (JObj (zip fs vs)) = Inr b" and "canonicalize E (JObj (zip fs ws)) = Inr b"
    and fs: "distinct fs" "length fs = length vs" "length fs = length ws"
    and atoms: "list_all (\<lambda>v. strict_value v = Inr v) vs" "list_all (\<lambda>v. strict_value v = Inr v) ws"
  shows "vs = ws"
proof -
  from assms(3,4) have "canonical_json E (JObj (zip fs vs)) = Inr b" "canonical_json E (JObj (zip fs ws)) = Inr b"
    by (simp_all add: canonical_json_def)
  then obtain s where s: "strict_value (JObj (zip fs vs)) = Inr s" "strict_value (JObj (zip fs ws)) = Inr s"
    by (rule canonical_same_strict [OF assms(1,2)])
  obtain as where as: "struct_fields fs s = Inr as" "list_all2 (\<lambda>v x. strict_value v = Inr x) vs as"
    using strict_struct_fields [OF s(1) fs(1,2)] by blast
  obtain bs where bs: "struct_fields fs s = Inr bs" "list_all2 (\<lambda>v x. strict_value v = Inr x) ws bs"
    using strict_struct_fields [OF s(2) fs(1,3)] by blast
  have eq: "xs = ys" if "list_all2 (\<lambda>v x. strict_value v = Inr x) xs ys" "list_all (\<lambda>v. strict_value v = Inr v) xs" for xs ys
    using that by (induction rule: list_all2_induct) auto
  from eq [OF as(2) atoms(1)] eq [OF bs(2) atoms(2)] as(1) bs(1) show ?thesis by simp
qed

locale wire_codec =
  fixes ser :: "'a \<Rightarrow> json" and de :: "json \<Rightarrow> string + 'a"
  assumes de_strict: "strict_value (ser x) = Inr w \<Longrightarrow> de w = Inr x"
begin

lemma read_printed:
  assumes "printing_reads_back E (ser x)" and "canonical_json E (ser x) = Inr b"
  shows "strict_json_from_slice E de ser b = Inr x"
proof -
  obtain w where "strict_value (ser x) = Inr w" "parse_strict_value E b = Inr w" "from_utf8 b"
    by (rule canonical_json_strict [OF assms])
  then show ?thesis using de_strict strict_no_unknown_paths by (simp add: strict_json_iff)
qed

lemma ser_inject: "json_clean (ser x) \<Longrightarrow> ser x = ser y \<Longrightarrow> x = y"
  using strict_accepts_clean(1) [of "ser x"] de_strict [of x] de_strict [of y]
  by (auto simp: is_ok_iff)

lemma printed_inject:
  assumes "printing_reads_back E (ser x)" and "printing_reads_back E (ser y)"
    and "canonical_json E (ser x) = Inr b" and "canonical_json E (ser y) = Inr b"
  shows "x = y"
  using read_printed [OF assms(1,3)] read_printed [OF assms(2,4)] by simp

lemma list_strict: "strict_seq (map ser xs) = Inr ws \<Longrightarrow> try_map de ws = Inr xs"
  by (induction xs arbitrary: ws) (auto simp: ag_check de_strict)

end

section \<open>Reading a tree that is not in strict form\<close>

text \<open>
  \<open>serde_json::from_slice\<close> reads a value from the tree in the text, whose members may stand in
  another order than in the strict form.
\<close>

lemma strict_seq_list: "strict_seq vs = Inr ws \<longleftrightarrow> list_all2 (\<lambda>v w. strict_value v = Inr w) vs ws"
  by (induction vs arbitrary: ws) (auto simp: ag_check list_all2_Cons1)

lemma take_field_SomeD: "take_field ms f = Inr v \<Longrightarrow> map_of ms f = Some v"
proof -
  assume "take_field ms f = Inr v"
  then have "map_of (filter (\<lambda>m. fst m = f) ms) f = Some v"
    by (auto simp: take_field_def split: list.splits dest!: filter_eq_ConsD)
  moreover have "map_of (filter (\<lambda>m. fst m = f) ms) f = map_of ms f" by (induction ms) auto
  ultimately show ?thesis by simp
qed

lemma struct_fields_strict:
  assumes u: "strict_value u = Inr s" and ws: "struct_fields fs s = Inr ws"
  shows "\<exists>us. struct_fields fs u = Inr us \<and> list_all2 (\<lambda>u w. strict_value u = Inr w) us ws"
proof (cases u)
  case (JArr vs)
  with u ws show ?thesis
    by (auto simp: ag_check struct_fields_def strict_seq_list list_all2_lengthD split: if_splits)
next
  case (JObj ms)
  with u obtain ss where ss: "strict_map [] [] ms = Inr ss" and s: "s = JObj ss" by (auto simp: ag_check)
  have keys: "distinct (map fst ms)"
    using ss strict_accepts_clean(3) [of "[]" "[]" ms] by simp
  have look: "map_of ss k = (case map_of ms k of None \<Rightarrow> None
      | Some v \<Rightarrow> (case strict_value v of Inr w \<Rightarrow> Some w | Inl _ \<Rightarrow> None))" for k
    using strict_map_lookup [OF ss, of k] by (simp split: option.split)
  have clean: "list_all (\<lambda>m. json_clean (snd m)) ms"
    using ss strict_accepts_clean(3) [of "[]" "[]" ms] by simp
  have mem: "fst m \<in> set fs" if m: "m \<in> set ms" for m
  proof -
    from m keys have "map_of ms (fst m) = Some (snd m)" by simp
    moreover have "\<exists>w. strict_value (snd m) = Inr w"
      using clean m strict_accepts_clean(1) [of "snd m"] by (auto simp: list_all_iff is_ok_iff)
    ultimately have "map_of ss (fst m) \<noteq> None" using look [of "fst m"] by auto
    then have "fst m \<in> fst ` set ss" by (metis map_of_eq_None_iff)
    with ws s show ?thesis by (auto simp: struct_fields_def list_all_iff split: if_splits)
  qed
  have "\<exists>v. take_field ms f = Inr v \<and> strict_value v = Inr w" if "take_field ss f = Inr w" for f w
  proof -
    from take_field_SomeD [OF that] look [of f] obtain v where "map_of ms f = Some v" "strict_value v = Inr w"
      by (auto split: option.splits sum.splits)
    with take_field_distinct [OF keys] show ?thesis by blast
  qed
  then obtain g where g: "take_field ms f = Inr (g f w) \<and> strict_value (g f w) = Inr w" if "take_field ss f = Inr w" for f w
    by metis
  have tf: "list_all2 (\<lambda>f w. take_field ss f = Inr w) fs ws"
    using ws s by (auto simp: struct_fields_def try_map_Inr_iff split: if_splits)
  then have "list_all2 (\<lambda>f v. take_field ms f = Inr v) fs (map2 g fs ws) \<and>
      list_all2 (\<lambda>v w. strict_value v = Inr w) (map2 g fs ws) ws"
    by (induction rule: list_all2_induct) (auto simp: g)
  with mem JObj show ?thesis
    by (auto simp: struct_fields_def list_all_iff try_map_Inr_iff)
qed (use u ws in \<open>auto simp: struct_fields_def\<close>)

lemma strict_atom [simp]:
  "strict_value u = Inr (JStr s) \<longleftrightarrow> u = JStr s" "strict_value u = Inr (JNum n) \<longleftrightarrow> u = JNum n"
  "strict_value u = Inr JNull \<longleftrightarrow> u = JNull"
  by (cases u; auto simp: ag_check)+

locale tree_codec =
  fixes ser :: "'a \<Rightarrow> json" and de :: "json \<Rightarrow> string + 'a" and valid :: "'a \<Rightarrow> bool"
  assumes reads: "valid x \<Longrightarrow> strict_value (ser x) = Inr w \<Longrightarrow> strict_value u = Inr w \<Longrightarrow> de u = Inr x"
begin

lemma stored_roundtrip:
  assumes "valid x" and "printing_reads_back E (ser x)" and "canonicalize E (ser x) = Inr b"
  shows "res_bind (env_json_tree E b) de = Inr x"
proof -
  from assms(3) have "canonical_json E (ser x) = Inr b" by (simp add: canonical_json_def)
  then obtain s where s: "strict_value (ser x) = Inr s" "parse_strict_value E b = Inr s"
    by (rule canonical_json_strict [OF assms(2)])
  then obtain u where "env_json_tree E b = Inr u" "strict_value u = Inr s"
    by (auto simp: parse_strict_value_def ag_check)
  with reads [OF assms(1) s(1)] show ?thesis by simp
qed

end

text \<open>A struct of the declared fields reads back from any tree with its strict form.\<close>

lemma struct_tree:
  assumes "strict_value (JObj (zip fs vs)) = Inr w" and "strict_value u = Inr w"
    and "distinct fs" and "length fs = length vs"
  shows "\<exists>us. struct_fields fs u = Inr us \<and>
    list_all2 (\<lambda>v u. \<exists>w. strict_value v = Inr w \<and> strict_value u = Inr w) vs us"
proof -
  obtain ws where ws: "struct_fields fs w = Inr ws" "list_all2 (\<lambda>v x. strict_value v = Inr x) vs ws"
    using strict_struct_fields [OF assms(1,3,4)] by blast
  obtain us where us: "struct_fields fs u = Inr us" "list_all2 (\<lambda>u w. strict_value u = Inr w) us ws"
    using struct_fields_strict [OF assms(2) ws(1)] by blast
  have "list_all2 (\<lambda>v u. \<exists>w. strict_value v = Inr w \<and> strict_value u = Inr w) vs us"
    using ws(2) us(2) by (auto simp: list_all2_conv_all_nth)
  with us(1) show ?thesis by blast
qed

text \<open>A struct with atomic fields reads back as it was printed.\<close>

fun json_atom :: "json \<Rightarrow> bool" where
  "json_atom (JStr s) = True"
| "json_atom (JNum n) = True"
| "json_atom JNull = True"
| "json_atom _ = False"

lemma strict_json_atom: "json_atom v \<Longrightarrow> strict_value v = Inr v"
  by (cases v) auto

lemma struct_tree_atoms:
  assumes w: "strict_value (JObj (zip fs vs)) = Inr w" "strict_value u = Inr w"
    and fs: "distinct fs" "length fs = length vs" and atoms: "list_all json_atom vs"
  shows "struct_fields fs u = Inr vs"
proof -
  obtain us where us: "struct_fields fs u = Inr us"
    "list_all2 (\<lambda>v u. \<exists>w. strict_value v = Inr w \<and> strict_value u = Inr w) vs us"
    using struct_tree [OF w fs] by blast
  have same: "json_atom v \<Longrightarrow> strict_value v = Inr x \<Longrightarrow> strict_value y = Inr x \<Longrightarrow> y = v" for v x y
    by (cases v) auto
  from us(2) atoms have "us = vs"
    by (induction rule: list_all2_induct) (auto dest: same)
  with us(1) show ?thesis by simp
qed

section \<open>A concrete printer and reader\<close>

text \<open>
  \<open>text_env\<close> prints a tree in an unambiguous prefix form over ASCII, strings in hexadecimal and
  numbers in unary, and reads that form back.
\<close>

fun text_print :: "json \<Rightarrow> bytes" where
  "text_print JNull = ''n''"
| "text_print (JBool b) = (if b then ''t'' else ''u'')"
| "text_print (JNum n) = (if 0 \<le> n then ''p'' else ''m'') @ replicate (nat \<bar>n\<bar>) (CHR ''1'') @ ''.''"
| "text_print (JFloat f) = ''f'' @ replicate (unat f) (CHR ''1'') @ ''.''"
| "text_print (JStr s) = ''s'' @ hex_lower s @ ''.''"
| "text_print (JArr vs) = ''a'' @ concat (map text_print vs) @ ''.''"
| "text_print (JObj ms) = ''o'' @ concat (map (\<lambda>m. hex_lower (fst m) @ '','' @ text_print (snd m)) ms) @ ''.''"

definition text_token :: "bytes \<Rightarrow> bytes \<times> bytes" where
  "text_token b = (takeWhile is_lower_hex b, drop 1 (dropWhile is_lower_hex b))"

fun text_read :: "nat \<Rightarrow> bytes \<Rightarrow> (json \<times> bytes) option"
  and text_read_seq :: "nat \<Rightarrow> bytes \<Rightarrow> (json list \<times> bytes) option"
  and text_read_map :: "nat \<Rightarrow> bytes \<Rightarrow> ((string \<times> json) list \<times> bytes) option"
where
  "text_read 0 b = None"
| "text_read (Suc n) [] = None"
| "text_read (Suc n) (c # b) =
     (if c = CHR ''n'' then Some (JNull, b)
      else if c = CHR ''t'' then Some (JBool True, b)
      else if c = CHR ''u'' then Some (JBool False, b)
      else if c = CHR ''p'' then Some (JNum (int (length (fst (text_token b)))), snd (text_token b))
      else if c = CHR ''m'' then Some (JNum (- int (length (fst (text_token b)))), snd (text_token b))
      else if c = CHR ''f'' then Some (JFloat (of_nat (length (fst (text_token b)))), snd (text_token b))
      else if c = CHR ''s'' then map_option (\<lambda>s. (JStr s, snd (text_token b))) (unhex (fst (text_token b)))
      else if c = CHR ''a'' then map_option (\<lambda>(vs, r). (JArr vs, r)) (text_read_seq n b)
      else if c = CHR ''o'' then map_option (\<lambda>(ms, r). (JObj ms, r)) (text_read_map n b)
      else None)"
| "text_read_seq 0 b = None"
| "text_read_seq (Suc n) b =
     (if take 1 b = ''.'' then Some ([], drop 1 b)
      else case text_read n b of None \<Rightarrow> None
      | Some (v, r) \<Rightarrow> map_option (\<lambda>(vs, q). (v # vs, q)) (text_read_seq n r))"
| "text_read_map 0 b = None"
| "text_read_map (Suc n) b =
     (if take 1 b = ''.'' then Some ([], drop 1 b)
      else case unhex (fst (text_token b)) of None \<Rightarrow> None
      | Some k \<Rightarrow> (case text_read n (snd (text_token b)) of None \<Rightarrow> None
        | Some (v, r) \<Rightarrow> map_option (\<lambda>(ms, q). ((k, v) # ms, q)) (text_read_map n r)))"

definition text_env :: env where
  "text_env = sample_env\<lparr>env_jcs_to_vec := (\<lambda>v. Ok (text_print v)),
     env_json_tree := (\<lambda>b. case text_read (Suc (length b)) b of
        Some (v, []) \<Rightarrow> Ok v | _ \<Rightarrow> Err ''syntax'')\<rparr>"

lemma text_token_hex: "list_all is_lower_hex h \<Longrightarrow> \<not> is_lower_hex c \<Longrightarrow> text_token (h @ c # r) = (h, r)"
  by (simp add: text_token_def list_all_iff)

lemma text_not_hex [simp]: "\<not> is_lower_hex (CHR ''.'')" "\<not> is_lower_hex (CHR '','')"
  by (simp_all add: is_lower_hex_def is_ascii_digit_def)

lemmas text_hex = hex_lower_sound [THEN conjunct2, THEN conjunct1]
  hex_lower_sound [THEN conjunct2, THEN conjunct2]

lemma text_ones: "list_all is_lower_hex (replicate n (CHR ''1''))"
  by (simp add: list_all_iff is_lower_hex_def is_ascii_digit_def)

lemma text_token_ones: "text_token (replicate n (CHR ''1'') @ CHR ''.'' # r) = (replicate n (CHR ''1''), r)"
  by (rule text_token_hex) (simp_all add: text_ones)

lemma text_token_str: "text_token (hex_lower s @ CHR ''.'' # r) = (hex_lower s, r)"
  by (rule text_token_hex) (simp_all add: text_hex)

lemma text_print_first: "\<exists>c b. text_print v = c # b \<and> c \<noteq> CHR ''.''"
  by (cases v) auto

lemma text_key_first: "take 1 (hex_lower k @ CHR '','' # b) \<noteq> ''.''"
  using text_hex(1) [of k] by (cases "hex_lower k") auto

lemma text_read_seq_print:
  assumes "\<And>v n r. v \<in> set vs \<Longrightarrow> length (text_print v) \<le> n \<Longrightarrow> text_read n (text_print v @ r) = Some (v, r)"
    and "length (concat (map text_print vs)) < n"
  shows "text_read_seq n (concat (map text_print vs) @ CHR ''.'' # r) = Some (vs, r)"
  using assms
proof (induction vs arbitrary: n)
  case Nil
  then show ?case by (cases n) simp_all
next
  case (Cons v vs)
  obtain m where n: "n = Suc m" using Cons.prems(2) by (cases n) auto
  obtain c b where v: "text_print v = c # b" "c \<noteq> CHR ''.''" using text_print_first by blast
  have "text_read m (text_print v @ concat (map text_print vs) @ CHR ''.'' # r) =
      Some (v, concat (map text_print vs) @ CHR ''.'' # r)"
    by (rule Cons.prems(1)) (use Cons.prems(2) n in simp_all)
  moreover have "text_read_seq m (concat (map text_print vs) @ CHR ''.'' # r) = Some (vs, r)"
    by (rule Cons.IH) (use Cons.prems n v in simp_all)
  ultimately show ?case using v by (simp add: n)
qed

abbreviation text_member :: "string \<times> json \<Rightarrow> bytes" where
  "text_member m \<equiv> hex_lower (fst m) @ '','' @ text_print (snd m)"

lemma text_read_map_print:
  assumes "\<And>m n r. m \<in> set ms \<Longrightarrow> length (text_print (snd m)) \<le> n
      \<Longrightarrow> text_read n (text_print (snd m) @ r) = Some (snd m, r)"
    and "length (concat (map text_member ms)) < n"
  shows "text_read_map n (concat (map text_member ms) @ CHR ''.'' # r) = Some (ms, r)"
  using assms
proof (induction ms arbitrary: n)
  case Nil
  then show ?case by (cases n) simp_all
next
  case (Cons m ms)
  obtain l where n: "n = Suc l" using Cons.prems(2) by (cases n) auto
  let ?rest = "concat (map text_member ms) @ CHR ''.'' # r"
  have v: "text_read l (text_print (snd m) @ ?rest) = Some (snd m, ?rest)"
    by (rule Cons.prems(1)) (use Cons.prems(2) n in simp_all)
  have vs: "text_read_map l ?rest = Some (ms, r)"
    by (rule Cons.IH) (use Cons.prems n in simp_all)
  have k: "text_token (hex_lower (fst m) @ CHR '','' # text_print (snd m) @ ?rest)
      = (hex_lower (fst m), text_print (snd m) @ ?rest)"
    by (rule text_token_hex) (simp_all add: text_hex)
  show ?case
    using v vs k text_key_first [of "fst m" "text_print (snd m) @ ?rest"] by (simp add: n text_hex)
qed

lemma text_read_print: "length (text_print v) \<le> n \<Longrightarrow> text_read n (text_print v @ r) = Some (v, r)"
proof (induction v arbitrary: n r)
  case (JArr vs)
  from JArr.prems obtain m where n: "n = Suc m" by (cases n) auto
  have "text_read_seq m (concat (map text_print vs) @ CHR ''.'' # r) = Some (vs, r)"
    by (rule text_read_seq_print) (use JArr n in simp_all)
  then show ?case by (simp add: n)
next
  case (JObj ms)
  from JObj.prems obtain m where n: "n = Suc m" by (cases n) auto
  have "text_read_map m (concat (map text_member ms) @ CHR ''.'' # r) = Some (ms, r)"
    by (rule text_read_map_print) (use JObj.prems JObj.IH [OF _ snds.intros] n in \<open>simp_all add: snds.simps\<close>)
  then show ?case by (simp add: n)
next
  case JNull
  then show ?case by (cases n) (simp_all add: text_token_ones text_token_str text_hex)
next
  case (JBool b)
  then show ?case by (cases n; cases b) (simp_all add: text_token_ones text_token_str text_hex)
next
  case (JNum x)
  then show ?case by (cases n) (simp_all add: text_token_ones text_token_str text_hex)
next
  case (JFloat x)
  then show ?case by (cases n) (simp_all add: text_token_ones text_token_str text_hex)
next
  case (JStr s)
  then show ?case by (cases n) (simp_all add: text_token_ones text_token_str text_hex)
qed

text \<open>Every printed byte is ASCII.\<close>

definition is_ascii :: "char \<Rightarrow> bool" where
  "is_ascii c \<longleftrightarrow> (of_char c :: nat) < 128"

lemma from_utf8_ascii: "list_all is_ascii b \<Longrightarrow> from_utf8 b"
  by (induction b) (simp_all add: is_ascii_def byte_in_def)

lemma lower_hex_ascii: "is_lower_hex c \<Longrightarrow> is_ascii c"
  by (auto simp: is_lower_hex_def is_ascii_digit_def is_ascii_def less_eq_char_def)

lemma hex_lower_ascii: "list_all is_ascii (hex_lower b)"
  using text_hex(1) [of b] by (auto simp: list_all_iff lower_hex_ascii)

lemma text_print_ascii: "list_all is_ascii (text_print v)"
proof (induction v)
  case (JObj ms)
  then have "\<forall>m \<in> set ms. list_all is_ascii (text_print (snd m))" by (auto simp: snds.simps)
  then show ?case using hex_lower_ascii by (force simp: list_all_iff is_ascii_def)
qed (use hex_lower_ascii in \<open>auto simp: list_all_iff is_ascii_def\<close>)

lemma text_env_simps [simp]:
  "env_jcs_to_vec text_env v = Inr (text_print v)"
  "env_json_tree text_env (text_print v) = Inr v"
  using text_read_print [of v "Suc (length (text_print v))" "[]"] by (simp_all add: text_env_def)

lemma text_env_codec: "codec_ok text_env"
  using sample_env_ok by (simp add: codec_ok_def text_env_def)

lemma text_env_reads_back: "printing_reads_back text_env v"
  by (auto simp: printing_reads_back_def reads_back_def from_utf8_ascii text_print_ascii
      split: sum.splits)

lemma text_env_canonical:
  "strict_value v = Inr s \<Longrightarrow> canonical_json text_env v = Inr (text_print s)"
  by (simp add: canonical_json_def canonicalize_def parse_strict_value_def)

lemma text_env_clean: "json_clean v \<Longrightarrow> \<exists>b. canonical_json text_env v = Inr b"
  using strict_accepts_clean(1) [of v] text_env_canonical [of v] by (auto simp: is_ok_iff)

end
