(* ===== verification/AG_Docket.thy ===== *)
theory AG_Docket
  imports AG_Wire
begin

text \<open>
  \<open>crates/ag-app/src/docket_issuance.rs\<close>: the office that evaluates an authorization request of
  the Docket system against a root-owned catalog and issues one signed record per decision.

  The base64 codec and the Ed25519 operations are third-party code: they are the fields of
  \<open>sign_env\<close> (theory \<open>AG_Wire\<close>) and of the signer.  \<open>issue\<close> returns its result together with the ledger after the
  call, because a failure after the burn leaves the decision burned.
\<close>

section \<open>Data\<close>

definition supported_request_schema :: string where
  "supported_request_schema = ''gwr:authz-request:v1''"
definition issuance_schema :: string where
  "issuance_schema = ''ag.docket-issuance:v1''"
definition supported_effect_class :: string where
  "supported_effect_class = ''git-ref-update:v1''"
definition body_digest_domain :: string where
  "body_digest_domain = ''ag.docket-issuance.body.v1''"
definition request_digest_domain :: string where
  "request_digest_domain = ''ag.docket-issuance.request.v1''"
definition consumption_digest_domain :: string where
  "consumption_digest_domain = ''ag.docket-issuance.consumption.v1''"
definition decision_digest_domain :: string where
  "decision_digest_domain = ''ag.docket-issuance.decision.v1''"
definition signature_prefix :: bytes where
  "signature_prefix =
     ''ag-ng'' @ [CHR 0x00] @ ''docket-issuance-signature'' @ [CHR 0x00] @ ''v1'' @ [CHR 0x00]"

record docket_request =
  dr_authz_request_format :: string
  dr_attempt :: string
  dr_attempt_version :: u64
  dr_effect_class :: string
  dr_prepared_attempt_digest :: string
  dr_repository :: string
  dr_target_ref :: string
  dr_basis :: string
  dr_allowed_paths :: "string list"
  dr_settlement_premises :: "string list"
  dr_requested_actor :: string
  dr_goal :: string
  dr_work_request :: string
  dr_preparation_run :: string
  dr_candidate :: string
  dr_candidate_digest :: string
  dr_request_created_at_ms :: u64
  dr_admitted_at_ms :: u64

record issuance_context =
  ix_authority_domain :: string
  ix_epoch :: u64
  ix_lifecycle_nonce :: string
  ix_catalog_identity :: string

record docket_target =
  dt_target_id :: string
  dt_repository :: string
  dt_target_ref :: string
  dt_effect_class :: string
  dt_admitted_actors :: "string list"
  dt_admitted_path_prefixes :: "string list"

record docket_catalog =
  dc_identity :: string
  dc_targets :: "(string, docket_target) btree_map"

record authorization_premise =
  ap_kind :: string
  ap_statement :: string

datatype residual_status = NoneRecorded | Unrepresented | ResidualPresent

record upstream_residual =
  ur_source_system :: string
  ur_obligation_id :: string
  ur_subject :: string
  ur_kind :: string
  ur_statement :: string

record residual_obligations =
  ro_status :: residual_status
  ro_items :: "upstream_residual list"

record authority_consumption =
  ac_ledger :: string
  ac_use_digest :: string

record request_source =
  rc_schema :: string
  rc_raw_sha256 :: string
  rc_ag_canonical_digest :: string

record docket_binding =
  db_attempt :: string
  db_prepared_attempt_digest :: string
  db_effect_class :: string
  db_repository :: string
  db_target_ref :: string
  db_basis :: string
  db_allowed_paths :: "string list"
  db_requested_actor :: string

record issuance_body =
  ib_issuance_id :: string
  ib_decision_id :: string
  ib_issuer_principal :: string
  ib_issuer_key_id :: string
  ib_decision_context :: issuance_context
  ib_principal_chain :: "string list"
  ib_target_id :: string
  ib_request_source :: request_source
  ib_docket :: docket_binding
  ib_issued_at_unix_ms :: u64
  ib_expires_at_unix_ms :: u64
  ib_premises :: "authorization_premise list"
  ib_residual_obligations :: residual_obligations
  ib_consumption :: authority_consumption
  ib_decision :: string

record issuance_authentication =
  ia_signer_key_id :: string
  ia_signer_public_key :: string
  ia_signature :: string

record issuance_envelope =
  ie_schema :: string
  ie_body_b64 :: string
  ie_authentication :: issuance_authentication

datatype refusal_detail = DetailText string | DetailProtocol protocol_error

datatype issuance_refusal =
    UnsupportedRequestSchema string string
  | MalformedRequest refusal_detail
  | UnsupportedEffectClass string
  | TargetNotInCatalog string string
  | ActorNotAdmitted string string
  | PathOutsideScope string string
  | MalformedPrincipalChain string
  | AuthorityUnavailable string
  | ProductionFailed refusal_detail

datatype issuance_ledger = IssuanceLedger (consumed: "(string, string) btree_map")

record issuance_office =
  of_catalog :: docket_catalog
  of_context :: issuance_context
  of_principal_chain :: "string list"
  of_issuer_principal :: string

datatype docket_decision = DocketDecision (decision_id: string) (decision_target: string)

record issuance_signer =
  is_key_id :: string
  is_public_key :: bytes
  is_key_pair_sign :: "bytes \<Rightarrow> bytes"

section \<open>JSON trees and decoding\<close>

definition docket_request_fields :: "string list" where
  "docket_request_fields =
     [''authz_request_format'', ''attempt'', ''attempt_version'', ''effect_class'',
      ''prepared_attempt_digest'', ''repository'', ''target_ref'', ''basis'', ''allowed_paths'',
      ''settlement_premises'', ''requested_actor'', ''goal'', ''work_request'', ''preparation_run'',
      ''candidate'', ''candidate_digest'', ''request_created_at_ms'', ''admitted_at_ms'']"

definition docket_request_json :: "docket_request \<Rightarrow> json" where
  "docket_request_json r = JObj (zip docket_request_fields
     [JStr (dr_authz_request_format r), JStr (dr_attempt r), u64_json (dr_attempt_version r),
      JStr (dr_effect_class r), JStr (dr_prepared_attempt_digest r), JStr (dr_repository r),
      JStr (dr_target_ref r), JStr (dr_basis r), strings_json (dr_allowed_paths r),
      strings_json (dr_settlement_premises r), JStr (dr_requested_actor r), JStr (dr_goal r),
      JStr (dr_work_request r), JStr (dr_preparation_run r), JStr (dr_candidate r),
      JStr (dr_candidate_digest r), u64_json (dr_request_created_at_ms r), u64_json (dr_admitted_at_ms r)])"

definition docket_request_deserialize :: "json \<Rightarrow> string + docket_request" where
  "docket_request_deserialize j =
     res_bind (struct_fields docket_request_fields j) (\<lambda>vs.
     res_bind (string_deserialize (vs ! 0)) (\<lambda>f0.
     res_bind (string_deserialize (vs ! 1)) (\<lambda>f1.
     res_bind (u64_deserialize (vs ! 2)) (\<lambda>f2.
     res_bind (string_deserialize (vs ! 3)) (\<lambda>f3.
     res_bind (string_deserialize (vs ! 4)) (\<lambda>f4.
     res_bind (string_deserialize (vs ! 5)) (\<lambda>f5.
     res_bind (string_deserialize (vs ! 6)) (\<lambda>f6.
     res_bind (string_deserialize (vs ! 7)) (\<lambda>f7.
     res_bind (list_deserialize string_deserialize (vs ! 8)) (\<lambda>f8.
     res_bind (list_deserialize string_deserialize (vs ! 9)) (\<lambda>f9.
     res_bind (string_deserialize (vs ! 10)) (\<lambda>f10.
     res_bind (string_deserialize (vs ! 11)) (\<lambda>f11.
     res_bind (string_deserialize (vs ! 12)) (\<lambda>f12.
     res_bind (string_deserialize (vs ! 13)) (\<lambda>f13.
     res_bind (string_deserialize (vs ! 14)) (\<lambda>f14.
     res_bind (string_deserialize (vs ! 15)) (\<lambda>f15.
     res_bind (u64_deserialize (vs ! 16)) (\<lambda>f16.
     res_bind (u64_deserialize (vs ! 17)) (\<lambda>f17.
     Ok \<lparr>dr_authz_request_format = f0, dr_attempt = f1, dr_attempt_version = f2, dr_effect_class = f3,
       dr_prepared_attempt_digest = f4, dr_repository = f5, dr_target_ref = f6, dr_basis = f7,
       dr_allowed_paths = f8, dr_settlement_premises = f9, dr_requested_actor = f10, dr_goal = f11,
       dr_work_request = f12, dr_preparation_run = f13, dr_candidate = f14, dr_candidate_digest = f15,
       dr_request_created_at_ms = f16, dr_admitted_at_ms = f17\<rparr>)))))))))))))))))))"

definition context_fields :: "string list" where
  "context_fields = [''authority_domain'', ''epoch'', ''lifecycle_nonce'', ''catalog_identity'']"

definition context_json :: "issuance_context \<Rightarrow> json" where
  "context_json x = JObj (zip context_fields
     [JStr (ix_authority_domain x), u64_json (ix_epoch x), JStr (ix_lifecycle_nonce x),
      JStr (ix_catalog_identity x)])"

definition context_deserialize :: "json \<Rightarrow> string + issuance_context" where
  "context_deserialize j =
     res_bind (struct_fields context_fields j) (\<lambda>vs.
     res_bind (string_deserialize (vs ! 0)) (\<lambda>d.
     res_bind (u64_deserialize (vs ! 1)) (\<lambda>e.
     res_bind (string_deserialize (vs ! 2)) (\<lambda>n.
     res_bind (string_deserialize (vs ! 3)) (\<lambda>c.
     Ok \<lparr>ix_authority_domain = d, ix_epoch = e, ix_lifecycle_nonce = n, ix_catalog_identity = c\<rparr>)))))"

definition premise_fields :: "string list" where
  "premise_fields = [''kind'', ''statement'']"

definition premise_json :: "authorization_premise \<Rightarrow> json" where
  "premise_json p = JObj (zip premise_fields [JStr (ap_kind p), JStr (ap_statement p)])"

definition premise_deserialize :: "json \<Rightarrow> string + authorization_premise" where
  "premise_deserialize j =
     res_bind (struct_fields premise_fields j) (\<lambda>vs.
     res_bind (string_deserialize (vs ! 0)) (\<lambda>k.
     res_bind (string_deserialize (vs ! 1)) (\<lambda>s. Ok \<lparr>ap_kind = k, ap_statement = s\<rparr>)))"

fun residual_status_str :: "residual_status \<Rightarrow> string" where
  "residual_status_str NoneRecorded = ''none_recorded''"
| "residual_status_str Unrepresented = ''unrepresented''"
| "residual_status_str ResidualPresent = ''present''"

definition residual_status_deserialize :: "json \<Rightarrow> string + residual_status" where
  "residual_status_deserialize j =
     res_bind (unit_variant j) (\<lambda>s.
       if s = ''none_recorded'' then Ok NoneRecorded else if s = ''unrepresented'' then Ok Unrepresented
       else if s = ''present'' then Ok ResidualPresent else Err ''unknown variant'')"

definition residual_fields :: "string list" where
  "residual_fields = [''source_system'', ''obligation_id'', ''subject'', ''kind'', ''statement'']"

definition residual_json :: "upstream_residual \<Rightarrow> json" where
  "residual_json r = JObj (zip residual_fields
     [JStr (ur_source_system r), JStr (ur_obligation_id r), JStr (ur_subject r), JStr (ur_kind r),
      JStr (ur_statement r)])"

definition residual_deserialize :: "json \<Rightarrow> string + upstream_residual" where
  "residual_deserialize j =
     res_bind (struct_fields residual_fields j) (\<lambda>vs.
     res_bind (string_deserialize (vs ! 0)) (\<lambda>a.
     res_bind (string_deserialize (vs ! 1)) (\<lambda>b.
     res_bind (string_deserialize (vs ! 2)) (\<lambda>c.
     res_bind (string_deserialize (vs ! 3)) (\<lambda>d.
     res_bind (string_deserialize (vs ! 4)) (\<lambda>e.
     Ok \<lparr>ur_source_system = a, ur_obligation_id = b, ur_subject = c, ur_kind = d, ur_statement = e\<rparr>))))))"

definition residuals_fields :: "string list" where
  "residuals_fields = [''status'', ''items'']"

definition residuals_json :: "residual_obligations \<Rightarrow> json" where
  "residuals_json r = JObj (zip residuals_fields
     [JStr (residual_status_str (ro_status r)), JArr (map residual_json (ro_items r))])"

definition residuals_deserialize :: "json \<Rightarrow> string + residual_obligations" where
  "residuals_deserialize j =
     res_bind (struct_fields residuals_fields j) (\<lambda>vs.
     res_bind (residual_status_deserialize (vs ! 0)) (\<lambda>s.
     res_bind (list_deserialize residual_deserialize (vs ! 1)) (\<lambda>i.
     Ok \<lparr>ro_status = s, ro_items = i\<rparr>)))"

definition consumption_fields :: "string list" where
  "consumption_fields = [''ledger'', ''use_digest'']"

definition consumption_json :: "authority_consumption \<Rightarrow> json" where
  "consumption_json c = JObj (zip consumption_fields [JStr (ac_ledger c), JStr (ac_use_digest c)])"

definition consumption_deserialize :: "json \<Rightarrow> string + authority_consumption" where
  "consumption_deserialize j =
     res_bind (struct_fields consumption_fields j) (\<lambda>vs.
     res_bind (string_deserialize (vs ! 0)) (\<lambda>l.
     res_bind (string_deserialize (vs ! 1)) (\<lambda>u. Ok \<lparr>ac_ledger = l, ac_use_digest = u\<rparr>)))"

definition source_fields :: "string list" where
  "source_fields = [''schema'', ''raw_sha256'', ''ag_canonical_digest'']"

definition source_json :: "request_source \<Rightarrow> json" where
  "source_json r = JObj (zip source_fields
     [JStr (rc_schema r), JStr (rc_raw_sha256 r), JStr (rc_ag_canonical_digest r)])"

definition source_deserialize :: "json \<Rightarrow> string + request_source" where
  "source_deserialize j =
     res_bind (struct_fields source_fields j) (\<lambda>vs.
     res_bind (string_deserialize (vs ! 0)) (\<lambda>a.
     res_bind (string_deserialize (vs ! 1)) (\<lambda>b.
     res_bind (string_deserialize (vs ! 2)) (\<lambda>c.
     Ok \<lparr>rc_schema = a, rc_raw_sha256 = b, rc_ag_canonical_digest = c\<rparr>))))"

definition binding_fields :: "string list" where
  "binding_fields = [''attempt'', ''prepared_attempt_digest'', ''effect_class'', ''repository'',
     ''target_ref'', ''basis'', ''allowed_paths'', ''requested_actor'']"

definition binding_json :: "docket_binding \<Rightarrow> json" where
  "binding_json b = JObj (zip binding_fields
     [JStr (db_attempt b), JStr (db_prepared_attempt_digest b), JStr (db_effect_class b),
      JStr (db_repository b), JStr (db_target_ref b), JStr (db_basis b),
      strings_json (db_allowed_paths b), JStr (db_requested_actor b)])"

definition binding_deserialize :: "json \<Rightarrow> string + docket_binding" where
  "binding_deserialize j =
     res_bind (struct_fields binding_fields j) (\<lambda>vs.
     res_bind (string_deserialize (vs ! 0)) (\<lambda>f0.
     res_bind (string_deserialize (vs ! 1)) (\<lambda>f1.
     res_bind (string_deserialize (vs ! 2)) (\<lambda>f2.
     res_bind (string_deserialize (vs ! 3)) (\<lambda>f3.
     res_bind (string_deserialize (vs ! 4)) (\<lambda>f4.
     res_bind (string_deserialize (vs ! 5)) (\<lambda>f5.
     res_bind (list_deserialize string_deserialize (vs ! 6)) (\<lambda>f6.
     res_bind (string_deserialize (vs ! 7)) (\<lambda>f7.
     Ok \<lparr>db_attempt = f0, db_prepared_attempt_digest = f1, db_effect_class = f2, db_repository = f3,
       db_target_ref = f4, db_basis = f5, db_allowed_paths = f6, db_requested_actor = f7\<rparr>)))))))))"

definition issuance_body_fields :: "string list" where
  "issuance_body_fields =
     [''issuance_id'', ''decision_id'', ''issuer_principal'', ''issuer_key_id'', ''decision_context'',
      ''principal_chain'', ''target_id'', ''request_source'', ''docket'', ''issued_at_unix_ms'',
      ''expires_at_unix_ms'', ''premises'', ''residual_obligations'', ''consumption'', ''decision'']"

definition issuance_body_json :: "issuance_body \<Rightarrow> json" where
  "issuance_body_json b = JObj (zip issuance_body_fields
     [JStr (ib_issuance_id b), JStr (ib_decision_id b), JStr (ib_issuer_principal b),
      JStr (ib_issuer_key_id b), context_json (ib_decision_context b),
      strings_json (ib_principal_chain b), JStr (ib_target_id b), source_json (ib_request_source b),
      binding_json (ib_docket b), u64_json (ib_issued_at_unix_ms b), u64_json (ib_expires_at_unix_ms b),
      JArr (map premise_json (ib_premises b)), residuals_json (ib_residual_obligations b),
      consumption_json (ib_consumption b), JStr (ib_decision b)])"

definition issuance_body_deserialize :: "json \<Rightarrow> string + issuance_body" where
  "issuance_body_deserialize j =
     res_bind (struct_fields issuance_body_fields j) (\<lambda>vs.
     res_bind (string_deserialize (vs ! 0)) (\<lambda>f0.
     res_bind (string_deserialize (vs ! 1)) (\<lambda>f1.
     res_bind (string_deserialize (vs ! 2)) (\<lambda>f2.
     res_bind (string_deserialize (vs ! 3)) (\<lambda>f3.
     res_bind (context_deserialize (vs ! 4)) (\<lambda>f4.
     res_bind (list_deserialize string_deserialize (vs ! 5)) (\<lambda>f5.
     res_bind (string_deserialize (vs ! 6)) (\<lambda>f6.
     res_bind (source_deserialize (vs ! 7)) (\<lambda>f7.
     res_bind (binding_deserialize (vs ! 8)) (\<lambda>f8.
     res_bind (u64_deserialize (vs ! 9)) (\<lambda>f9.
     res_bind (u64_deserialize (vs ! 10)) (\<lambda>f10.
     res_bind (list_deserialize premise_deserialize (vs ! 11)) (\<lambda>f11.
     res_bind (residuals_deserialize (vs ! 12)) (\<lambda>f12.
     res_bind (consumption_deserialize (vs ! 13)) (\<lambda>f13.
     res_bind (string_deserialize (vs ! 14)) (\<lambda>f14.
     Ok \<lparr>ib_issuance_id = f0, ib_decision_id = f1, ib_issuer_principal = f2, ib_issuer_key_id = f3,
       ib_decision_context = f4, ib_principal_chain = f5, ib_target_id = f6, ib_request_source = f7,
       ib_docket = f8, ib_issued_at_unix_ms = f9, ib_expires_at_unix_ms = f10, ib_premises = f11,
       ib_residual_obligations = f12, ib_consumption = f13, ib_decision = f14\<rparr>))))))))))))))))"

section \<open>Decoding and deciding\<close>

text \<open>Every byte of the text belongs to a character with the Unicode property White\_Space.\<close>

fun all_whitespace :: "bytes \<Rightarrow> bool" where
  "all_whitespace [] = True"
| "all_whitespace (a # r) =
     (if byte_in 0x09 0x0D a \<or> byte_in 0x20 0x20 a then all_whitespace r
      else (case r of
        b # r2 \<Rightarrow>
          if byte_in 0xC2 0xC2 a \<and> (byte_in 0x85 0x85 b \<or> byte_in 0xA0 0xA0 b) then all_whitespace r2
          else (case r2 of
            c # r3 \<Rightarrow>
              (byte_in 0xE1 0xE1 a \<and> byte_in 0x9A 0x9A b \<and> byte_in 0x80 0x80 c \<or>
               byte_in 0xE2 0xE2 a \<and> byte_in 0x80 0x80 b \<and>
                 (byte_in 0x80 0x8A c \<or> byte_in 0xA8 0xA9 c \<or> byte_in 0xAF 0xAF c) \<or>
               byte_in 0xE2 0xE2 a \<and> byte_in 0x81 0x81 b \<and> byte_in 0x9F 0x9F c \<or>
               byte_in 0xE3 0xE3 a \<and> byte_in 0x80 0x80 b \<and> byte_in 0x80 0x80 c) \<and> all_whitespace r3
          | [] \<Rightarrow> False)
      | [] \<Rightarrow> False))"

text \<open>The probe reads a plain JSON value, where the last of repeated keys counts.\<close>

definition request_format :: "json \<Rightarrow> string" where
  "request_format v =
     (case v of
        JObj ms \<Rightarrow> (case map_of (rev ms) ''authz_request_format'' of
            Some (JStr s) \<Rightarrow> s | _ \<Rightarrow> ''(absent)'')
      | _ \<Rightarrow> ''(absent)'')"

definition decode_request :: "env \<Rightarrow> bytes \<Rightarrow> issuance_refusal + docket_request" where
  "decode_request E b =
     res_bind (map_err (\<lambda>e. MalformedRequest (DetailText (''not JSON: '' @ e))) (env_json_tree E b)) (\<lambda>probe.
     if request_format probe \<noteq> supported_request_schema
     then Err (UnsupportedRequestSchema supported_request_schema (request_format probe))
     else map_err (\<lambda>e. MalformedRequest (DetailProtocol e))
       (strict_json_from_slice E docket_request_deserialize docket_request_json b))"

definition match_request :: "docket_catalog \<Rightarrow> docket_request \<Rightarrow> docket_target option" where
  "match_request c r =
     find (\<lambda>t. dt_repository t = dr_repository r \<and> dt_target_ref t = dr_target_ref r \<and>
       dt_effect_class t = dr_effect_class r) (map snd (dc_targets c))"

definition path_admitted :: "docket_target \<Rightarrow> string \<Rightarrow> bool" where
  "path_admitted t path \<longleftrightarrow>
     list_ex (\<lambda>prefix. path = prefix \<or> starts_with (prefix @ ''/'') path) (dt_admitted_path_prefixes t)"

definition protocol_failed :: "protocol_error + 'a \<Rightarrow> issuance_refusal + 'a" where
  "protocol_failed r = map_err (\<lambda>e. ProductionFailed (DetailProtocol e)) r"

definition decision_tree :: "issuance_office \<Rightarrow> docket_request \<Rightarrow> docket_target \<Rightarrow> json" where
  "decision_tree office r t =
     JArr [docket_request_json r, context_json (of_context office), JStr (dt_target_id t)]"

definition decide :: "env \<Rightarrow> issuance_office \<Rightarrow> docket_request \<Rightarrow> issuance_refusal + docket_decision" where
  "decide E office r =
     (if dr_effect_class r \<noteq> supported_effect_class then Err (UnsupportedEffectClass (dr_effect_class r))
      else if of_principal_chain office = [] \<or> list_ex all_whitespace (of_principal_chain office)
      then Err (MalformedPrincipalChain ''principal chain must be non-empty with non-empty nodes'')
      else res_bind (ok_or (TargetNotInCatalog (dr_repository r) (dr_target_ref r))
             (match_request (of_catalog office) r)) (\<lambda>t.
        if \<not> list_ex (\<lambda>a. a = dr_requested_actor r) (dt_admitted_actors t)
        then Err (ActorNotAdmitted (dr_requested_actor r) (dt_target_id t))
        else res_bind (try_for_each (\<lambda>path.
               if \<not> path_admitted t path then Err (PathOutsideScope path (dt_target_id t)) else Ok ())
               (dr_allowed_paths r)) (\<lambda>_.
        res_bind (protocol_failed (canonical_json E (decision_tree office r t))) (\<lambda>b.
        Ok (DocketDecision (as_str (hash_domain E decision_digest_domain b)) (dt_target_id t))))))"

section \<open>The one-use ledger and issuance\<close>

definition issuance_consume :: "env \<Rightarrow> issuance_ledger \<Rightarrow> string \<times> issuance_context
    \<Rightarrow> (issuance_refusal + authority_consumption) \<times> issuance_ledger" where
  "issuance_consume E l = (\<lambda>(d, x).
     if bt_get (consumed l) d \<noteq> None
     then (Err (AuthorityUnavailable (''decision '' @ d @ '' already consumed'')), l)
     else (case protocol_failed (canonical_json E (JArr [JStr d, context_json x])) of
             Inl e \<Rightarrow> (Err e, l)
           | Inr b \<Rightarrow>
               let u = as_str (hash_domain E consumption_digest_domain b)
               in (Ok \<lparr>ac_ledger = ''ag-ng.docket-issuance.decision-ledger.v1'', ac_use_digest = u\<rparr>,
                   IssuanceLedger (bt_insert d u (consumed l)))))"

definition prior_use :: "issuance_ledger \<Rightarrow> string \<Rightarrow> string option" where
  "prior_use l d = bt_get (consumed l) d"

definition sha256_prefixed :: "env \<Rightarrow> bytes \<Rightarrow> string" where
  "sha256_prefixed E b = ''sha256:'' @ hex_lower (env_sha256 E b)"

definition signer_sign :: "sign_env \<Rightarrow> issuance_signer \<Rightarrow> bytes \<Rightarrow> string" where
  "signer_sign G s body = sg_b64_encode G (is_key_pair_sign s (signature_prefix @ body))"

record issue_call =
  ic_request :: docket_request
  ic_request_bytes :: bytes
  ic_decision :: docket_decision
  ic_issued_at_unix_ms :: u64
  ic_expires_at_unix_ms :: u64
  ic_premises :: "authorization_premise list"
  ic_residual_obligations :: residual_obligations

definition request_source_of :: "env \<Rightarrow> docket_request \<Rightarrow> bytes \<Rightarrow> request_source" where
  "request_source_of E r b = \<lparr>rc_schema = dr_authz_request_format r,
     rc_raw_sha256 = sha256_prefixed E b,
     rc_ag_canonical_digest = as_str (hash_domain E request_digest_domain b)\<rparr>"

definition docket_binding_of :: "docket_request \<Rightarrow> docket_binding" where
  "docket_binding_of r = \<lparr>db_attempt = dr_attempt r,
     db_prepared_attempt_digest = dr_prepared_attempt_digest r, db_effect_class = dr_effect_class r,
     db_repository = dr_repository r, db_target_ref = dr_target_ref r, db_basis = dr_basis r,
     db_allowed_paths = dr_allowed_paths r, db_requested_actor = dr_requested_actor r\<rparr>"

definition identity_tree :: "env \<Rightarrow> issuance_office \<Rightarrow> issuance_signer \<Rightarrow> issue_call
    \<Rightarrow> authority_consumption \<Rightarrow> json" where
  "identity_tree E office signer q u = JArr
     [JStr (decision_id (ic_decision q)), JStr (of_issuer_principal office), JStr (is_key_id signer),
      context_json (of_context office), strings_json (of_principal_chain office),
      JStr (decision_target (ic_decision q)),
      source_json (request_source_of E (ic_request q) (ic_request_bytes q)),
      binding_json (docket_binding_of (ic_request q)),
      u64_json (ic_issued_at_unix_ms q), u64_json (ic_expires_at_unix_ms q),
      JArr (map premise_json (ic_premises q)), residuals_json (ic_residual_obligations q),
      consumption_json u]"

definition issuance_body_of :: "env \<Rightarrow> issuance_office \<Rightarrow> issuance_signer \<Rightarrow> issue_call
    \<Rightarrow> authority_consumption \<Rightarrow> string \<Rightarrow> issuance_body" where
  "issuance_body_of E office signer q u iid =
     \<lparr>ib_issuance_id = iid, ib_decision_id = decision_id (ic_decision q),
      ib_issuer_principal = of_issuer_principal office, ib_issuer_key_id = is_key_id signer,
      ib_decision_context = of_context office, ib_principal_chain = of_principal_chain office,
      ib_target_id = decision_target (ic_decision q),
      ib_request_source = request_source_of E (ic_request q) (ic_request_bytes q),
      ib_docket = docket_binding_of (ic_request q), ib_issued_at_unix_ms = ic_issued_at_unix_ms q,
      ib_expires_at_unix_ms = ic_expires_at_unix_ms q, ib_premises = ic_premises q,
      ib_residual_obligations = ic_residual_obligations q, ib_consumption = u, ib_decision = ''admitted''\<rparr>"

definition produce_envelope :: "env \<Rightarrow> sign_env \<Rightarrow> issuance_office \<Rightarrow> issuance_signer \<Rightarrow> issue_call
    \<Rightarrow> authority_consumption \<Rightarrow> issuance_refusal + issuance_envelope" where
  "produce_envelope E G office signer q u =
     res_bind (protocol_failed (canonical_json E (identity_tree E office signer q u))) (\<lambda>i.
     res_bind (protocol_failed (canonical_json E (issuance_body_json
       (issuance_body_of E office signer q u (as_str (hash_domain E body_digest_domain i)))))) (\<lambda>body.
     Ok \<lparr>ie_schema = issuance_schema, ie_body_b64 = sg_b64_encode G body,
         ie_authentication = \<lparr>ia_signer_key_id = is_key_id signer,
           ia_signer_public_key = sg_b64_encode G (is_public_key signer),
           ia_signature = signer_sign G signer body\<rparr>\<rparr>))"

definition issue :: "env \<Rightarrow> sign_env \<Rightarrow> issuance_office \<Rightarrow> issuance_signer \<Rightarrow> issuance_ledger \<Rightarrow> issue_call
    \<Rightarrow> (issuance_refusal + issuance_envelope) \<times> issuance_ledger" where
  "issue E G office signer l q =
     (case issuance_consume E l (decision_id (ic_decision q), of_context office) of
        (Inl e, l') \<Rightarrow> (Err e, l')
      | (Inr u, l') \<Rightarrow> (produce_envelope E G office signer q u, l'))"

definition verify_envelope :: "env \<Rightarrow> sign_env \<Rightarrow> issuance_envelope \<Rightarrow> issuance_refusal + issuance_body" where
  "verify_envelope E G v =
     (if ie_schema v \<noteq> issuance_schema then Err (UnsupportedRequestSchema issuance_schema (ie_schema v))
      else res_bind (ok_or (MalformedRequest (DetailText ''body_b64 is not canonical base64url-no-pad''))
             (sg_b64_decode G (ie_body_b64 v))) (\<lambda>body.
           res_bind (ok_or (MalformedRequest (DetailText ''signer_public_key is not canonical base64url-no-pad''))
             (sg_b64_decode G (ia_signer_public_key (ie_authentication v)))) (\<lambda>pk.
           res_bind (ok_or (MalformedRequest (DetailText ''signature is not canonical base64url-no-pad''))
             (sg_b64_decode G (ia_signature (ie_authentication v)))) (\<lambda>sig.
           if \<not> sg_verify G pk (signature_prefix @ body) sig
           then Err (ProductionFailed (DetailText ''issuance signature is invalid''))
           else map_err (\<lambda>e. MalformedRequest (DetailProtocol e))
             (strict_json_from_slice E issuance_body_deserialize issuance_body_json body)))))"

section \<open>The Serde pairs\<close>

interpretation text_wire: wire_codec JStr string_deserialize
  by unfold_locales (auto simp: string_deserialize_def)

interpretation number_wire: wire_codec u64_json u64_deserialize
proof unfold_locales
  fix x w assume "strict_value (u64_json x) = Inr w"
  then have "w = u64_json x" by (simp add: u64_json_def)
  then show "u64_deserialize w = Inr x" by simp
qed

lemma list_wire:
  assumes "wire_codec ser de"
  shows "wire_codec (\<lambda>xs. JArr (map ser xs)) (list_deserialize de)"
  by unfold_locales (auto simp: list_deserialize_def ag_check wire_codec.list_strict [OF assms])

interpretation texts_wire: wire_codec strings_json "list_deserialize string_deserialize"
  using list_wire [OF text_wire.wire_codec_axioms] by (simp add: strings_json_def [abs_def])

definition struct_values :: "json \<Rightarrow> json list" where
  "struct_values j = (case j of JObj ms \<Rightarrow> map snd ms | _ \<Rightarrow> [])"

lemma struct_wire:
  assumes "strict_value (JObj (zip fs vs)) = Inr w" and "distinct fs" and "length fs = length vs"
    and "\<And>ws. struct_fields fs w = Inr ws \<Longrightarrow>
      list_all2 (\<lambda>v u. strict_value v = Inr u) (struct_values (JObj (zip fs vs))) ws \<Longrightarrow> P"
  shows P
  using strict_struct_fields [OF assms(1-3)] assms(3,4) by (auto simp: struct_values_def)

lemma struct_values_JObj [simp]: "struct_values (JObj ms) = map snd ms"
  by (simp add: struct_values_def)

named_theorems wire_reads \<open>reading of a strict subtree\<close>

lemmas plain_wire_reads [wire_reads] = number_wire.de_strict texts_wire.de_strict

interpretation context_wire: wire_codec context_json context_deserialize
proof unfold_locales
  fix x w assume "strict_value (context_json x) = Inr w"
  then obtain ws where "struct_fields context_fields w = Inr ws"
    and "list_all2 (\<lambda>v u. strict_value v = Inr u) (struct_values (context_json x)) ws"
    unfolding context_json_def by (rule struct_wire) (simp_all add: context_fields_def)
  then show "context_deserialize w = Inr x"
    by (auto simp: context_deserialize_def context_json_def context_fields_def list_all2_Cons1 dest!: wire_reads)
qed

interpretation premise_wire: wire_codec premise_json premise_deserialize
proof unfold_locales
  fix x w assume "strict_value (premise_json x) = Inr w"
  then obtain ws where "struct_fields premise_fields w = Inr ws"
    and "list_all2 (\<lambda>v u. strict_value v = Inr u) (struct_values (premise_json x)) ws"
    unfolding premise_json_def by (rule struct_wire) (simp_all add: premise_fields_def)
  then show "premise_deserialize w = Inr x"
    by (auto simp: premise_deserialize_def premise_json_def premise_fields_def list_all2_Cons1 dest!: wire_reads)
qed

interpretation status_wire: wire_codec "\<lambda>s. JStr (residual_status_str s)" residual_status_deserialize
proof unfold_locales
  fix x w assume "strict_value (JStr (residual_status_str x)) = Inr w"
  then show "residual_status_deserialize w = Inr x"
    by (cases x) (auto simp: residual_status_deserialize_def unit_variant_def)
qed

interpretation residual_wire: wire_codec residual_json residual_deserialize
proof unfold_locales
  fix x w assume "strict_value (residual_json x) = Inr w"
  then obtain ws where "struct_fields residual_fields w = Inr ws"
    and "list_all2 (\<lambda>v u. strict_value v = Inr u) (struct_values (residual_json x)) ws"
    unfolding residual_json_def by (rule struct_wire) (simp_all add: residual_fields_def)
  then show "residual_deserialize w = Inr x"
    by (auto simp: residual_deserialize_def residual_json_def residual_fields_def list_all2_Cons1 dest!: wire_reads)
qed

lemmas list_wire_reads [wire_reads] =
  wire_codec.de_strict [OF list_wire [OF premise_wire.wire_codec_axioms], simplified]
  wire_codec.de_strict [OF list_wire [OF residual_wire.wire_codec_axioms], simplified]

lemma residual_status_read [simp]: "residual_status_deserialize (JStr (residual_status_str s)) = Inr s"
  by (rule status_wire.de_strict) simp

interpretation residuals_wire: wire_codec residuals_json residuals_deserialize
proof unfold_locales
  fix x w assume "strict_value (residuals_json x) = Inr w"
  then obtain ws where "struct_fields residuals_fields w = Inr ws"
    and "list_all2 (\<lambda>v u. strict_value v = Inr u) (struct_values (residuals_json x)) ws"
    unfolding residuals_json_def by (rule struct_wire) (simp_all add: residuals_fields_def)
  then show "residuals_deserialize w = Inr x"
    by (auto simp: residuals_deserialize_def residuals_json_def residuals_fields_def list_all2_Cons1 dest!: wire_reads)
qed

interpretation consumption_wire: wire_codec consumption_json consumption_deserialize
proof unfold_locales
  fix x w assume "strict_value (consumption_json x) = Inr w"
  then obtain ws where "struct_fields consumption_fields w = Inr ws"
    and "list_all2 (\<lambda>v u. strict_value v = Inr u) (struct_values (consumption_json x)) ws"
    unfolding consumption_json_def by (rule struct_wire) (simp_all add: consumption_fields_def)
  then show "consumption_deserialize w = Inr x"
    by (auto simp: consumption_deserialize_def consumption_json_def consumption_fields_def list_all2_Cons1 dest!: wire_reads)
qed

interpretation source_wire: wire_codec source_json source_deserialize
proof unfold_locales
  fix x w assume "strict_value (source_json x) = Inr w"
  then obtain ws where "struct_fields source_fields w = Inr ws"
    and "list_all2 (\<lambda>v u. strict_value v = Inr u) (struct_values (source_json x)) ws"
    unfolding source_json_def by (rule struct_wire) (simp_all add: source_fields_def)
  then show "source_deserialize w = Inr x"
    by (auto simp: source_deserialize_def source_json_def source_fields_def list_all2_Cons1 dest!: wire_reads)
qed

interpretation binding_wire: wire_codec binding_json binding_deserialize
proof unfold_locales
  fix x w assume "strict_value (binding_json x) = Inr w"
  then obtain ws where "struct_fields binding_fields w = Inr ws"
    and "list_all2 (\<lambda>v u. strict_value v = Inr u) (struct_values (binding_json x)) ws"
    unfolding binding_json_def by (rule struct_wire) (simp_all add: binding_fields_def)
  then show "binding_deserialize w = Inr x"
    by (auto simp: binding_deserialize_def binding_json_def binding_fields_def list_all2_Cons1 dest!: wire_reads)
qed

lemmas struct_wire_reads [wire_reads] =
  context_wire.de_strict residuals_wire.de_strict consumption_wire.de_strict source_wire.de_strict
  binding_wire.de_strict

interpretation request_wire: wire_codec docket_request_json docket_request_deserialize
proof unfold_locales
  fix x w assume "strict_value (docket_request_json x) = Inr w"
  then obtain ws where "struct_fields docket_request_fields w = Inr ws"
    and "list_all2 (\<lambda>v u. strict_value v = Inr u) (struct_values (docket_request_json x)) ws"
    unfolding docket_request_json_def by (rule struct_wire) (simp_all add: docket_request_fields_def)
  then show "docket_request_deserialize w = Inr x"
    by (auto simp: docket_request_deserialize_def docket_request_json_def docket_request_fields_def list_all2_Cons1 dest!: wire_reads)
qed

interpretation body_wire: wire_codec issuance_body_json issuance_body_deserialize
proof unfold_locales
  fix x w assume "strict_value (issuance_body_json x) = Inr w"
  then obtain ws where "struct_fields issuance_body_fields w = Inr ws"
    and "list_all2 (\<lambda>v u. strict_value v = Inr u) (struct_values (issuance_body_json x)) ws"
    unfolding issuance_body_json_def by (rule struct_wire) (simp_all add: issuance_body_fields_def)
  then show "issuance_body_deserialize w = Inr x"
    by (auto simp: issuance_body_deserialize_def issuance_body_json_def issuance_body_fields_def list_all2_Cons1 dest!: wire_reads)
qed

section \<open>Lemmas\<close>

lemma list_ex_path: "path_admitted t path \<longleftrightarrow>
    (\<exists>p \<in> set (dt_admitted_path_prefixes t). path = p \<or> (\<exists>rest. path = p @ ''/'' @ rest))"
  by (auto simp: path_admitted_def list_ex_iff starts_with_iff)

lemma protocol_failed_Inr_iff [ag_check]: "protocol_failed r = Inr x \<longleftrightarrow> r = Inr x"
  by (simp add: protocol_failed_def ag_check)

lemma match_request_Some:
  "match_request c r = Some t \<Longrightarrow>
     t \<in> snd ` set (dc_targets c) \<and> dt_repository t = dr_repository r \<and>
     dt_target_ref t = dr_target_ref r \<and> dt_effect_class t = dr_effect_class r"
  by (auto simp: match_request_def find_Some_iff)

lemma decide_Ok_iff:
  "decide E office r = Inr d \<longleftrightarrow>
     dr_effect_class r = supported_effect_class \<and> of_principal_chain office \<noteq> [] \<and>
     list_all (\<lambda>p. \<not> all_whitespace p) (of_principal_chain office) \<and>
     (\<exists>t b. match_request (of_catalog office) r = Some t \<and>
        dr_requested_actor r \<in> set (dt_admitted_actors t) \<and>
        list_all (path_admitted t) (dr_allowed_paths r) \<and>
        canonical_json E (decision_tree office r t) = Inr b \<and>
        d = DocketDecision (as_str (hash_domain E decision_digest_domain b)) (dt_target_id t))"
  by (auto simp: decide_def ag_check try_for_each_Inr_iff list_ex_iff list_all_iff split: if_splits)

subsection \<open>The ledger\<close>

definition issuance_spent :: "issuance_ledger \<Rightarrow> string set" where
  "issuance_spent l = dom (bt_get (consumed l))"

lemma issuance_consume_Ok:
  "issuance_consume E l (d, x) = (Inr u, l') \<longleftrightarrow>
     bt_get (consumed l) d = None \<and>
     (\<exists>b. canonical_json E (JArr [JStr d, context_json x]) = Inr b \<and>
        u = \<lparr>ac_ledger = ''ag-ng.docket-issuance.decision-ledger.v1'',
          ac_use_digest = as_str (hash_domain E consumption_digest_domain b)\<rparr> \<and>
        l' = IssuanceLedger (bt_insert d (ac_use_digest u) (consumed l)))"
  by (auto simp: issuance_consume_def Let_def protocol_failed_def ag_check split: sum.splits)

lemma issuance_consume_Err: "issuance_consume E l q = (Inl e, l') \<Longrightarrow> l' = l"
  by (auto simp: issuance_consume_def Let_def split: prod.splits sum.splits if_splits)

interpretation decisions: one_use_ledger "issuance_consume E" fst issuance_spent for E
proof unfold_locales
  fix l and q :: "string \<times> issuance_context" and r l'
  assume "issuance_consume E l q = (Inr r, l')"
  then show "fst q \<notin> issuance_spent l \<and> fst q \<in> issuance_spent l'"
    by (cases q) (auto simp: issuance_consume_Ok issuance_spent_def)
next
  fix l and q :: "string \<times> issuance_context" and r l'
  assume c: "issuance_consume E l q = (r, l')"
  show "issuance_spent l \<subseteq> issuance_spent l'"
    "issuance_spent l' \<subseteq> (if is_ok r then insert (fst q) (issuance_spent l) else issuance_spent l)"
    using c by (cases q; cases r; auto simp: issuance_consume_Ok issuance_spent_def dest: issuance_consume_Err)+
qed

abbreviation issue_decision :: "issue_call \<Rightarrow> string" where
  "issue_decision q \<equiv> decision_id (ic_decision q)"

lemma issue_Ok_iff:
  "issue E G office signer l q = (Inr v, l') \<longleftrightarrow>
     (\<exists>u. issuance_consume E l (issue_decision q, of_context office) = (Inr u, l') \<and>
        produce_envelope E G office signer q u = Inr v)"
  by (auto simp: issue_def split: prod.splits sum.splits)

interpretation issuance: burning_ledger "issue E G office signer" issue_decision issuance_spent
  for E G office signer
proof unfold_locales
  fix l q v l'
  assume "issue E G office signer l q = (Inr v, l')"
  then show "issue_decision q \<notin> issuance_spent l \<and> issue_decision q \<in> issuance_spent l'"
    using decisions.burn_ok [of E l "(issue_decision q, of_context office)"]
    by (fastforce simp: issue_Ok_iff)
next
  fix l q x l'
  assume "issue E G office signer l q = (x, l')"
  then show "issuance_spent l \<subseteq> issuance_spent l'"
    using decisions.spent_mono [of l E "(issue_decision q, of_context office)"]
    by (auto simp: issue_def split: prod.splits sum.splits)
qed

subsection \<open>Signed bodies\<close>

text \<open>The documented behaviour of the base64 codec and of one Ed25519 key pair.\<close>

definition signing_ok :: "sign_env \<Rightarrow> issuance_signer \<Rightarrow> bool" where
  "signing_ok G s \<longleftrightarrow>
     (\<forall>b. sg_b64_decode G (sg_b64_encode G b) = Some b) \<and>
     (\<forall>m. sg_verify G (is_public_key s) m (is_key_pair_sign s m))"

lemma produced_verifies:
  assumes "signing_ok G signer"
    and "\<And>i. printing_reads_back E (issuance_body_json (issuance_body_of E office signer q u i))"
    and "produce_envelope E G office signer q u = Inr v"
  shows "\<exists>i. verify_envelope E G v = Inr (issuance_body_of E office signer q u i)"
proof -
  from assms(3) obtain i body where
    body: "canonical_json E (issuance_body_json (issuance_body_of E office signer q u i)) = Inr body"
    and v: "v = \<lparr>ie_schema = issuance_schema, ie_body_b64 = sg_b64_encode G body,
         ie_authentication = \<lparr>ia_signer_key_id = is_key_id signer,
           ia_signer_public_key = sg_b64_encode G (is_public_key signer),
           ia_signature = signer_sign G signer body\<rparr>\<rparr>"
    by (auto simp: produce_envelope_def ag_check)
  have "strict_json_from_slice E issuance_body_deserialize issuance_body_json body =
      Inr (issuance_body_of E office signer q u i)"
    by (rule body_wire.read_printed [OF assms(2) body])
  with assms(1) show ?thesis
    by (intro exI [of _ i]) (simp add: verify_envelope_def v signing_ok_def signer_sign_def)
qed

lemma decision_tree_inject:
  assumes "strict_value (decision_tree office r t) = Inr s"
    and "strict_value (decision_tree office' r' t') = Inr s"
  shows "r = r' \<and> of_context office = of_context office' \<and> dt_target_id t = dt_target_id t'"
proof -
  have inv: "\<exists>w x. s = JArr [w, x, JStr (dt_target_id t)] \<and> docket_request_deserialize w = Inr r \<and>
      context_deserialize x = Inr (of_context office)"
    if "strict_value (decision_tree office r t) = Inr s" for office r t
    using that by (auto simp: decision_tree_def ag_check request_wire.de_strict context_wire.de_strict)
  from inv [OF assms(1)] inv [OF assms(2)] show ?thesis by auto
qed

section \<open>A concrete office\<close>

definition sample_docket_request :: "string list \<Rightarrow> docket_request" where
  "sample_docket_request paths = \<lparr>dr_authz_request_format = supported_request_schema, dr_attempt = ''a1'',
     dr_attempt_version = 1, dr_effect_class = supported_effect_class, dr_prepared_attempt_digest = ''p'',
     dr_repository = ''repo'', dr_target_ref = ''refs/heads/main'', dr_basis = ''b'',
     dr_allowed_paths = paths, dr_settlement_premises = [], dr_requested_actor = ''alice'',
     dr_goal = ''g'', dr_work_request = ''w'', dr_preparation_run = ''r'', dr_candidate = ''c'',
     dr_candidate_digest = ''d'', dr_request_created_at_ms = 1, dr_admitted_at_ms = 2\<rparr>"

definition sample_docket_target :: docket_target where
  "sample_docket_target = \<lparr>dt_target_id = ''t'', dt_repository = ''repo'',
     dt_target_ref = ''refs/heads/main'', dt_effect_class = supported_effect_class,
     dt_admitted_actors = [''alice''], dt_admitted_path_prefixes = [''src'']\<rparr>"

definition sample_office :: issuance_office where
  "sample_office = \<lparr>of_catalog = \<lparr>dc_identity = ''cat'', dc_targets = [(''t'', sample_docket_target)]\<rparr>,
     of_context = \<lparr>ix_authority_domain = ''dom'', ix_epoch = 1, ix_lifecycle_nonce = ''n'',
       ix_catalog_identity = ''cat''\<rparr>,
     of_principal_chain = [''root''], of_issuer_principal = ''office''\<rparr>"

definition sample_signer :: issuance_signer where
  "sample_signer = \<lparr>is_key_id = ''k'', is_public_key = ''pk'', is_key_pair_sign = (\<lambda>m. ''pk'' @ m)\<rparr>"

definition sample_decision :: docket_decision where
  "sample_decision = DocketDecision ''decision'' ''t''"

definition sample_issue :: "docket_request \<Rightarrow> docket_decision \<Rightarrow> issue_call" where
  "sample_issue r d = \<lparr>ic_request = r, ic_request_bytes = ''bytes'', ic_decision = d,
     ic_issued_at_unix_ms = 1, ic_expires_at_unix_ms = 2, ic_premises = [],
     ic_residual_obligations = \<lparr>ro_status = NoneRecorded, ro_items = []\<rparr>\<rparr>"

lemma sample_signing_ok: "signing_ok sample_sign_env sample_signer"
  by (simp add: signing_ok_def sample_sign_env_def sample_signer_def text_hex)

lemma strings_clean [simp]: "json_clean (strings_json ss)"
  by (simp add: strings_json_def list_all_iff)

lemma u64_clean [simp]: "json_clean (u64_json n)"
  by (simp add: u64_json_def)

lemma context_clean [simp]: "json_clean (context_json x)"
  by (simp add: context_json_def context_fields_def)

lemma request_clean [simp]: "json_clean (docket_request_json r)"
  by (simp add: docket_request_json_def docket_request_fields_def)

lemma source_clean [simp]: "json_clean (source_json r)"
  by (simp add: source_json_def source_fields_def)

lemma binding_clean [simp]: "json_clean (binding_json r)"
  by (simp add: binding_json_def binding_fields_def)

lemma consumption_clean [simp]: "json_clean (consumption_json r)"
  by (simp add: consumption_json_def consumption_fields_def)

lemma premise_clean [simp]: "json_clean (premise_json r)"
  by (simp add: premise_json_def premise_fields_def)

lemma residuals_clean [simp]: "json_clean (residuals_json r)"
  by (simp add: residuals_json_def residuals_fields_def residual_json_def residual_fields_def list_all_iff)

lemma body_clean [simp]: "json_clean (issuance_body_json b)"
  by (simp add: issuance_body_json_def issuance_body_fields_def list_all_iff)

lemma identity_clean [simp]: "json_clean (identity_tree E office signer q u)"
  by (simp add: identity_tree_def list_all_iff)

text \<open>The strict printer refuses no tree that the office prints.\<close>

lemma text_issue_Ok:
  assumes "bt_get (consumed l) (issue_decision q) = None"
  shows "\<exists>v l'. issue text_env G office signer l q = (Inr v, l')"
proof -
  have "json_clean (JArr [JStr (issue_decision q), context_json (of_context office)])" by simp
  from text_env_clean [OF this] assms
  obtain u l' where u: "issuance_consume text_env l (issue_decision q, of_context office) = (Inr u, l')"
    by (auto simp: issuance_consume_Ok)
  obtain i where i: "canonical_json text_env (identity_tree text_env office signer q u) = Inr i"
    using text_env_clean [OF identity_clean] by blast
  obtain b where "canonical_json text_env (issuance_body_json
      (issuance_body_of text_env office signer q u (as_str (hash_domain text_env body_digest_domain i)))) = Inr b"
    using text_env_clean [OF body_clean] by blast
  with i have "\<exists>v. produce_envelope text_env G office signer q u = Inr v"
    by (simp add: produce_envelope_def protocol_failed_def)
  with u show ?thesis by (auto simp: issue_Ok_iff)
qed

definition deputy_office :: issuance_office where
  "deputy_office = sample_office\<lparr>of_principal_chain := [''root'', ''deputy'']\<rparr>"

lemma sample_decide_inside: "\<exists>d. decide text_env sample_office (sample_docket_request [''src/a'']) = Inr d \<and>
    decide text_env deputy_office (sample_docket_request [''src/a'']) = Inr d"
proof -
  let ?r = "sample_docket_request [''src/a'']"
  have "json_clean (decision_tree sample_office ?r sample_docket_target)" by (simp add: decision_tree_def)
  from text_env_clean [OF this] obtain b where
    b: "canonical_json text_env (decision_tree sample_office ?r sample_docket_target) = Inr b" by blast
  have t: "match_request (of_catalog sample_office) ?r = Some sample_docket_target"
    by (simp add: match_request_def sample_office_def sample_docket_target_def sample_docket_request_def)
  have chain: "of_principal_chain sample_office \<noteq> [] \<and>
      list_all (\<lambda>p. \<not> all_whitespace p) (of_principal_chain sample_office)"
    "of_principal_chain deputy_office \<noteq> [] \<and>
      list_all (\<lambda>p. \<not> all_whitespace p) (of_principal_chain deputy_office)" by code_simp+
  have same: "of_catalog deputy_office = of_catalog sample_office"
    "decision_tree deputy_office = decision_tree sample_office"
    by (simp_all add: deputy_office_def decision_tree_def [abs_def])
  have "list_all (path_admitted sample_docket_target) (dr_allowed_paths ?r)" by code_simp
  moreover have "dr_requested_actor ?r \<in> set (dt_admitted_actors sample_docket_target)"
    "dr_effect_class ?r = supported_effect_class" "dt_target_id sample_docket_target = ''t''"
    by (simp_all add: sample_docket_request_def sample_docket_target_def)
  ultimately have "decide text_env sample_office ?r =
      Inr (DocketDecision (as_str (hash_domain text_env decision_digest_domain b)) ''t'')"
    "decide text_env deputy_office ?r =
      Inr (DocketDecision (as_str (hash_domain text_env decision_digest_domain b)) ''t'')"
    unfolding decide_Ok_iff same using b t chain by auto
  then show ?thesis by simp
qed

section \<open>Properties\<close>

text \<open>
  C26: the office admits a request exactly when the effect class is the supported one, the
  principal chain is non-empty with no blank node, the catalog's first entry for the request's
  repository, reference and effect class admits the actor, and every requested path is an
  admitted prefix or lies textually below one; the decision then names that entry's target and
  the digest of request, context and target.
\<close>

theorem docket_decide_exact:
  "decide E office r = Ok d \<longleftrightarrow>
     dr_effect_class r = supported_effect_class \<and> of_principal_chain office \<noteq> [] \<and>
     set (of_principal_chain office) \<inter> {p. all_whitespace p} = {} \<and>
     (\<exists>t b. match_request (of_catalog office) r = Some t \<and> t \<in> snd ` set (dc_targets (of_catalog office)) \<and>
        dt_repository t = dr_repository r \<and> dt_target_ref t = dr_target_ref r \<and>
        dt_effect_class t = dr_effect_class r \<and> dr_requested_actor r \<in> set (dt_admitted_actors t) \<and>
        set (dr_allowed_paths r) \<subseteq>
          {path. \<exists>p \<in> set (dt_admitted_path_prefixes t). path = p \<or> (\<exists>rest. path = p @ ''/'' @ rest)} \<and>
        canonical_json E (decision_tree office r t) = Ok b \<and>
        d = DocketDecision (as_str (hash_domain E ''ag.docket-issuance.decision.v1'' b)) (dt_target_id t))"
proof -
  have paths: "list_all (path_admitted t) ps \<longleftrightarrow> set ps \<subseteq> {path. \<exists>p \<in> set (dt_admitted_path_prefixes t).
      path = p \<or> (\<exists>rest. path = p @ ''/'' @ rest)}" for t ps
    unfolding list_all_iff list_ex_path by blast
  have chain: "list_all (\<lambda>p. \<not> all_whitespace p) ps \<longleftrightarrow> set ps \<inter> {p. all_whitespace p} = {}" for ps
    by (auto simp: list_all_iff)
  show ?thesis
    unfolding decide_Ok_iff decision_digest_domain_def paths chain
  proof (rule conj_cong [OF refl conj_cong [OF refl conj_cong [OF refl ex_cong1 [OF ex_cong1]]]], goal_cases)
    case (1 t b)
    then show ?case using match_request_Some [of "of_catalog office" r t] by argo
  qed
qed

definition decision_preimages :: "env \<Rightarrow> issuance_office \<Rightarrow> docket_request \<Rightarrow> bytes set" where
  "decision_preimages E office r =
     {domain_preimage decision_digest_domain b | t b.
        match_request (of_catalog office) r = Some t \<and> canonical_json E (decision_tree office r t) = Inr b}"

text \<open>
  A decision identity belongs to one request.  Where SHA-256 does not collide on the two
  preimages and the printer and reader agree on the two trees, admitted requests with the same
  decision identity are the same request, decided in the same context for the same target.
\<close>

theorem docket_decision_binds:
  assumes "codec_ok E" and "decide E office r = Ok d" and "decide E office' r' = Ok d'"
    and "decision_id d = decision_id d'"
    and "\<And>t. printing_reads_back E (decision_tree office r t) \<and> printing_reads_back E (decision_tree office' r' t)"
    and "inj_on (env_sha256 E) (decision_preimages E office r \<union> decision_preimages E office' r')"
  shows "r = r' \<and> of_context office = of_context office' \<and> decision_target d = decision_target d'"
proof -
  from assms(2,3) obtain t b t' b' where t: "match_request (of_catalog office) r = Some t"
      "match_request (of_catalog office') r' = Some t'" and b: "canonical_json E (decision_tree office r t) = Inr b"
      "canonical_json E (decision_tree office' r' t') = Inr b'"
    and d: "d = DocketDecision (as_str (hash_domain E decision_digest_domain b)) (dt_target_id t)"
      "d' = DocketDecision (as_str (hash_domain E decision_digest_domain b')) (dt_target_id t')"
    by (auto simp: decide_Ok_iff)
  have len: "length decision_digest_domain < 2 ^ 128" by (simp add: decision_digest_domain_def)
  have inj: "inj_on (env_sha256 E) {domain_preimage decision_digest_domain b, domain_preimage decision_digest_domain b'}"
    by (rule inj_on_subset [OF assms(6)]) (use t b in \<open>auto simp: decision_preimages_def\<close>)
  from assms(4) d have "hash_domain E decision_digest_domain b = hash_domain E decision_digest_domain b'"
    by (simp add: digest.expand)
  from hash_domain_inject [OF assms(1) len len inj this] have "b = b'" by simp
  with b assms(5) obtain s where s: "strict_value (decision_tree office r t) = Inr s"
      "strict_value (decision_tree office' r' t') = Inr s"
    by (blast elim: canonical_same_strict)
  from decision_tree_inject [OF s] d show ?thesis by simp
qed

theorem docket_decision_binds_witness:
  "\<exists>d. decide text_env sample_office (sample_docket_request [''src/a'']) = Ok d \<and>
     decide text_env deputy_office (sample_docket_request [''src/a'']) = Ok d \<and>
     of_context sample_office = of_context deputy_office"
proof -
  let ?r = "sample_docket_request [''src/a'']"
  obtain d where d: "decide text_env sample_office ?r = Ok d" "decide text_env deputy_office ?r = Ok d"
    using sample_decide_inside by blast
  have "decision_preimages text_env deputy_office ?r = decision_preimages text_env sample_office ?r"
    by (simp add: decision_preimages_def deputy_office_def decision_tree_def)
  then have "inj_on (env_sha256 text_env)
      (decision_preimages text_env sample_office ?r \<union> decision_preimages text_env deputy_office ?r)"
    by (auto simp: decision_preimages_def inj_on_def)
  note docket_decision_binds [OF text_env_codec d refl conjI [OF text_env_reads_back text_env_reads_back] this,
      THEN conjunct2, THEN conjunct1]
  then show ?thesis by (intro exI [of _ d] conjI d)
qed

text \<open>
  C6: one issuance per decision.  Over any sequence of calls on one ledger, whatever requests,
  times and premises they carry, the decisions for which an envelope came out are pairwise
  distinct, none of them was burned before the sequence, and all of them are burned after it.
\<close>

theorem docket_issuance_one_use:
  "distinct (granted (issue E G office signer) issue_decision l qs) \<and>
   set (granted (issue E G office signer) issue_decision l qs) \<inter> issuance_spent l = {} \<and>
   set (granted (issue E G office signer) issue_decision l qs) \<union> issuance_spent l
     \<subseteq> issuance_spent (snd (consume_all (issue E G office signer) l qs))"
  using issuance.granted_distinct [of E G office signer l qs] issuance.granted_fresh [of _ E G office signer l qs]
    issuance.granted_spent [of E G office signer l qs] issuance.consume_all_spent_mono [of l E G office signer qs]
  by blast

text \<open>
  C25: an issued envelope verifies.  With a working base64 codec and key pair, and a printer and
  reader that agree on the body, the verifier accepts every envelope that \<open>issue\<close> returns and
  hands back the body that was signed: it carries the exact facts of the request, the digest of
  its bytes, the decision and the use that the ledger recorded for that decision.
\<close>

theorem docket_issue_verifies:
  assumes "signing_ok G signer"
    and "\<And>u i. printing_reads_back E (issuance_body_json (issuance_body_of E office signer q u i))"
    and "issue E G office signer l q = (Ok v, l')"
  shows "\<exists>b. verify_envelope E G v = Ok b \<and> ib_docket b = docket_binding_of (ic_request q) \<and>
     ib_request_source b = request_source_of E (ic_request q) (ic_request_bytes q) \<and>
     ib_decision_id b = decision_id (ic_decision q) \<and> ib_target_id b = decision_target (ic_decision q) \<and>
     ib_decision_context b = of_context office \<and> ib_principal_chain b = of_principal_chain office \<and>
     ib_decision b = ''admitted'' \<and> prior_use l (ib_decision_id b) = None \<and>
     prior_use l' (ib_decision_id b) = Some (ac_use_digest (ib_consumption b))"
proof -
  from assms(3) obtain u where
    u: "issuance_consume E l (issue_decision q, of_context office) = (Inr u, l')"
    and v: "produce_envelope E G office signer q u = Inr v"
    by (auto simp: issue_Ok_iff)
  from produced_verifies [OF assms(1,2) v] obtain i where
    "verify_envelope E G v = Inr (issuance_body_of E office signer q u i)" by blast
  with u show ?thesis
    by (intro exI [of _ "issuance_body_of E office signer q u i"])
      (auto simp: issuance_body_of_def prior_use_def issuance_consume_Ok)
qed

theorem docket_issue_verifies_witness:
  "\<exists>v l' b. issue text_env sample_sign_env sample_office sample_signer (IssuanceLedger [])
      (sample_issue (sample_docket_request [''src/a'']) sample_decision) = (Ok v, l') \<and>
     verify_envelope text_env sample_sign_env v = Ok b \<and> ib_target_id b = ''t''"
proof -
  obtain v l' where "issue text_env sample_sign_env sample_office sample_signer (IssuanceLedger [])
      (sample_issue (sample_docket_request [''src/a'']) sample_decision) = (Inr v, l')"
    using text_issue_Ok [of "IssuanceLedger []" "sample_issue (sample_docket_request [''src/a'']) sample_decision"
        sample_sign_env sample_office sample_signer] by auto
  from docket_issue_verifies [OF sample_signing_ok text_env_reads_back this] this show ?thesis
    by (fastforce simp: sample_issue_def sample_decision_def)
qed

text \<open>
  C39: \<open>issue\<close> does not relate the request to the decision.  There are an office, a request it
  admits and a request it refuses as out of scope, such that the decision for the first, handed
  to \<open>issue\<close> together with the second, yields an envelope that verifies as an admitted issuance
  for the refused request.
\<close>

theorem docket_issue_ignores_request:
  "\<exists>office r r' d p t v l' b. decide text_env office r = Ok d \<and>
     decide text_env office r' = Err (PathOutsideScope p t) \<and>
     issue text_env sample_sign_env office sample_signer (IssuanceLedger []) (sample_issue r' d) = (Ok v, l') \<and>
     verify_envelope text_env sample_sign_env v = Ok b \<and> ib_decision b = ''admitted'' \<and>
     ib_docket b = docket_binding_of r' \<and> db_allowed_paths (ib_docket b) = [''etc/passwd'']"
proof -
  let ?r' = "sample_docket_request [''etc/passwd'']"
  obtain d where d: "decide text_env sample_office (sample_docket_request [''src/a'']) = Inr d"
    using sample_decide_inside by blast
  have "\<not> all_whitespace ''root''" "\<not> path_admitted sample_docket_target ''etc/passwd''" by code_simp+
  then have out: "decide text_env sample_office ?r' = Inl (PathOutsideScope ''etc/passwd'' ''t'')"
    by (simp add: decide_def match_request_def sample_office_def sample_docket_request_def)
      (simp add: sample_docket_target_def)
  obtain v l' where i: "issue text_env sample_sign_env sample_office sample_signer (IssuanceLedger [])
      (sample_issue ?r' d) = (Inr v, l')"
    using text_issue_Ok [of "IssuanceLedger []" "sample_issue ?r' d" sample_sign_env sample_office sample_signer]
    by auto
  then obtain u where "produce_envelope text_env sample_sign_env sample_office sample_signer (sample_issue ?r' d) u = Inr v"
    by (auto simp: issue_Ok_iff)
  from produced_verifies [OF sample_signing_ok text_env_reads_back this] obtain i where
    "verify_envelope text_env sample_sign_env v =
      Inr (issuance_body_of text_env sample_office sample_signer (sample_issue ?r' d) u i)" by blast
  moreover have "docket_binding_of ?r' = docket_binding_of ?r' \<and>
      db_allowed_paths (docket_binding_of ?r') = [''etc/passwd'']"
    by (simp add: docket_binding_of_def sample_docket_request_def)
  ultimately show ?thesis using d out i
    by (intro exI [of _ sample_office] exI [of _ "sample_docket_request [''src/a'']"] exI [of _ ?r'])
      (fastforce simp: issuance_body_of_def sample_issue_def)
qed

end
