(* ===== verification/AG_Derived.thy ===== *)
theory AG_Derived
  imports AG_Compile
begin

text \<open>
  \<open>crates/ag-app/src/derived.rs\<close>: promotion authority derived from a pinned verifier under a
  human-installed scope.

  The verifier and the durable burn store are trait objects: they are arguments with an explicit
  state.  \<open>derived_burn_store\<close> is the contract that the trait states for the store; the in-memory
  store of the tests in the same file implements it.  A panic is the value \<open>DerivedPanic\<close>.
\<close>

section \<open>Data\<close>

definition derived_scope_schema :: string where
  "derived_scope_schema = ''ag.derived-promotion-scope/v1''"
definition derived_request_schema :: string where
  "derived_request_schema = ''ag.derived-promotion-verifier-request/v1''"
definition derived_receipt_schema :: string where
  "derived_receipt_schema = ''ag.derived-promotion-verifier-receipt/v1''"
definition derived_authorization_schema :: string where
  "derived_authorization_schema = ''ag.derived-promotion-authorization/v1''"

record pinned_verifier =
  pv_executable :: executable_identity
  pv_launch_profile :: launch_profile_identity

datatype expected_outcome = ExpectEntailed | ExpectNotEntailed

datatype outcome_class = OutEntailed | OutNotEntailed | OutUnknown

fun outcome_matches :: "expected_outcome \<Rightarrow> outcome_class \<Rightarrow> bool" where
  "outcome_matches ExpectEntailed OutEntailed = True"
| "outcome_matches ExpectNotEntailed OutNotEntailed = True"
| "outcome_matches _ _ = False"

datatype verifier_judgment =
    JudgedEntailed digest
  | JudgedNotEntailed digest
  | JudgedUnknown digest

fun judgment_outcome :: "verifier_judgment \<Rightarrow> outcome_class" where
  "judgment_outcome (JudgedEntailed _) = OutEntailed"
| "judgment_outcome (JudgedNotEntailed _) = OutNotEntailed"
| "judgment_outcome (JudgedUnknown _) = OutUnknown"

record derived_scope_body =
  sb_schema :: string
  sb_authority_domain :: authority_domain_id
  sb_epoch :: epoch_id
  sb_catalog_identity :: digest
  sb_allowed_targets :: "target_id btree_set"
  sb_verifier :: pinned_verifier
  sb_verifier_semantics :: digest
  sb_hostile_specimens :: "(digest, expected_outcome) btree_map"
  sb_adapter_roots :: "principal_id btree_set"
  sb_separation :: separation_predicate
  sb_not_before_unix_ms :: u64
  sb_expires_unix_ms :: u64
  sb_max_uses :: u32

record derived_scope =
  ds_digest :: digest
  ds_body :: derived_scope_body

record verifier_request =
  vr_schema :: string
  vr_invocation_nonce :: digest
  vr_scope :: digest
  vr_canonical_proposal :: canonical_proposal
  vr_catalog_identity :: digest
  vr_judgment :: digest
  vr_adapter_chain :: digest
  vr_verifier_semantics :: digest
  vr_hostile_specimen_catalog :: digest

record specimen_result =
  hr_specimen :: digest
  hr_observed :: outcome_class
  hr_evidence :: digest

record receipt_body =
  rb_schema :: string
  rb_request :: digest
  rb_invocation_nonce :: digest
  rb_scope :: digest
  rb_proposal :: digest
  rb_catalog_identity :: digest
  rb_judgment :: digest
  rb_adapter_chain :: digest
  rb_verifier :: pinned_verifier
  rb_verifier_semantics :: digest
  rb_hostile_specimen_catalog :: digest
  rb_proposal_judgment :: verifier_judgment
  rb_hostile_specimen_results :: "specimen_result list"

record verifier_receipt =
  vc_digest :: digest
  vc_body :: receipt_body

record receipt_burn =
  bu_scope :: digest
  bu_proposal :: digest
  bu_verifier_receipt :: digest
  bu_invocation_nonce :: digest
  bu_adapter_chain :: digest

datatype burn_error =
    ScopeBindingMismatch
  | ReceiptAlreadyUsed
  | ProposalAlreadyUsed
  | InvocationAlreadyUsed
  | ScopeExhausted
  | BurnIndeterminate digest

record derived_evidence =
  dv_schema :: string
  dv_scope :: digest
  dv_proposal :: digest
  dv_verifier_receipt :: digest
  dv_burn_receipt :: digest
  dv_adapter_chain :: digest
  dv_ratification :: ratification

datatype derived_error =
    DeInvalidScope
  | DeScopeDigestMismatch
  | DeScopeNotCurrentlyValid
  | DeProposalDigestMismatch
  | DeProposalSchemaMismatch
  | DeAuthorityContextMismatch
  | DeCatalogNotInScope
  | DeEmptyProposal
  | DeNonPromotionEffect
  | DeTargetNotInScope
  | DeAdapterNotAdmitted
  | DeAdapterNotService
  | DePrincipalChainsNotIndependent
  | DeVerifierIdentityMismatch
  | DeVerifierInvocationIndeterminate digest
  | DeVerifierReceiptDigestMismatch
  | DeVerifierReceiptBindingMismatch
  | DeVerifierDidNotEntail
  | DeHostileSpecimenSetMismatch
  | DeHostileSpecimenFailed
  | DeCanonicalization jcs_error
  | DeBurn burn_error

datatype derived_stop = DerivedPanic | DerivedRefused derived_error

section \<open>JSON trees\<close>

definition pinned_verifier_json :: "pinned_verifier \<Rightarrow> json" where
  "pinned_verifier_json p = JObj
     [(''executable'', executable_json (pv_executable p)),
      (''launch_profile'', launch_profile_json (pv_launch_profile p))]"

fun expected_str :: "expected_outcome \<Rightarrow> string" where
  "expected_str ExpectEntailed = ''entailed''"
| "expected_str ExpectNotEntailed = ''not_entailed''"

fun outcome_str :: "outcome_class \<Rightarrow> string" where
  "outcome_str OutEntailed = ''entailed''"
| "outcome_str OutNotEntailed = ''not_entailed''"
| "outcome_str OutUnknown = ''unknown''"

fun verifier_judgment_json :: "verifier_judgment \<Rightarrow> json" where
  "verifier_judgment_json (JudgedEntailed v) = JObj [(''outcome'', JStr ''entailed''), (''evidence'', digest_json v)]"
| "verifier_judgment_json (JudgedNotEntailed v) =
     JObj [(''outcome'', JStr ''not_entailed''), (''evidence'', digest_json v)]"
| "verifier_judgment_json (JudgedUnknown v) = JObj [(''outcome'', JStr ''unknown''), (''evidence'', digest_json v)]"

fun separation_json :: "separation_predicate \<Rightarrow> json" where
  "separation_json DistinctRootsNoSharedLineage = JStr ''distinct_roots_no_shared_lineage''"

definition specimens_json :: "(digest, expected_outcome) btree_map \<Rightarrow> json" where
  "specimens_json m = JObj (map (\<lambda>(k, v). (as_str k, JStr (expected_str v))) m)"

definition scope_body_json :: "derived_scope_body \<Rightarrow> json" where
  "scope_body_json b = JObj
     [(''schema'', JStr (sb_schema b)), (''authority_domain'', domain_json (sb_authority_domain b)),
      (''epoch'', epoch_json (sb_epoch b)), (''catalog_identity'', digest_json (sb_catalog_identity b)),
      (''allowed_targets'', JArr (map target_json (sb_allowed_targets b))),
      (''verifier'', pinned_verifier_json (sb_verifier b)),
      (''verifier_semantics'', digest_json (sb_verifier_semantics b)),
      (''hostile_specimens'', specimens_json (sb_hostile_specimens b)),
      (''adapter_roots'', JArr (map principal_id_json (sb_adapter_roots b))),
      (''separation'', separation_json (sb_separation b)),
      (''not_before_unix_ms'', u64_json (sb_not_before_unix_ms b)),
      (''expires_unix_ms'', u64_json (sb_expires_unix_ms b)), (''max_uses'', u32_json (sb_max_uses b))]"

definition canonical_proposal_json :: "canonical_proposal \<Rightarrow> json" where
  "canonical_proposal_json p = JObj [(''digest'', digest_json (cp_digest p)), (''body'', body_json (cp_body p))]"

definition verifier_request_json :: "verifier_request \<Rightarrow> json" where
  "verifier_request_json r = JObj
     [(''schema'', JStr (vr_schema r)), (''invocation_nonce'', digest_json (vr_invocation_nonce r)),
      (''scope'', digest_json (vr_scope r)),
      (''canonical_proposal'', canonical_proposal_json (vr_canonical_proposal r)),
      (''catalog_identity'', digest_json (vr_catalog_identity r)), (''judgment'', digest_json (vr_judgment r)),
      (''adapter_chain'', digest_json (vr_adapter_chain r)),
      (''verifier_semantics'', digest_json (vr_verifier_semantics r)),
      (''hostile_specimen_catalog'', digest_json (vr_hostile_specimen_catalog r))]"

definition specimen_result_json :: "specimen_result \<Rightarrow> json" where
  "specimen_result_json r = JObj
     [(''specimen'', digest_json (hr_specimen r)), (''observed'', JStr (outcome_str (hr_observed r))),
      (''evidence'', digest_json (hr_evidence r))]"

definition receipt_body_json :: "receipt_body \<Rightarrow> json" where
  "receipt_body_json b = JObj
     [(''schema'', JStr (rb_schema b)), (''request'', digest_json (rb_request b)),
      (''invocation_nonce'', digest_json (rb_invocation_nonce b)), (''scope'', digest_json (rb_scope b)),
      (''proposal'', digest_json (rb_proposal b)), (''catalog_identity'', digest_json (rb_catalog_identity b)),
      (''judgment'', digest_json (rb_judgment b)), (''adapter_chain'', digest_json (rb_adapter_chain b)),
      (''verifier'', pinned_verifier_json (rb_verifier b)),
      (''verifier_semantics'', digest_json (rb_verifier_semantics b)),
      (''hostile_specimen_catalog'', digest_json (rb_hostile_specimen_catalog b)),
      (''proposal_judgment'', verifier_judgment_json (rb_proposal_judgment b)),
      (''hostile_specimen_results'', JArr (map specimen_result_json (rb_hostile_specimen_results b)))]"

definition receipt_burn_json :: "receipt_burn \<Rightarrow> json" where
  "receipt_burn_json b = JObj
     [(''scope'', digest_json (bu_scope b)), (''proposal'', digest_json (bu_proposal b)),
      (''verifier_receipt'', digest_json (bu_verifier_receipt b)),
      (''invocation_nonce'', digest_json (bu_invocation_nonce b)),
      (''adapter_chain'', digest_json (bu_adapter_chain b))]"

section \<open>Scopes and receipts\<close>

definition digest_value :: "env \<Rightarrow> string \<Rightarrow> json \<Rightarrow> derived_error + digest" where
  "digest_value E domain v =
     res_bind (map_err DeCanonicalization (canonicalize E v)) (\<lambda>doc. Ok (hash_domain E domain doc))"

definition validate_scope_body :: "derived_scope_body \<Rightarrow> derived_error + unit" where
  "validate_scope_body b =
     (if sb_schema b \<noteq> derived_scope_schema \<or> sb_allowed_targets b = [] \<or> sb_hostile_specimens b = [] \<or>
        sb_adapter_roots b = [] \<or> sb_not_before_unix_ms b \<ge> sb_expires_unix_ms b \<or> sb_max_uses b = 0 \<or>
        xi_size (pv_executable (sb_verifier b)) = 0
      then Err DeInvalidScope else Ok ())"

definition scope_digest_domain :: string where
  "scope_digest_domain = ''ag-ng/derived-promotion-scope/v1''"

definition scope_new :: "env \<Rightarrow> derived_scope_body \<Rightarrow> derived_error + derived_scope" where
  "scope_new E b =
     res_bind (validate_scope_body b) (\<lambda>_.
     res_bind (digest_value E scope_digest_domain (scope_body_json b)) (\<lambda>d.
     Ok \<lparr>ds_digest = d, ds_body = b\<rparr>))"

definition scope_verify :: "env \<Rightarrow> derived_scope \<Rightarrow> derived_error + unit" where
  "scope_verify E s =
     res_bind (validate_scope_body (ds_body s)) (\<lambda>_.
     res_bind (digest_value E scope_digest_domain (scope_body_json (ds_body s))) (\<lambda>observed.
     if observed \<noteq> ds_digest s then Err DeScopeDigestMismatch else Ok ()))"

definition request_digest :: "env \<Rightarrow> verifier_request \<Rightarrow> derived_error + digest" where
  "request_digest E r =
     digest_value E ''ag-ng/derived-promotion-verifier-request/v1'' (verifier_request_json r)"

definition receipt_digest_domain :: string where
  "receipt_digest_domain = ''ag-ng/derived-promotion-verifier-receipt/v1''"

definition receipt_new :: "env \<Rightarrow> receipt_body \<Rightarrow> derived_error + verifier_receipt" where
  "receipt_new E b =
     res_bind (digest_value E receipt_digest_domain (receipt_body_json b)) (\<lambda>d.
     Ok \<lparr>vc_digest = d, vc_body = b\<rparr>)"

definition receipt_verify_digest :: "env \<Rightarrow> verifier_receipt \<Rightarrow> derived_error + unit" where
  "receipt_verify_digest E r =
     res_bind (digest_value E receipt_digest_domain (receipt_body_json (vc_body r))) (\<lambda>observed.
     if observed \<noteq> vc_digest r then Err DeVerifierReceiptDigestMismatch else Ok ())"

definition hostile_specimen_catalog_digest :: "env \<Rightarrow> derived_scope_body \<Rightarrow> derived_error + digest" where
  "hostile_specimen_catalog_digest E b =
     digest_value E ''ag-ng/derived-promotion-hostile-specimens/v1'' (specimens_json (sb_hostile_specimens b))"

section \<open>Validation\<close>

definition validate_adapter :: "derived_scope_body \<Rightarrow> proposal_body \<Rightarrow> principal_chain
    \<Rightarrow> derived_error + unit" where
  "validate_adapter scope proposal adapter =
     (if pc_authority_domain adapter \<noteq> sb_authority_domain scope \<or> pc_epoch adapter \<noteq> sb_epoch scope \<or>
        cb_authority_domain proposal \<noteq> sb_authority_domain scope \<or> cb_epoch proposal \<noteq> sb_epoch scope
      then Err DeAuthorityContextMismatch
      else if cn_kind (chain_leaf adapter) \<noteq> KService then Err DeAdapterNotService
      else if cn_principal_id (chain_root adapter) \<notin> set (sb_adapter_roots scope) then Err DeAdapterNotAdmitted
      else map_err (\<lambda>_. DePrincipalChainsNotIndependent)
        (chain_satisfies (cb_proposer proposal) adapter (sb_separation scope)))"

fun check_specimens :: "(digest, expected_outcome) btree_map \<Rightarrow> digest list \<Rightarrow> specimen_result list
    \<Rightarrow> derived_error + digest list" where
  "check_specimens expected seen [] = Ok seen"
| "check_specimens expected seen (r # rs) =
     (if hr_specimen r \<in> set seen then Err DeHostileSpecimenSetMismatch
      else res_bind (ok_or DeHostileSpecimenSetMismatch (bt_get expected (hr_specimen r))) (\<lambda>e.
        if \<not> outcome_matches e (hr_observed r) then Err DeHostileSpecimenFailed
        else check_specimens expected (hr_specimen r # seen) rs))"

definition validate_verifier_receipt :: "env \<Rightarrow> derived_scope_body \<Rightarrow> verifier_request \<Rightarrow> pinned_verifier
    \<Rightarrow> verifier_receipt \<Rightarrow> derived_error + unit" where
  "validate_verifier_receipt E scope request verifier receipt =
     res_bind (receipt_verify_digest E receipt) (\<lambda>_.
     let b = vc_body receipt in
     res_bind (request_digest E request) (\<lambda>rd.
     if rb_schema b \<noteq> derived_receipt_schema \<or> rb_request b \<noteq> rd \<or>
        rb_invocation_nonce b \<noteq> vr_invocation_nonce request \<or> rb_scope b \<noteq> vr_scope request \<or>
        rb_proposal b \<noteq> cp_digest (vr_canonical_proposal request) \<or>
        rb_catalog_identity b \<noteq> vr_catalog_identity request \<or> rb_judgment b \<noteq> vr_judgment request \<or>
        rb_adapter_chain b \<noteq> vr_adapter_chain request \<or> rb_verifier b \<noteq> verifier \<or>
        rb_verifier b \<noteq> sb_verifier scope \<or> rb_verifier_semantics b \<noteq> vr_verifier_semantics request \<or>
        rb_hostile_specimen_catalog b \<noteq> vr_hostile_specimen_catalog request
     then Err DeVerifierReceiptBindingMismatch
     else if judgment_outcome (rb_proposal_judgment b) \<noteq> OutEntailed then Err DeVerifierDidNotEntail
     else if length (rb_hostile_specimen_results b) \<noteq> length (sb_hostile_specimens scope)
     then Err DeHostileSpecimenSetMismatch
     else res_bind (check_specimens (sb_hostile_specimens scope) [] (rb_hostile_specimen_results b)) (\<lambda>seen.
       if length seen \<noteq> length (sb_hostile_specimens scope) then Err DeHostileSpecimenSetMismatch
       else Ok ())))"

definition check_promotion_effect :: "derived_scope_body \<Rightarrow> canonical_effect \<Rightarrow> derived_error + unit" where
  "check_promotion_effect scope e =
     (if effect_family_of e \<noteq> CodePromotion then Err DeNonPromotionEffect
      else if effect_target e \<notin> set (sb_allowed_targets scope) then Err DeTargetNotInScope else Ok ())"

text \<open>The checks up to the call of the verifier, with the request it is handed.\<close>

definition verifier_request_for :: "env \<Rightarrow> pinned_verifier \<Rightarrow> derived_scope \<Rightarrow> canonical_proposal \<Rightarrow> principal_chain
    \<Rightarrow> digest \<Rightarrow> u64 \<Rightarrow> derived_stop + verifier_request" where
  "verifier_request_for E identity s proposal adapter nonce now =
     (let scope = ds_body s; b = cp_body proposal; refuse = (\<lambda>e. Err (DerivedRefused e)) in
      res_bind (map_err DerivedRefused (scope_verify E s)) (\<lambda>_.
      if now < sb_not_before_unix_ms scope \<or> now \<ge> sb_expires_unix_ms scope
      then refuse DeScopeNotCurrentlyValid
      else
      res_bind (map_err (\<lambda>_. DerivedRefused DeProposalDigestMismatch) (proposal_verify_digest E proposal)) (\<lambda>_.
      if cb_schema b \<noteq> effect_schema \<or> cb_catalog_schema b \<noteq> effect_catalog_schema
      then refuse DeProposalSchemaMismatch
      else if cb_authority_domain b \<noteq> sb_authority_domain scope \<or> cb_epoch b \<noteq> sb_epoch scope \<or>
        pc_authority_domain (cb_proposer b) \<noteq> cb_authority_domain b \<or> pc_epoch (cb_proposer b) \<noteq> cb_epoch b
      then refuse DeAuthorityContextMismatch
      else if cb_catalog_identity b \<noteq> sb_catalog_identity scope then refuse DeCatalogNotInScope
      else if cb_effects b = [] then refuse DeEmptyProposal
      else
      res_bind (map_err DerivedRefused (try_for_each (check_promotion_effect scope) (cb_effects b))) (\<lambda>_.
      res_bind (map_err DerivedRefused (validate_adapter scope b adapter)) (\<lambda>_.
      if identity \<noteq> sb_verifier scope then refuse DeVerifierIdentityMismatch
      else
      res_bind (ok_or DerivedPanic (chain_id E adapter)) (\<lambda>adapter_chain.
      res_bind (map_err DerivedRefused (hostile_specimen_catalog_digest E scope)) (\<lambda>catalog.
      Ok \<lparr>vr_schema = derived_request_schema, vr_invocation_nonce = nonce, vr_scope = ds_digest s,
          vr_canonical_proposal = proposal, vr_catalog_identity = cb_catalog_identity b,
          vr_judgment = cb_judgment b, vr_adapter_chain = adapter_chain,
          vr_verifier_semantics = sb_verifier_semantics scope,
          vr_hostile_specimen_catalog = catalog\<rparr>)))))))"

definition burn_for :: "derived_scope \<Rightarrow> canonical_proposal \<Rightarrow> verifier_receipt \<Rightarrow> verifier_request
    \<Rightarrow> receipt_burn" where
  "burn_for s proposal receipt request =
     \<lparr>bu_scope = ds_digest s, bu_proposal = cp_digest proposal, bu_verifier_receipt = vc_digest receipt,
      bu_invocation_nonce = vr_invocation_nonce request, bu_adapter_chain = vr_adapter_chain request\<rparr>"

definition evidence_for :: "derived_scope \<Rightarrow> canonical_proposal \<Rightarrow> principal_chain \<Rightarrow> verifier_receipt
    \<Rightarrow> verifier_request \<Rightarrow> digest \<Rightarrow> derived_evidence" where
  "evidence_for s proposal adapter receipt request burn_receipt =
     \<lparr>dv_schema = derived_authorization_schema, dv_scope = ds_digest s, dv_proposal = cp_digest proposal,
      dv_verifier_receipt = vc_digest receipt, dv_burn_receipt = burn_receipt,
      dv_adapter_chain = vr_adapter_chain request,
      dv_ratification = DerivedCodePromotion (cp_digest proposal)
        (xi_sha256 (pv_executable (sb_verifier (ds_body s))))
        (lp_profile_digest (pv_launch_profile (sb_verifier (ds_body s)))) (vc_digest receipt) adapter\<rparr>"

record derived_call =
  dx_scope :: derived_scope
  dx_proposal :: canonical_proposal
  dx_adapter :: principal_chain
  dx_nonce :: digest
  dx_now_unix_ms :: u64

text \<open>
  One call.  \<open>ident\<close> and \<open>run\<close> are the two methods of the verifier; \<open>run\<close> and \<open>burn_once\<close> may change
  the state of the verifier and of the store.  The identity is read again after the run.
\<close>

definition validate_and_burn :: "env \<Rightarrow> ('v \<Rightarrow> pinned_verifier)
    \<Rightarrow> ('v \<Rightarrow> verifier_request \<Rightarrow> (digest + verifier_receipt) \<times> 'v)
    \<Rightarrow> ('b \<Rightarrow> derived_scope \<times> receipt_burn \<Rightarrow> (burn_error + digest) \<times> 'b)
    \<Rightarrow> 'v \<times> 'b \<Rightarrow> derived_call \<Rightarrow> (derived_stop + derived_evidence) \<times> ('v \<times> 'b)" where
  "validate_and_burn E ident run burn_once = (\<lambda>(verifier, burns) q.
     case verifier_request_for E (ident verifier) (dx_scope q) (dx_proposal q) (dx_adapter q)
         (dx_nonce q) (dx_now_unix_ms q) of
       Inl e \<Rightarrow> (Err e, (verifier, burns))
     | Inr request \<Rightarrow>
       (case run verifier request of
          (Inl evidence, verifier') \<Rightarrow>
            (Err (DerivedRefused (DeVerifierInvocationIndeterminate evidence)), (verifier', burns))
        | (Inr receipt, verifier') \<Rightarrow>
          (case validate_verifier_receipt E (ds_body (dx_scope q)) request (ident verifier') receipt of
             Inl e \<Rightarrow> (Err (DerivedRefused e), (verifier', burns))
           | Inr _ \<Rightarrow>
             (case burn_once burns (dx_scope q, burn_for (dx_scope q) (dx_proposal q) receipt request) of
                (Inl e, burns') \<Rightarrow> (Err (DerivedRefused (DeBurn e)), (verifier', burns'))
              | (Inr burn_receipt, burns') \<Rightarrow>
                  (Ok (evidence_for (dx_scope q) (dx_proposal q) (dx_adapter q) receipt request burn_receipt),
                   (verifier', burns'))))))"

section \<open>The in-memory burn store\<close>

record memory_burns =
  my_receipts :: "digest btree_set"
  my_proposals :: "digest btree_set"
  my_nonces :: "digest btree_set"
  my_scope_uses :: "(digest, u32) btree_map"

definition memory_burns_new :: memory_burns where
  "memory_burns_new = \<lparr>my_receipts = [], my_proposals = [], my_nonces = [], my_scope_uses = []\<rparr>"

definition scope_uses_of :: "memory_burns \<Rightarrow> digest \<Rightarrow> u32" where
  "scope_uses_of m d = (case bt_get (my_scope_uses m) d of Some n \<Rightarrow> n | None \<Rightarrow> 0)"

definition memory_burn_once :: "env \<Rightarrow> memory_burns \<Rightarrow> derived_scope \<times> receipt_burn
    \<Rightarrow> (burn_error + digest) \<times> memory_burns" where
  "memory_burn_once E m = (\<lambda>(s, b).
     if \<not> is_ok (scope_verify E s) \<or> bu_scope b \<noteq> ds_digest s then (Err ScopeBindingMismatch, m)
     else if bu_verifier_receipt b \<in> set (my_receipts m) then (Err ReceiptAlreadyUsed, m)
     else if bu_proposal b \<in> set (my_proposals m) then (Err ProposalAlreadyUsed, m)
     else if bu_invocation_nonce b \<in> set (my_nonces m) then (Err InvocationAlreadyUsed, m)
     else
       let uses = scope_uses_of m (ds_digest s);
           m1 = m\<lparr>my_scope_uses := bt_insert (ds_digest s) uses (my_scope_uses m)\<rparr> in
       if uses \<ge> sb_max_uses (ds_body s) then (Err ScopeExhausted, m1)
       else
         (map_err (\<lambda>_. BurnIndeterminate (hash_domain E ''ag-ng/test/derived/v1'' ''burn-jcs-failure''))
            (from_serializable E (receipt_burn_json b)),
          m1\<lparr>my_receipts := bs_insert (bu_verifier_receipt b) (my_receipts m),
             my_proposals := bs_insert (bu_proposal b) (my_proposals m),
             my_nonces := bs_insert (bu_invocation_nonce b) (my_nonces m),
             my_scope_uses := bt_insert (ds_digest s) (uses + 1) (my_scope_uses m1)\<rparr>))"

section \<open>Lemmas\<close>

lemma digest_value_Ok_iff:
  "digest_value E d v = Inr x \<longleftrightarrow> (\<exists>doc. canonicalize E v = Inr doc \<and> x = hash_domain E d doc)"
  by (auto simp: digest_value_def ag_check)

lemma scope_verify_iff:
  "scope_verify E s = Inr () \<longleftrightarrow> validate_scope_body (ds_body s) = Inr () \<and>
     digest_value E scope_digest_domain (scope_body_json (ds_body s)) = Inr (ds_digest s)"
  by (auto simp: scope_verify_def effect_checks)

lemma scope_new_iff:
  "scope_new E b = Inr s \<longleftrightarrow> ds_body s = b \<and> scope_verify E s = Inr ()"
  by (auto simp: scope_new_def scope_verify_iff effect_checks)

lemma check_specimens_iff:
  "check_specimens expected seen rs = Inr seen' \<longleftrightarrow>
     distinct (map hr_specimen rs) \<and> hr_specimen ` set rs \<inter> set seen = {} \<and>
     list_all (\<lambda>r. \<exists>e. bt_get expected (hr_specimen r) = Some e \<and> outcome_matches e (hr_observed r)) rs \<and>
     seen' = rev (map hr_specimen rs) @ seen"
proof (induction rs arbitrary: seen)
  case (Cons r rs)
  then show ?case
    by (cases "bt_get expected (hr_specimen r)") (auto simp: effect_checks)
qed auto

lemma specimens_complete:
  assumes "distinct (map fst expected)" and "length rs = length expected"
    and "check_specimens expected [] rs = Inr seen"
  shows "\<forall>k e. bt_get expected k = Some e \<longrightarrow>
    (\<exists>!r. r \<in> set rs \<and> hr_specimen r = k) \<and> (\<exists>r \<in> set rs. hr_specimen r = k \<and> outcome_matches e (hr_observed r))"
proof (intro allI impI)
  fix k e assume k: "bt_get expected k = Some e"
  from assms(3) have rs: "distinct (map hr_specimen rs)"
    and all: "\<forall>r \<in> set rs. \<exists>e. bt_get expected (hr_specimen r) = Some e \<and> outcome_matches e (hr_observed r)"
    by (auto simp: check_specimens_iff list_all_iff)
  have "hr_specimen ` set rs \<subseteq> fst ` set expected"
    using all by (force dest: map_of_SomeD)
  moreover have "card (fst ` set expected) = card (hr_specimen ` set rs)"
    using assms(1,2) rs distinct_card [of "map fst expected"] distinct_card [of "map hr_specimen rs"] by simp
  ultimately have "fst ` set expected = hr_specimen ` set rs"
    by (metis List.finite_set card_subset_eq finite_imageI)
  moreover have "k \<in> fst ` set expected" using k by (force dest: map_of_SomeD)
  ultimately obtain r where r: "r \<in> set rs" "hr_specimen r = k" by auto
  moreover have "r' = r" if "r' \<in> set rs" "hr_specimen r' = k" for r'
    using rs r that by (auto simp: distinct_map inj_on_def)
  moreover have "outcome_matches e (hr_observed r)" using all r k by auto
  ultimately show "(\<exists>!r. r \<in> set rs \<and> hr_specimen r = k) \<and>
      (\<exists>r \<in> set rs. hr_specimen r = k \<and> outcome_matches e (hr_observed r))" by blast
qed

lemma validate_verifier_receipt_iff:
  "validate_verifier_receipt E scope request verifier receipt = Inr () \<longleftrightarrow>
     receipt_verify_digest E receipt = Inr () \<and> request_digest E request = Inr (rb_request (vc_body receipt)) \<and>
     rb_schema (vc_body receipt) = derived_receipt_schema \<and>
     rb_invocation_nonce (vc_body receipt) = vr_invocation_nonce request \<and>
     rb_scope (vc_body receipt) = vr_scope request \<and>
     rb_proposal (vc_body receipt) = cp_digest (vr_canonical_proposal request) \<and>
     rb_catalog_identity (vc_body receipt) = vr_catalog_identity request \<and>
     rb_judgment (vc_body receipt) = vr_judgment request \<and>
     rb_adapter_chain (vc_body receipt) = vr_adapter_chain request \<and>
     rb_verifier (vc_body receipt) = verifier \<and> rb_verifier (vc_body receipt) = sb_verifier scope \<and>
     rb_verifier_semantics (vc_body receipt) = vr_verifier_semantics request \<and>
     rb_hostile_specimen_catalog (vc_body receipt) = vr_hostile_specimen_catalog request \<and>
     judgment_outcome (rb_proposal_judgment (vc_body receipt)) = OutEntailed \<and>
     length (rb_hostile_specimen_results (vc_body receipt)) = length (sb_hostile_specimens scope) \<and>
     (\<exists>seen. check_specimens (sb_hostile_specimens scope) [] (rb_hostile_specimen_results (vc_body receipt)) = Inr seen)"
  by (auto simp: validate_verifier_receipt_def effect_checks Let_def check_specimens_iff)

lemma verifier_request_for_iff:
  "verifier_request_for E identity s proposal adapter nonce now = Inr request \<longleftrightarrow>
     scope_verify E s = Inr () \<and>
     sb_not_before_unix_ms (ds_body s) \<le> now \<and> now < sb_expires_unix_ms (ds_body s) \<and>
     proposal_verify_digest E proposal = Inr () \<and>
     cb_schema (cp_body proposal) = effect_schema \<and> cb_catalog_schema (cp_body proposal) = effect_catalog_schema \<and>
     cb_authority_domain (cp_body proposal) = sb_authority_domain (ds_body s) \<and>
     cb_epoch (cp_body proposal) = sb_epoch (ds_body s) \<and>
     pc_authority_domain (cb_proposer (cp_body proposal)) = cb_authority_domain (cp_body proposal) \<and>
     pc_epoch (cb_proposer (cp_body proposal)) = cb_epoch (cp_body proposal) \<and>
     cb_catalog_identity (cp_body proposal) = sb_catalog_identity (ds_body s) \<and>
     cb_effects (cp_body proposal) \<noteq> [] \<and>
     (\<forall>e \<in> set (cb_effects (cp_body proposal)).
        effect_family_of e = CodePromotion \<and> effect_target e \<in> set (sb_allowed_targets (ds_body s))) \<and>
     validate_adapter (ds_body s) (cp_body proposal) adapter = Inr () \<and> identity = sb_verifier (ds_body s) \<and>
     (\<exists>c k. chain_id E adapter = Some c \<and> hostile_specimen_catalog_digest E (ds_body s) = Inr k \<and>
        request = \<lparr>vr_schema = derived_request_schema, vr_invocation_nonce = nonce, vr_scope = ds_digest s,
          vr_canonical_proposal = proposal, vr_catalog_identity = cb_catalog_identity (cp_body proposal),
          vr_judgment = cb_judgment (cp_body proposal), vr_adapter_chain = c,
          vr_verifier_semantics = sb_verifier_semantics (ds_body s), vr_hostile_specimen_catalog = k\<rparr>)"
  by (auto simp: verifier_request_for_def effect_checks Let_def check_promotion_effect_def
      try_for_each_Inr_iff not_less not_le)

lemma validate_adapter_iff:
  "validate_adapter scope proposal adapter = Inr () \<longleftrightarrow>
     pc_authority_domain adapter = sb_authority_domain scope \<and> pc_epoch adapter = sb_epoch scope \<and>
     cb_authority_domain proposal = sb_authority_domain scope \<and> cb_epoch proposal = sb_epoch scope \<and>
     cn_kind (chain_leaf adapter) = KService \<and>
     cn_principal_id (chain_root adapter) \<in> set (sb_adapter_roots scope) \<and>
     independent_from (cb_proposer proposal) adapter"
  by (cases "sb_separation scope")
    (auto simp: validate_adapter_def effect_checks independent_from_def is_ok_iff)

lemma validate_and_burn_Ok_iff:
  "validate_and_burn E ident run burn_once (v, b) q = (Inr e, (v', b')) \<longleftrightarrow>
     (\<exists>request receipt d.
        verifier_request_for E (ident v) (dx_scope q) (dx_proposal q) (dx_adapter q) (dx_nonce q)
          (dx_now_unix_ms q) = Inr request \<and>
        run v request = (Inr receipt, v') \<and>
        validate_verifier_receipt E (ds_body (dx_scope q)) request (ident v') receipt = Inr () \<and>
        burn_once b (dx_scope q, burn_for (dx_scope q) (dx_proposal q) receipt request) = (Inr d, b') \<and>
        e = evidence_for (dx_scope q) (dx_proposal q) (dx_adapter q) receipt request d)"
  by (auto simp: validate_and_burn_def split: sum.splits prod.splits)

lemma validate_and_burn_store:
  "validate_and_burn E ident run burn_once (v, b) q = (x, (v', b')) \<Longrightarrow>
     b' = b \<or> (\<exists>r p. burn_once b (dx_scope q, p) = (r, b'))"
  by (auto simp: validate_and_burn_def split: sum.splits prod.splits)

section \<open>The contract of the burn store\<close>

text \<open>
  What the trait asks of a store: a burn that succeeds found proposal, nonce and receipt unused
  and one use of the scope left, and marks all of them; nothing is ever unmarked.
\<close>

locale derived_burn_store =
  fixes burn_once :: "'b \<Rightarrow> derived_scope \<times> receipt_burn \<Rightarrow> (burn_error + digest) \<times> 'b"
    and burned_proposals :: "'b \<Rightarrow> digest set"
    and burned_nonces :: "'b \<Rightarrow> digest set"
    and burned_receipts :: "'b \<Rightarrow> digest set"
    and scope_used :: "'b \<Rightarrow> digest \<Rightarrow> nat"
  assumes burn_fresh: "burn_once b (s, r) = (Inr d, b') \<Longrightarrow>
      bu_proposal r \<notin> burned_proposals b \<and> bu_proposal r \<in> burned_proposals b' \<and>
      bu_invocation_nonce r \<notin> burned_nonces b \<and> bu_invocation_nonce r \<in> burned_nonces b' \<and>
      bu_verifier_receipt r \<notin> burned_receipts b \<and> bu_verifier_receipt r \<in> burned_receipts b'"
    and burn_metered: "burn_once b (s, r) = (Inr d, b') \<Longrightarrow>
      scope_used b (ds_digest s) < unat (sb_max_uses (ds_body s)) \<and>
      scope_used b (ds_digest s) < scope_used b' (ds_digest s)"
    and burn_keeps: "burn_once b x = (y, b') \<Longrightarrow>
      burned_proposals b \<subseteq> burned_proposals b' \<and> burned_nonces b \<subseteq> burned_nonces b' \<and>
      burned_receipts b \<subseteq> burned_receipts b' \<and> scope_used b k \<le> scope_used b' k"
begin

lemma call_keeps:
  assumes "validate_and_burn E ident run burn_once (v, b) q = (x, (v', b'))"
  shows "burned_proposals b \<subseteq> burned_proposals b' \<and> burned_nonces b \<subseteq> burned_nonces b' \<and>
    scope_used b k \<le> scope_used b' k"
  using validate_and_burn_store [OF assms] burn_keeps [where k = k] by blast

sublocale proposals: burning_ledger "validate_and_burn E ident run burn_once"
  "\<lambda>q. cp_digest (dx_proposal q)" "\<lambda>l. burned_proposals (snd l)" for E ident run
proof unfold_locales
  fix l q e l' assume "validate_and_burn E ident run burn_once l q = (Inr e, l')"
  then show "cp_digest (dx_proposal q) \<notin> burned_proposals (snd l) \<and>
      cp_digest (dx_proposal q) \<in> burned_proposals (snd l')"
    by (cases l; cases l') (auto simp: validate_and_burn_Ok_iff burn_for_def dest!: burn_fresh)
next
  fix l q x l' assume "validate_and_burn E ident run burn_once l q = (x, l')"
  then show "burned_proposals (snd l) \<subseteq> burned_proposals (snd l')"
    by (cases l; cases l') (auto dest!: call_keeps)
qed

sublocale nonces: burning_ledger "validate_and_burn E ident run burn_once" dx_nonce
  "\<lambda>l. burned_nonces (snd l)" for E ident run
proof unfold_locales
  fix l q e l' assume "validate_and_burn E ident run burn_once l q = (Inr e, l')"
  then show "dx_nonce q \<notin> burned_nonces (snd l) \<and> dx_nonce q \<in> burned_nonces (snd l')"
    by (cases l; cases l') (auto simp: validate_and_burn_Ok_iff burn_for_def verifier_request_for_iff
        dest!: burn_fresh)
next
  fix l q x l' assume "validate_and_burn E ident run burn_once l q = (x, l')"
  then show "burned_nonces (snd l) \<subseteq> burned_nonces (snd l')"
    by (cases l; cases l') (auto dest!: call_keeps)
qed

sublocale scopes: metered_ledger "validate_and_burn E ident run burn_once" dx_scope
  "\<lambda>l s. scope_used (snd l) (ds_digest s)" "\<lambda>s. unat (sb_max_uses (ds_body s))" for E ident run
proof unfold_locales
  fix l q e l' assume "validate_and_burn E ident run burn_once l q = (Inr e, l')"
  then show "scope_used (snd l) (ds_digest (dx_scope q)) < unat (sb_max_uses (ds_body (dx_scope q))) \<and>
      scope_used (snd l) (ds_digest (dx_scope q)) < scope_used (snd l') (ds_digest (dx_scope q))"
    by (cases l; cases l') (auto simp: validate_and_burn_Ok_iff dest!: burn_metered)
next
  fix l q x l' and s :: derived_scope
  assume "validate_and_burn E ident run burn_once l q = (x, l')"
  then show "scope_used (snd l) (ds_digest s) \<le> scope_used (snd l') (ds_digest s)"
    by (cases l; cases l') (auto dest!: call_keeps [where k = "ds_digest s"])
qed

end

lemma u32_succ:
  fixes u n :: u32
  assumes "u < n"
  shows "unat (u + 1) = Suc (unat u)"
proof -
  have "unat u < unat n" using assms by (simp add: word_less_nat_alt)
  moreover have "unat n < 2 ^ 32" using unsigned_less [of n] by simp
  ultimately show ?thesis by (simp add: unat_word_ariths)
qed

lemma memory_burn_Ok:
  assumes "memory_burn_once E m (s, r) = (Inr d, m')"
  shows "bu_proposal r \<notin> set (my_proposals m) \<and> bu_invocation_nonce r \<notin> set (my_nonces m) \<and>
    bu_verifier_receipt r \<notin> set (my_receipts m) \<and>
    scope_uses_of m (ds_digest s) < sb_max_uses (ds_body s) \<and>
    set (my_proposals m') = insert (bu_proposal r) (set (my_proposals m)) \<and>
    set (my_nonces m') = insert (bu_invocation_nonce r) (set (my_nonces m)) \<and>
    set (my_receipts m') = insert (bu_verifier_receipt r) (set (my_receipts m)) \<and>
    scope_uses_of m' (ds_digest s) = scope_uses_of m (ds_digest s) + 1"
  using assms
  by (auto simp: memory_burn_once_def Let_def set_bs_insert scope_uses_of_def split: if_splits)

lemma memory_burn_keeps:
  assumes "memory_burn_once E m x = (y, m')"
  shows "set (my_proposals m) \<subseteq> set (my_proposals m') \<and> set (my_nonces m) \<subseteq> set (my_nonces m') \<and>
    set (my_receipts m) \<subseteq> set (my_receipts m') \<and> unat (scope_uses_of m k) \<le> unat (scope_uses_of m' k)"
proof -
  obtain s r where x: "x = (s, r)" by fastforce
  show ?thesis
    using assms
    by (auto simp: x memory_burn_once_def Let_def set_bs_insert scope_uses_of_def not_le u32_succ
        split: if_splits option.splits)
qed

interpretation memory: derived_burn_store "memory_burn_once E" "\<lambda>m. set (my_proposals m)"
  "\<lambda>m. set (my_nonces m)" "\<lambda>m. set (my_receipts m)" "\<lambda>m k. unat (scope_uses_of m k)" for E
proof unfold_locales
  fix b s r d b' assume ok: "memory_burn_once E b (s, r) = (Inr d, b')"
  note memory_burn_Ok [OF ok]
  then show "bu_proposal r \<notin> set (my_proposals b) \<and> bu_proposal r \<in> set (my_proposals b') \<and>
      bu_invocation_nonce r \<notin> set (my_nonces b) \<and> bu_invocation_nonce r \<in> set (my_nonces b') \<and>
      bu_verifier_receipt r \<notin> set (my_receipts b) \<and> bu_verifier_receipt r \<in> set (my_receipts b')"
    and "unat (scope_uses_of b (ds_digest s)) < unat (sb_max_uses (ds_body s)) \<and>
      unat (scope_uses_of b (ds_digest s)) < unat (scope_uses_of b' (ds_digest s))"
    by (auto simp: u32_succ word_less_nat_alt)
qed (rule memory_burn_keeps)


section \<open>A sample authorization\<close>

definition sample_pinned :: pinned_verifier where
  "sample_pinned = \<lparr>pv_executable = \<lparr>xi_sha256 = Digest ''v'', xi_size = 1, xi_build_identity = None\<rparr>,
     pv_launch_profile = \<lparr>lp_profile_digest = Digest ''l'', lp_protocol_schema_digest = Digest ''p''\<rparr>\<rparr>"

definition sample_scope_body :: derived_scope_body where
  "sample_scope_body = \<lparr>sb_schema = derived_scope_schema, sb_authority_domain = AuthorityDomainId ''d'',
     sb_epoch = EpochId 1, sb_catalog_identity = Digest ''c'', sb_allowed_targets = [TargetId ''t''],
     sb_verifier = sample_pinned, sb_verifier_semantics = Digest ''s'',
     sb_hostile_specimens = [(Digest ''h'', ExpectNotEntailed), (Digest ''k'', ExpectEntailed)],
     sb_adapter_roots = [PrincipalId (Digest ''a'')], sb_separation = DistinctRootsNoSharedLineage,
     sb_not_before_unix_ms = 1, sb_expires_unix_ms = 9, sb_max_uses = 1\<rparr>"

definition sample_promotions :: proposal_body where
  "sample_promotions = sample_body\<lparr>cb_effects := [EffPromotion (sample_promotion (sample_operation 0))]\<rparr>"

definition sample_call :: derived_call where
  "sample_call = \<lparr>
     dx_scope = \<lparr>ds_digest = (case digest_value sample_env scope_digest_domain (scope_body_json sample_scope_body)
         of Inr d \<Rightarrow> d | Inl _ \<Rightarrow> Digest []), ds_body = sample_scope_body\<rparr>,
     dx_proposal = \<lparr>cp_digest = sample_digest (body_json sample_promotions), cp_body = sample_promotions\<rparr>,
     dx_adapter = \<lparr>pc_authority_domain = AuthorityDomainId ''d'', pc_epoch = EpochId 1,
       pc_nodes = [chain_root_node (PrincipalId (Digest ''a'')) KService]\<rparr>,
     dx_nonce = Digest ''n'', dx_now_unix_ms = 5\<rparr>"

text \<open>A verifier that entails the proposal and judges the two specimens as the scope expects.\<close>

definition sample_run :: "unit \<Rightarrow> verifier_request \<Rightarrow> (digest + verifier_receipt) \<times> unit" where
  "sample_run u r = (map_err (\<lambda>_. Digest [])
     (res_bind (request_digest sample_env r) (\<lambda>d. receipt_new sample_env
       \<lparr>rb_schema = derived_receipt_schema, rb_request = d, rb_invocation_nonce = vr_invocation_nonce r,
        rb_scope = vr_scope r, rb_proposal = cp_digest (vr_canonical_proposal r),
        rb_catalog_identity = vr_catalog_identity r, rb_judgment = vr_judgment r,
        rb_adapter_chain = vr_adapter_chain r, rb_verifier = sample_pinned,
        rb_verifier_semantics = vr_verifier_semantics r,
        rb_hostile_specimen_catalog = vr_hostile_specimen_catalog r,
        rb_proposal_judgment = JudgedEntailed (Digest ''e''),
        rb_hostile_specimen_results =
          [\<lparr>hr_specimen = Digest ''k'', hr_observed = OutEntailed, hr_evidence = Digest ''e''\<rparr>,
           \<lparr>hr_specimen = Digest ''h'', hr_observed = OutNotEntailed, hr_evidence = Digest ''e''\<rparr>]\<rparr>)), u)"

lemma sample_digest_value: "\<exists>d. digest_value sample_env k v = Inr d"
  using sample_canonicalize_ok [of v] by (auto simp: digest_value_Ok_iff)

lemma sample_scope_verify: "scope_verify sample_env (dx_scope sample_call) = Inr ()"
  using sample_digest_value [of scope_digest_domain "scope_body_json sample_scope_body"]
  by (auto simp: scope_verify_iff sample_call_def)
    (simp add: validate_scope_body_def sample_scope_body_def sample_pinned_def word_le_nat_alt)

lemma sample_request:
  "\<exists>r. verifier_request_for sample_env sample_pinned (dx_scope sample_call) (dx_proposal sample_call)
     (dx_adapter sample_call) (dx_nonce sample_call) (dx_now_unix_ms sample_call) = Inr r"
proof -
  have "\<exists>c. chain_id sample_env (dx_adapter sample_call) = Some c"
    using sample_canonicalize_ok [of "chain_json (dx_adapter sample_call)"] by (auto simp: chain_id_def domain_id_def split: sum.split)
  moreover have "\<exists>k. hostile_specimen_catalog_digest sample_env (ds_body (dx_scope sample_call)) = Inr k"
    unfolding hostile_specimen_catalog_digest_def by (rule sample_digest_value)
  moreover have "validate_adapter (ds_body (dx_scope sample_call)) (cp_body (dx_proposal sample_call))
      (dx_adapter sample_call) = Inr ()"
    by (simp add: validate_adapter_def sample_call_def sample_scope_body_def sample_promotions_def sample_body_def
        sample_proposer_def chain_root_def chain_leaf_def chain_root_node_def chain_ids_def worker_ids_def
        check_distinct_roots_no_shared_lineage_def)
  moreover have "proposal_verify_digest sample_env (dx_proposal sample_call) = Inr ()"
    by (simp add: proposal_verify_digest_def sample_digest sample_call_def)
  moreover have "\<forall>e \<in> set (cb_effects (cp_body (dx_proposal sample_call))). effect_family_of e = CodePromotion \<and>
      effect_target e \<in> set (sb_allowed_targets (ds_body (dx_scope sample_call)))"
    by (simp add: sample_call_def sample_promotions_def sample_scope_body_def sample_promotion_def)
  moreover have "cb_effects (cp_body (dx_proposal sample_call)) \<noteq> []"
    by (simp add: sample_call_def sample_promotions_def)
  moreover have "sb_not_before_unix_ms (ds_body (dx_scope sample_call)) \<le> dx_now_unix_ms sample_call \<and>
      dx_now_unix_ms sample_call < sb_expires_unix_ms (ds_body (dx_scope sample_call))"
    by (simp add: sample_call_def sample_scope_body_def word_le_nat_alt word_less_nat_alt)
  moreover have "cb_schema sample_promotions = effect_schema \<and> cb_catalog_schema sample_promotions = effect_catalog_schema \<and>
     cb_authority_domain sample_promotions = sb_authority_domain sample_scope_body \<and>
     cb_epoch sample_promotions = sb_epoch sample_scope_body \<and>
     pc_authority_domain (cb_proposer sample_promotions) = cb_authority_domain sample_promotions \<and>
     pc_epoch (cb_proposer sample_promotions) = cb_epoch sample_promotions \<and>
     cb_catalog_identity sample_promotions = sb_catalog_identity sample_scope_body \<and>
     sample_pinned = sb_verifier sample_scope_body"
    by (simp add: sample_promotions_def sample_body_def sample_scope_body_def sample_proposer_def)
  moreover have "ds_body (dx_scope sample_call) = sample_scope_body" "cp_body (dx_proposal sample_call) = sample_promotions"
    by (simp_all add: sample_call_def)
  ultimately show ?thesis
    unfolding verifier_request_for_iff using sample_scope_verify by metis
qed

lemma sample_authorized:
  "\<exists>e m. validate_and_burn sample_env (\<lambda>_. sample_pinned) sample_run (memory_burn_once sample_env)
     ((), memory_burns_new) sample_call = (Inr e, ((), m))"
proof -
  obtain r where r: "verifier_request_for sample_env sample_pinned (dx_scope sample_call) (dx_proposal sample_call)
     (dx_adapter sample_call) (dx_nonce sample_call) (dx_now_unix_ms sample_call) = Inr r"
    using sample_request by blast
  obtain rd where rd: "request_digest sample_env r = Inr rd"
    using sample_digest_value unfolding request_digest_def by blast
  obtain c where c: "fst (sample_run () r) = Inr c"
    using sample_digest_value by (simp add: sample_run_def rd receipt_new_def) (metis res_bind_simps(2) map_err_simps(2))
  have "validate_verifier_receipt sample_env (ds_body (dx_scope sample_call)) r sample_pinned c = Inr ()"
    using c rd r
    by (auto simp: validate_verifier_receipt_iff sample_run_def receipt_new_def receipt_verify_digest_def effect_checks)
      (simp_all add: verifier_request_for_iff sample_call_def sample_scope_body_def)
  moreover have "\<exists>d m. memory_burn_once sample_env memory_burns_new
      (dx_scope sample_call, burn_for (dx_scope sample_call) (dx_proposal sample_call) c r) = (Inr d, m)"
  proof -
    obtain x where "canonicalize sample_env (receipt_burn_json (burn_for (dx_scope sample_call)
        (dx_proposal sample_call) c r)) = Inr x"
      using sample_canonicalize_ok by blast
    moreover have "\<not> 1 \<le> (0 :: u32)" "sb_max_uses (ds_body (dx_scope sample_call)) = 1"
      by (simp_all add: sample_call_def sample_scope_body_def)
    moreover have "bu_scope (burn_for (dx_scope sample_call) (dx_proposal sample_call) c r) =
        ds_digest (dx_scope sample_call)" by (simp add: burn_for_def)
    ultimately show ?thesis
      by (simp add: memory_burn_once_def Let_def memory_burns_new_def scope_uses_of_def is_ok_iff
          sample_scope_verify from_serializable_def)
  qed
  ultimately show ?thesis
    unfolding validate_and_burn_Ok_iff using r c by (metis prod.collapse old.unit.exhaust)
qed

section \<open>Properties\<close>

text \<open>
  C8: a derived authorization is only issued within a scope that verifies and is in its time window,
  for a proposal whose digest verifies and whose effects are all promotions of targets of the scope,
  through an admitted service adapter that is independent of the proposer, on a receipt that echoes
  this invocation and this proposal, entails it and has exactly one result, the expected one, for every
  hostile specimen; and only after the burn succeeded.  The evidence names scope, proposal, receipt and
  burn.
\<close>

theorem derived_authorization_sound:
  assumes ok: "validate_and_burn E ident run burn_once (v, b) q = (Ok e, (v', b'))"
    and keys: "distinct (map fst (sb_hostile_specimens (ds_body (dx_scope q))))"
  shows "scope_verify E (dx_scope q) = Ok () \<and>
    sb_not_before_unix_ms (ds_body (dx_scope q)) \<le> dx_now_unix_ms q \<and>
    dx_now_unix_ms q < sb_expires_unix_ms (ds_body (dx_scope q)) \<and>
    proposal_verify_digest E (dx_proposal q) = Ok () \<and>
    (\<forall>x \<in> set (cb_effects (cp_body (dx_proposal q))).
       effect_family_of x = CodePromotion \<and> effect_target x \<in> set (sb_allowed_targets (ds_body (dx_scope q)))) \<and>
    cn_kind (chain_leaf (dx_adapter q)) = KService \<and>
    cn_principal_id (chain_root (dx_adapter q)) \<in> set (sb_adapter_roots (ds_body (dx_scope q))) \<and>
    independent_from (cb_proposer (cp_body (dx_proposal q))) (dx_adapter q) \<and>
    (\<exists>receipt burn d. receipt_verify_digest E receipt = Ok () \<and>
       rb_invocation_nonce (vc_body receipt) = dx_nonce q \<and>
       rb_scope (vc_body receipt) = ds_digest (dx_scope q) \<and>
       rb_proposal (vc_body receipt) = cp_digest (dx_proposal q) \<and>
       rb_verifier (vc_body receipt) = sb_verifier (ds_body (dx_scope q)) \<and>
       judgment_outcome (rb_proposal_judgment (vc_body receipt)) = OutEntailed \<and>
       (\<forall>k x. bt_get (sb_hostile_specimens (ds_body (dx_scope q))) k = Some x \<longrightarrow>
          (\<exists>!r. r \<in> set (rb_hostile_specimen_results (vc_body receipt)) \<and> hr_specimen r = k) \<and>
          (\<exists>r \<in> set (rb_hostile_specimen_results (vc_body receipt)).
             hr_specimen r = k \<and> outcome_matches x (hr_observed r))) \<and>
       burn_once b (dx_scope q, burn) = (Ok d, b') \<and>
       bu_proposal burn = cp_digest (dx_proposal q) \<and> bu_invocation_nonce burn = dx_nonce q \<and>
       bu_verifier_receipt burn = vc_digest receipt \<and>
       dv_scope e = ds_digest (dx_scope q) \<and> dv_proposal e = cp_digest (dx_proposal q) \<and>
       dv_verifier_receipt e = vc_digest receipt \<and> dv_burn_receipt e = d)"
proof -
  from ok obtain request receipt d where
    req: "verifier_request_for E (ident v) (dx_scope q) (dx_proposal q) (dx_adapter q) (dx_nonce q)
      (dx_now_unix_ms q) = Inr request"
    and receipt: "validate_verifier_receipt E (ds_body (dx_scope q)) request (ident v') receipt = Inr ()"
    and burn: "burn_once b (dx_scope q, burn_for (dx_scope q) (dx_proposal q) receipt request) = (Inr d, b')"
    and e: "e = evidence_for (dx_scope q) (dx_proposal q) (dx_adapter q) receipt request d"
    unfolding validate_and_burn_Ok_iff by blast
  from receipt obtain seen where
    "length (rb_hostile_specimen_results (vc_body receipt)) = length (sb_hostile_specimens (ds_body (dx_scope q)))"
    "check_specimens (sb_hostile_specimens (ds_body (dx_scope q))) []
      (rb_hostile_specimen_results (vc_body receipt)) = Inr seen"
    unfolding validate_verifier_receipt_iff by blast
  note specimens = specimens_complete [OF keys this]
  from req have same: "vr_invocation_nonce request = dx_nonce q" "vr_scope request = ds_digest (dx_scope q)"
    "vr_canonical_proposal request = dx_proposal q"
    unfolding verifier_request_for_iff by auto
  have bound: "receipt_verify_digest E receipt = Inr () \<and> rb_invocation_nonce (vc_body receipt) = dx_nonce q \<and>
      rb_scope (vc_body receipt) = ds_digest (dx_scope q) \<and>
      rb_proposal (vc_body receipt) = cp_digest (dx_proposal q) \<and>
      rb_verifier (vc_body receipt) = sb_verifier (ds_body (dx_scope q)) \<and>
      judgment_outcome (rb_proposal_judgment (vc_body receipt)) = OutEntailed"
    using receipt unfolding validate_verifier_receipt_iff same by (elim conjE) (intro conjI; assumption)
  show ?thesis
    using req bound specimens burn
    unfolding verifier_request_for_iff validate_adapter_iff
    by (intro conjI exI [of _ receipt] exI [of _ d]
        exI [of _ "burn_for (dx_scope q) (dx_proposal q) receipt request"])
      (simp_all add: e evidence_for_def burn_for_def same)
qed

text \<open>Two specimens, an honest verifier, an empty store.\<close>

theorem derived_authorization_sound_witness:
  "\<exists>e m. validate_and_burn sample_env (\<lambda>_. sample_pinned) sample_run (memory_burn_once sample_env)
      ((), memory_burns_new) sample_call = (Ok e, ((), m)) \<and>
    distinct (map fst (sb_hostile_specimens (ds_body (dx_scope sample_call)))) \<and>
    independent_from (cb_proposer (cp_body (dx_proposal sample_call))) (dx_adapter sample_call)"
proof -
  obtain e m where ok: "validate_and_burn sample_env (\<lambda>_. sample_pinned) sample_run (memory_burn_once sample_env)
      ((), memory_burns_new) sample_call = (Inr e, ((), m))"
    using sample_authorized by blast
  moreover have keys: "distinct (map fst (sb_hostile_specimens (ds_body (dx_scope sample_call))))"
    by (simp add: sample_call_def sample_scope_body_def)
  ultimately show ?thesis using derived_authorization_sound [OF ok keys] by blast
qed

text \<open>
  C9: over any sequence of calls with the in-memory store, whatever the verifier answers, no proposal and
  no invocation nonce is authorized twice and no scope more often than its \<open>max_uses\<close>.
\<close>

theorem derived_authorization_one_use:
  "distinct (granted (validate_and_burn E ident run (memory_burn_once E))
     (\<lambda>q. cp_digest (dx_proposal q)) (v, b) qs) \<and>
   distinct (granted (validate_and_burn E ident run (memory_burn_once E)) dx_nonce (v, b) qs) \<and>
   count_list (granted (validate_and_burn E ident run (memory_burn_once E)) dx_scope (v, b) qs) s
     \<le> unat (sb_max_uses (ds_body s)) - unat (scope_uses_of b (ds_digest s))"
  using memory.scopes.granted_metered [where l = "(v, b)"]
  by (intro conjI memory.proposals.granted_distinct memory.nonces.granted_distinct) simp

text \<open>
  A call that is refused for any reason other than the store itself leaves the store as it was, and a
  call refused before the verifier ran leaves the verifier as it was.
\<close>

lemma derived_refusal_burns_nothing:
  assumes "validate_and_burn E ident run burn_once (v, b) q = (Err x, (v', b'))"
    and "\<forall>y. x \<noteq> DerivedRefused (DeBurn y)"
  shows "b' = b \<and> (v' = v \<or> (\<exists>request r. run v request = (r, v')))"
  using assms by (auto simp: validate_and_burn_def split: sum.splits prod.splits)

end
