(* ===== verification/AG_Rpc.thy ===== *)
theory AG_Rpc
  imports AG_Wire AG_Paths "HOL-Library.AList"
begin

text \<open>
  \<open>crates/ag-app/src/rpc_auth.rs\<close>: the mutually authenticated local exchange of challenge,
  request and response, and its bounded replay guard.

  Ring's Ed25519 key pairs and its PKCS#8 reader are parameters (\<open>key_pair\<close>, \<open>pkcs8\<close>), a fresh nonce
  is an argument (\<open>None\<close> when the generator fails), and the files behind a credential path are given
  by what \<open>open\<close>, \<open>fstat\<close> and \<open>read\<close> return.  A verifier returns its result and the guard after the
  call.  The lock of the guard is never poisoned: nothing that runs under it panics.
\<close>

section \<open>Identifiers and encoded values\<close>

datatype rpc_key_id = RpcKeyId (key_id_str: string)
datatype rpc_public_key = RpcPublicKey (public_key_bytes: bytes)
datatype rpc_signature = RpcSignature (signature_bytes: bytes)
datatype rpc_nonce = RpcNonce (nonce_bytes: bytes)

datatype rpc_error =
    RpcInvalidKeyId
  | RpcInvalidBase64
  | RpcInvalidEncodedLength
  | RpcNonCanonicalBase64
  | RpcUnsafeCredentialPath
  | RpcCredentialIo
  | RpcInvalidCredentialFile
  | RpcInvalidPrivateKey
  | RpcCredentialPublicKeyMismatch
  | RpcRandomness
  | RpcClock
  | RpcInvalidClockSkewPolicy
  | RpcTimestampOutsideWindow
  | RpcInvalidReplayCapacity
  | RpcReplayState
  | RpcReplay
  | RpcReplayCapacityExhausted
  | RpcSchema
  | RpcProtocolVersion
  | RpcWrongDirection
  | RpcSignerMismatch
  | RpcAudienceMismatch
  | RpcChallengeMismatch
  | RpcRequestBindingMismatch
  | RpcResponseBodyDigestMismatch
  | RpcSignatureInvalid
  | RpcProtocol protocol_error

definition ed25519_public_key_len :: nat where "ed25519_public_key_len = 32"
definition ed25519_signature_len :: nat where "ed25519_signature_len = 64"
definition rpc_nonce_len :: nat where "rpc_nonce_len = 32"
definition max_credential_bytes :: nat where "max_credential_bytes = 4096"

definition rpc_signature_prefix :: bytes where
  "rpc_signature_prefix =
     ''ag-ng'' @ [CHR 0x00] @ ''local-rpc-signature'' @ [CHR 0x00] @ ''v1'' @ [CHR 0x00]"

definition key_id_new :: "string \<Rightarrow> rpc_error + rpc_key_id" where
  "key_id_new v =
     (if v = [] \<or> length v > 128 \<or> \<not> list_all (\<lambda>c. is_ascii_alphanumeric c \<or> c \<in> set ''-_.:'') v
      then Err RpcInvalidKeyId else Ok (RpcKeyId v))"

text \<open>The parser that the macro writes for a value of a fixed number of bytes.\<close>

definition fixed_parse :: "sign_env \<Rightarrow> nat \<Rightarrow> string \<Rightarrow> rpc_error + bytes" where
  "fixed_parse G len v =
     res_bind (ok_or RpcInvalidBase64 (sg_b64_decode G v)) (\<lambda>b.
     if length b \<noteq> len then Err RpcInvalidEncodedLength
     else if sg_b64_encode G b \<noteq> v then Err RpcNonCanonicalBase64 else Ok b)"

definition public_key_parse :: "sign_env \<Rightarrow> string \<Rightarrow> rpc_error + rpc_public_key" where
  "public_key_parse G v = res_bind (fixed_parse G ed25519_public_key_len v) (\<lambda>b. Ok (RpcPublicKey b))"

definition signature_parse :: "sign_env \<Rightarrow> string \<Rightarrow> rpc_error + rpc_signature" where
  "signature_parse G v = res_bind (fixed_parse G ed25519_signature_len v) (\<lambda>b. Ok (RpcSignature b))"

definition rpc_nonce_parse :: "sign_env \<Rightarrow> string \<Rightarrow> rpc_error + rpc_nonce" where
  "rpc_nonce_parse G v = res_bind (fixed_parse G rpc_nonce_len v) (\<lambda>b. Ok (RpcNonce b))"

section \<open>Enrollment\<close>

record key_policy =
  kp_principal :: digest
  kp_key_id :: rpc_key_id
  kp_public_key :: rpc_public_key
  kp_maximum_clock_skew_ms :: u64

definition key_policy_validate :: "key_policy \<Rightarrow> rpc_error + unit" where
  "key_policy_validate p =
     (if kp_maximum_clock_skew_ms p = 0 \<or> kp_maximum_clock_skew_ms p > 300000
      then Err RpcInvalidClockSkewPolicy else Ok ())"

definition key_id_json :: "rpc_key_id \<Rightarrow> json" where
  "key_id_json k = JStr (key_id_str k)"
definition public_key_json :: "sign_env \<Rightarrow> rpc_public_key \<Rightarrow> json" where
  "public_key_json G k = JStr (sg_b64_encode G (public_key_bytes k))"
definition signature_json :: "sign_env \<Rightarrow> rpc_signature \<Rightarrow> json" where
  "signature_json G s = JStr (sg_b64_encode G (signature_bytes s))"
definition rpc_nonce_json :: "sign_env \<Rightarrow> rpc_nonce \<Rightarrow> json" where
  "rpc_nonce_json G n = JStr (sg_b64_encode G (nonce_bytes n))"

definition candidate_ingress_key_identity :: "env \<Rightarrow> sign_env \<Rightarrow> key_policy \<Rightarrow> rpc_error + digest" where
  "candidate_ingress_key_identity E G p =
     res_bind (key_policy_validate p) (\<lambda>_.
     map_err RpcProtocol (canonical_json_digest E ''ag-local-rpc-candidate-ingress-key-identity-v1''
       (JArr [JStr ''worker_candidate_ingress'', key_id_json (kp_key_id p), public_key_json G (kp_public_key p),
          u64_json (kp_maximum_clock_skew_ms p)])))"

record signing_identity_config =
  sc_principal :: digest
  sc_key_id :: rpc_key_id
  sc_public_key :: rpc_public_key
  sc_private_key_credential :: string

text \<open>\<open>PathBuf::push\<close> of a normal component: a separator is added unless one is there.\<close>

definition path_push :: "string \<Rightarrow> string \<Rightarrow> string" where
  "path_push p c = (if ends_with ''/'' p \<or> p = [] then p @ c else p @ ''/'' @ c)"

fun push_normals :: "string \<Rightarrow> path_component list \<Rightarrow> rpc_error + string" where
  "push_normals p [] = Ok p"
| "push_normals p (NormalComp c # cs) = push_normals (path_push p c) cs"
| "push_normals p (_ # cs) = Err RpcUnsafeCredentialPath"

definition signing_identity_validate :: "signing_identity_config \<Rightarrow> rpc_error + unit" where
  "signing_identity_validate c =
     (case path_components (sc_private_key_credential c) of
        RootDir # cs \<Rightarrow>
          res_bind (push_normals ''/'' cs) (\<lambda>normalized.
          if normalized \<noteq> sc_private_key_credential c \<or> path_eq normalized ''/''
          then Err RpcUnsafeCredentialPath else Ok ())
      | _ \<Rightarrow> Err RpcUnsafeCredentialPath)"

record peer_enrollment =
  pe_principal :: digest
  pe_key :: key_policy

definition enrollment_new :: "digest \<Rightarrow> key_policy \<Rightarrow> rpc_error + peer_enrollment" where
  "enrollment_new p k =
     res_bind (key_policy_validate k) (\<lambda>_.
     if p \<noteq> kp_principal k then Err RpcSignerMismatch else Ok \<lparr>pe_principal = p, pe_key = k\<rparr>)"

record verified_principal =
  vp_principal :: digest
  vp_key_id :: rpc_key_id

definition binding_digest :: "env \<Rightarrow> verified_principal \<Rightarrow> rpc_error + digest" where
  "binding_digest E v =
     map_err RpcProtocol (canonical_json_digest E ''ag-local-rpc-verified-principal-v1''
       (JObj [(''principal'', digest_json (vp_principal v)), (''key_id'', key_id_json (vp_key_id v))]))"

section \<open>Frames\<close>

datatype rpc_direction = ServerChallenge | RequestDirection | ResponseDirection

fun direction_str :: "rpc_direction \<Rightarrow> string" where
  "direction_str ServerChallenge = ''server_challenge''"
| "direction_str RequestDirection = ''request''"
| "direction_str ResponseDirection = ''response''"

definition direction_json :: "rpc_direction \<Rightarrow> json" where
  "direction_json d = JStr (direction_str d)"

record challenge_proof =
  hf_signer_principal :: digest
  hf_signer_key_id :: rpc_key_id
  hf_audience_principal :: digest
  hf_audience_key_id :: rpc_key_id
  hf_direction :: rpc_direction
  hf_nonce :: rpc_nonce
  hf_issued_at_unix_ms :: u64
  hf_signature :: rpc_signature

record signed_challenge =
  sh_schema :: string
  sh_protocol_version :: protocol_version
  sh_authentication :: challenge_proof

record request_proof =
  rf_signer_principal :: digest
  rf_signer_key_id :: rpc_key_id
  rf_audience_principal :: digest
  rf_audience_key_id :: rpc_key_id
  rf_direction :: rpc_direction
  rf_nonce :: rpc_nonce
  rf_issued_at_unix_ms :: u64
  rf_challenge_digest :: digest
  rf_signature :: rpc_signature

record 'b signed_request =
  sq_schema :: string
  sq_request :: "'b request_envelope"
  sq_authentication :: request_proof

record response_proof =
  pf_signer_principal :: digest
  pf_signer_key_id :: rpc_key_id
  pf_audience_principal :: digest
  pf_audience_key_id :: rpc_key_id
  pf_direction :: rpc_direction
  pf_nonce :: rpc_nonce
  pf_issued_at_unix_ms :: u64
  pf_signed_request_digest :: digest
  pf_request_nonce :: rpc_nonce
  pf_response_body_digest :: digest
  pf_signature :: rpc_signature

record 'b signed_response =
  sp_schema :: string
  sp_response :: "'b response_envelope"
  sp_authentication :: response_proof

definition version_json :: "protocol_version \<Rightarrow> json" where
  "version_json v = JStr (version_str v)"
definition request_id_json :: "request_id \<Rightarrow> json" where
  "request_id_json r = JStr (request_str r)"

definition echo_json :: "request_echo \<Rightarrow> json" where
  "echo_json e = JObj
     [(''protocol_version'', version_json (re_protocol_version e)),
      (''request_id'', request_id_json (re_request_id e)),
      (''request_digest'', digest_json (re_request_digest e))]"

definition request_envelope_json :: "('b \<Rightarrow> json) \<Rightarrow> 'b request_envelope \<Rightarrow> json" where
  "request_envelope_json ser q = JObj [(''echo'', echo_json (rq_echo q)), (''body'', ser (rq_body q))]"

definition signed_challenge_json :: "sign_env \<Rightarrow> signed_challenge \<Rightarrow> json" where
  "signed_challenge_json G c = (let p = sh_authentication c in JObj
     [(''schema'', JStr (sh_schema c)), (''protocol_version'', version_json (sh_protocol_version c)),
      (''authentication'', JObj
        [(''signer_principal'', digest_json (hf_signer_principal p)),
         (''signer_key_id'', key_id_json (hf_signer_key_id p)),
         (''audience_principal'', digest_json (hf_audience_principal p)),
         (''audience_key_id'', key_id_json (hf_audience_key_id p)),
         (''direction'', direction_json (hf_direction p)), (''nonce'', rpc_nonce_json G (hf_nonce p)),
         (''issued_at_unix_ms'', u64_json (hf_issued_at_unix_ms p)),
         (''signature'', signature_json G (hf_signature p))])])"

definition signed_request_json :: "sign_env \<Rightarrow> ('b \<Rightarrow> json) \<Rightarrow> 'b signed_request \<Rightarrow> json" where
  "signed_request_json G ser q = (let p = sq_authentication q in JObj
     [(''schema'', JStr (sq_schema q)), (''request'', request_envelope_json ser (sq_request q)),
      (''authentication'', JObj
        [(''signer_principal'', digest_json (rf_signer_principal p)),
         (''signer_key_id'', key_id_json (rf_signer_key_id p)),
         (''audience_principal'', digest_json (rf_audience_principal p)),
         (''audience_key_id'', key_id_json (rf_audience_key_id p)),
         (''direction'', direction_json (rf_direction p)), (''nonce'', rpc_nonce_json G (rf_nonce p)),
         (''issued_at_unix_ms'', u64_json (rf_issued_at_unix_ms p)),
         (''challenge_digest'', digest_json (rf_challenge_digest p)),
         (''signature'', signature_json G (rf_signature p))])])"

section \<open>Signed statements\<close>

definition challenge_fields :: "string list" where
  "challenge_fields = [''context'', ''protocol_version'', ''signer_principal'', ''signer_key_id'',
     ''audience_principal'', ''audience_key_id'', ''direction'', ''nonce'', ''issued_at_unix_ms'']"

definition challenge_statement :: "sign_env \<Rightarrow> signed_challenge \<Rightarrow> json" where
  "challenge_statement G c = (let p = sh_authentication c in JObj (zip challenge_fields
     [JStr ''ag.local-rpc.challenge-signature.v1'', version_json (sh_protocol_version c),
      digest_json (hf_signer_principal p), key_id_json (hf_signer_key_id p),
      digest_json (hf_audience_principal p), key_id_json (hf_audience_key_id p),
      direction_json (hf_direction p), rpc_nonce_json G (hf_nonce p), u64_json (hf_issued_at_unix_ms p)]))"

definition request_fields :: "string list" where
  "request_fields = [''context'', ''protocol_version'', ''request_id'', ''request_body_digest'',
     ''signer_principal'', ''signer_key_id'', ''audience_principal'', ''audience_key_id'', ''direction'',
     ''nonce'', ''issued_at_unix_ms'', ''challenge_digest'']"

definition request_statement :: "sign_env \<Rightarrow> 'b signed_request \<Rightarrow> json" where
  "request_statement G q = (let p = sq_authentication q; e = rq_echo (sq_request q) in
     JObj (zip request_fields
     [JStr ''ag.local-rpc.request-signature.v1'', version_json (re_protocol_version e),
      request_id_json (re_request_id e), digest_json (re_request_digest e),
      digest_json (rf_signer_principal p), key_id_json (rf_signer_key_id p),
      digest_json (rf_audience_principal p), key_id_json (rf_audience_key_id p),
      direction_json (rf_direction p), rpc_nonce_json G (rf_nonce p), u64_json (rf_issued_at_unix_ms p),
      digest_json (rf_challenge_digest p)]))"

definition response_fields :: "string list" where
  "response_fields = [''context'', ''protocol_version'', ''request_id'', ''request_body_digest'',
     ''response_body_digest'', ''signer_principal'', ''signer_key_id'', ''audience_principal'',
     ''audience_key_id'', ''direction'', ''nonce'', ''issued_at_unix_ms'', ''signed_request_digest'',
     ''request_nonce'']"

definition response_statement :: "sign_env \<Rightarrow> 'b signed_response \<Rightarrow> json" where
  "response_statement G r = (let p = sp_authentication r; e = rs_echo (sp_response r) in
     JObj (zip response_fields
     [JStr ''ag.local-rpc.response-signature.v1'', version_json (re_protocol_version e),
      request_id_json (re_request_id e), digest_json (re_request_digest e),
      digest_json (pf_response_body_digest p), digest_json (pf_signer_principal p),
      key_id_json (pf_signer_key_id p), digest_json (pf_audience_principal p),
      key_id_json (pf_audience_key_id p), direction_json (pf_direction p), rpc_nonce_json G (pf_nonce p),
      u64_json (pf_issued_at_unix_ms p), digest_json (pf_signed_request_digest p),
      rpc_nonce_json G (pf_request_nonce p)]))"

definition signature_message :: "env \<Rightarrow> json \<Rightarrow> rpc_error + bytes" where
  "signature_message E statement =
     res_bind (map_err RpcProtocol (canonical_json E statement)) (\<lambda>b. Ok (rpc_signature_prefix @ b))"

definition challenge_message :: "env \<Rightarrow> sign_env \<Rightarrow> signed_challenge \<Rightarrow> rpc_error + bytes" where
  "challenge_message E G c = signature_message E (challenge_statement G c)"
definition request_message :: "env \<Rightarrow> sign_env \<Rightarrow> 'b signed_request \<Rightarrow> rpc_error + bytes" where
  "request_message E G q = signature_message E (request_statement G q)"
definition response_message :: "env \<Rightarrow> sign_env \<Rightarrow> 'b signed_response \<Rightarrow> rpc_error + bytes" where
  "response_message E G r = signature_message E (response_statement G r)"

definition verify_signature :: "sign_env \<Rightarrow> rpc_public_key \<Rightarrow> bytes \<Rightarrow> rpc_signature \<Rightarrow> rpc_error + unit" where
  "verify_signature G k m s =
     (if sg_verify G (public_key_bytes k) m (signature_bytes s) then Ok () else Err RpcSignatureInvalid)"

section \<open>Signers\<close>

text \<open>
  \<open>kr_sign\<close> is the signing operation of a key pair; its output has the fixed length of an Ed25519
  signature, which \<open>sign\<close> relies on.
\<close>

record key_pair =
  kr_public :: bytes
  kr_sign :: "bytes \<Rightarrow> bytes"

record rpc_signer =
  rg_principal :: digest
  rg_key_id :: rpc_key_id
  rg_public_key :: rpc_public_key
  rg_key_pair :: key_pair

record file_metadata =
  fm_is_file :: bool
  fm_mode :: u32
  fm_nlink :: u64
  fm_uid :: u32
  fm_dev :: u64
  fm_ino :: u64
  fm_size :: u64
  fm_mtime :: int
  fm_mtime_nsec :: int
  fm_ctime :: int
  fm_ctime_nsec :: int

text \<open>What the system calls return for one credential file; \<open>None\<close> is an I/O error.\<close>

record credential_file =
  cr_opens :: bool
  cr_before :: "file_metadata option"
  cr_read :: "bytes option"
  cr_after :: "file_metadata option"

definition validate_credential_metadata :: "u32 \<Rightarrow> file_metadata option \<Rightarrow> rpc_error + file_metadata" where
  "validate_credential_metadata euid f =
     res_bind (ok_or RpcCredentialIo f) (\<lambda>m.
     if \<not> fm_is_file m \<or> and (fm_mode m) 0x3F \<noteq> 0 \<or> fm_nlink m \<noteq> 1 \<or> (fm_uid m \<noteq> 0 \<and> fm_uid m \<noteq> euid)
     then Err RpcInvalidCredentialFile else Ok m)"

definition read_protected_credential :: "u32 \<Rightarrow> string \<Rightarrow> credential_file \<Rightarrow> rpc_error + bytes" where
  "read_protected_credential euid path f =
     (if \<not> path_is_absolute path then Err RpcUnsafeCredentialPath
      else if \<not> cr_opens f then Err RpcCredentialIo
      else res_bind (validate_credential_metadata euid (cr_before f)) (\<lambda>before.
        res_bind (ok_or RpcCredentialIo (map_option (take (max_credential_bytes + 1)) (cr_read f))) (\<lambda>b.
        res_bind (validate_credential_metadata euid (cr_after f)) (\<lambda>after.
        if b = [] \<or> length b > max_credential_bytes \<or> length b \<noteq> unat (fm_size before) \<or>
           fm_dev before \<noteq> fm_dev after \<or> fm_ino before \<noteq> fm_ino after \<or> fm_size before \<noteq> fm_size after \<or>
           fm_mtime before \<noteq> fm_mtime after \<or> fm_mtime_nsec before \<noteq> fm_mtime_nsec after \<or>
           fm_ctime before \<noteq> fm_ctime after \<or> fm_ctime_nsec before \<noteq> fm_ctime_nsec after
        then Err RpcInvalidCredentialFile else Ok b))))"

definition from_pkcs8 :: "(bytes \<Rightarrow> key_pair option) \<Rightarrow> digest \<Rightarrow> rpc_key_id \<Rightarrow> bytes
    \<Rightarrow> rpc_error + rpc_signer" where
  "from_pkcs8 pkcs8 p k b =
     res_bind (ok_or RpcInvalidPrivateKey (pkcs8 b)) (\<lambda>pair.
     if length (kr_public pair) \<noteq> ed25519_public_key_len then Err RpcInvalidPrivateKey
     else Ok \<lparr>rg_principal = p, rg_key_id = k, rg_public_key = RpcPublicKey (kr_public pair), rg_key_pair = pair\<rparr>)"

definition from_systemd_credential :: "(bytes \<Rightarrow> key_pair option) \<Rightarrow> u32 \<Rightarrow> (string \<Rightarrow> credential_file)
    \<Rightarrow> signing_identity_config \<Rightarrow> rpc_error + rpc_signer" where
  "from_systemd_credential pkcs8 euid files c =
     res_bind (signing_identity_validate c) (\<lambda>_.
     res_bind (read_protected_credential euid (sc_private_key_credential c)
       (files (sc_private_key_credential c))) (\<lambda>b.
     res_bind (from_pkcs8 pkcs8 (sc_principal c) (sc_key_id c) b) (\<lambda>s.
     if rg_public_key s \<noteq> sc_public_key c then Err RpcCredentialPublicKeyMismatch else Ok s)))"

definition from_ephemeral_candidate_ingress_reader :: "(bytes \<Rightarrow> key_pair option) \<Rightarrow> digest \<Rightarrow> rpc_key_id
    \<Rightarrow> bytes option \<Rightarrow> rpc_error + rpc_signer" where
  "from_ephemeral_candidate_ingress_reader pkcs8 p k reader =
     res_bind (ok_or RpcCredentialIo (map_option (take (max_credential_bytes + 1)) reader)) (\<lambda>b.
     if b = [] \<or> length b > max_credential_bytes then Err RpcInvalidCredentialFile
     else from_pkcs8 pkcs8 p k b)"

definition signer_enrollment :: "rpc_signer \<Rightarrow> u64 \<Rightarrow> rpc_error + peer_enrollment" where
  "signer_enrollment s skew = enrollment_new (rg_principal s)
     \<lparr>kp_principal = rg_principal s, kp_key_id = rg_key_id s, kp_public_key = rg_public_key s,
      kp_maximum_clock_skew_ms = skew\<rparr>"

definition rpc_sign :: "rpc_signer \<Rightarrow> bytes \<Rightarrow> rpc_signature" where
  "rpc_sign s m = RpcSignature (kr_sign (rg_key_pair s) m)"

definition unsigned :: rpc_signature where
  "unsigned = RpcSignature (replicate ed25519_signature_len (CHR 0x00))"

definition challenge_schema :: string where "challenge_schema = ''ag.local-rpc.server-challenge.v1''"
definition request_schema :: string where "request_schema = ''ag.local-rpc.signed-request.v1''"
definition response_schema :: string where "response_schema = ''ag.local-rpc.signed-response.v1''"

definition issue_challenge :: "env \<Rightarrow> sign_env \<Rightarrow> rpc_signer \<Rightarrow> rpc_nonce option \<Rightarrow> peer_enrollment \<Rightarrow> u64
    \<Rightarrow> rpc_error + signed_challenge" where
  "issue_challenge E G s random audience issued_at =
     res_bind (key_policy_validate (pe_key audience)) (\<lambda>_.
     res_bind (ok_or RpcRandomness random) (\<lambda>nonce.
     let c = \<lparr>sh_schema = challenge_schema, sh_protocol_version = version_current,
         sh_authentication = \<lparr>hf_signer_principal = rg_principal s, hf_signer_key_id = rg_key_id s,
           hf_audience_principal = pe_principal audience, hf_audience_key_id = kp_key_id (pe_key audience),
           hf_direction = ServerChallenge, hf_nonce = nonce, hf_issued_at_unix_ms = issued_at,
           hf_signature = unsigned\<rparr>\<rparr> in
     res_bind (challenge_message E G c) (\<lambda>m.
     Ok (c\<lparr>sh_authentication := (sh_authentication c)\<lparr>hf_signature := rpc_sign s m\<rparr>\<rparr>))))"

definition challenge_digest_of :: "env \<Rightarrow> sign_env \<Rightarrow> signed_challenge \<Rightarrow> rpc_error + digest" where
  "challenge_digest_of E G c =
     map_err RpcProtocol (canonical_json_digest E ''ag-local-rpc-server-challenge-v1'' (signed_challenge_json G c))"

definition sign_request :: "env \<Rightarrow> sign_env \<Rightarrow> ('b \<Rightarrow> json) \<Rightarrow> rpc_signer \<Rightarrow> rpc_nonce option
    \<Rightarrow> 'b request_envelope \<Rightarrow> signed_challenge \<Rightarrow> u64 \<Rightarrow> rpc_error + 'b signed_request" where
  "sign_request E G ser s random request challenge issued_at =
     res_bind (map_err RpcProtocol (request_envelope_validate E ser request)) (\<lambda>_.
     if hf_audience_principal (sh_authentication challenge) \<noteq> rg_principal s \<or>
        hf_audience_key_id (sh_authentication challenge) \<noteq> rg_key_id s then Err RpcAudienceMismatch
     else
     res_bind (ok_or RpcRandomness random) (\<lambda>nonce.
     res_bind (challenge_digest_of E G challenge) (\<lambda>d.
     let q = \<lparr>sq_schema = request_schema, sq_request = request,
         sq_authentication = \<lparr>rf_signer_principal = rg_principal s, rf_signer_key_id = rg_key_id s,
           rf_audience_principal = hf_signer_principal (sh_authentication challenge),
           rf_audience_key_id = hf_signer_key_id (sh_authentication challenge),
           rf_direction = RequestDirection, rf_nonce = nonce, rf_issued_at_unix_ms = issued_at,
           rf_challenge_digest = d, rf_signature = unsigned\<rparr>\<rparr> in
     res_bind (request_message E G q) (\<lambda>m.
     Ok (q\<lparr>sq_authentication := (sq_authentication q)\<lparr>rf_signature := rpc_sign s m\<rparr>\<rparr>)))))"

definition signed_request_digest_of :: "env \<Rightarrow> sign_env \<Rightarrow> ('b \<Rightarrow> json) \<Rightarrow> 'b signed_request
    \<Rightarrow> rpc_error + digest" where
  "signed_request_digest_of E G ser q =
     map_err RpcProtocol (canonical_json_digest E ''ag-local-rpc-signed-request-v1'' (signed_request_json G ser q))"

definition response_body_digest_of :: "env \<Rightarrow> json \<Rightarrow> rpc_error + digest" where
  "response_body_digest_of E body =
     map_err RpcProtocol (canonical_json_digest E ''ag-local-rpc-response-body-v1'' body)"

definition sign_response :: "env \<Rightarrow> sign_env \<Rightarrow> ('b \<Rightarrow> json) \<Rightarrow> ('c \<Rightarrow> json) \<Rightarrow> rpc_signer \<Rightarrow> rpc_nonce option
    \<Rightarrow> 'b signed_request \<Rightarrow> 'c \<Rightarrow> u64 \<Rightarrow> rpc_error + 'c signed_response" where
  "sign_response E G ser ser' s random request body issued_at =
     res_bind (map_err RpcProtocol (request_envelope_validate E ser (sq_request request))) (\<lambda>_.
     let response = response_for_request (sq_request request) body in
     res_bind (response_body_digest_of E (ser' (rs_body response))) (\<lambda>bd.
     res_bind (ok_or RpcRandomness random) (\<lambda>nonce.
     res_bind (signed_request_digest_of E G ser request) (\<lambda>d.
     let r = \<lparr>sp_schema = response_schema, sp_response = response,
         sp_authentication = \<lparr>pf_signer_principal = rg_principal s, pf_signer_key_id = rg_key_id s,
           pf_audience_principal = rf_signer_principal (sq_authentication request),
           pf_audience_key_id = rf_signer_key_id (sq_authentication request),
           pf_direction = ResponseDirection, pf_nonce = nonce, pf_issued_at_unix_ms = issued_at,
           pf_signed_request_digest = d, pf_request_nonce = rf_nonce (sq_authentication request),
           pf_response_body_digest = bd, pf_signature = unsigned\<rparr>\<rparr> in
     res_bind (response_message E G r) (\<lambda>m.
     Ok (r\<lparr>sp_authentication := (sp_authentication r)\<lparr>pf_signature := rpc_sign s m\<rparr>\<rparr>))))))"

section \<open>The replay guard\<close>

record replay_key =
  ry_signer :: digest
  ry_key_id :: rpc_key_id
  ry_direction :: rpc_direction
  ry_nonce :: rpc_nonce

record replay_observation =
  ro_key :: replay_key
  ro_issued_at_unix_ms :: u64
  ro_maximum_clock_skew_ms :: u64

record replay_guard =
  gd_capacity :: nat
  gd_entries :: "(replay_key \<times> u64) list"

definition guard_new :: "nat \<Rightarrow> rpc_error + replay_guard" where
  "guard_new capacity =
     (if capacity = 0 then Err RpcInvalidReplayCapacity
      else Ok \<lparr>gd_capacity = capacity, gd_entries = []\<rparr>)"

definition saturating_add :: "u64 \<Rightarrow> u64 \<Rightarrow> u64" where
  "saturating_add a b = (case checked_add_u64 a b of Some c \<Rightarrow> c | None \<Rightarrow> - 1)"

definition validate_time :: "u64 \<Rightarrow> u64 \<Rightarrow> u64 \<Rightarrow> rpc_error + unit" where
  "validate_time issued now skew =
     (if skew = 0 \<or> issued > saturating_add now skew \<or> saturating_add issued skew < now
      then Err RpcTimestampOutsideWindow else Ok ())"

definition expires_at :: "replay_observation \<Rightarrow> u64" where
  "expires_at o' = saturating_add (ro_issued_at_unix_ms o') (ro_maximum_clock_skew_ms o')"

text \<open>
  The map's \<open>retain\<close> keeps the unexpired entries, \<open>extend\<close> adds the candidates.  Both lengths fit in
  \<open>usize\<close>; their sum saturates.
\<close>

definition check_and_record_all :: "replay_guard \<Rightarrow> replay_observation list \<Rightarrow> u64
    \<Rightarrow> (rpc_error + unit) \<times> replay_guard" where
  "check_and_record_all g obs now =
     (case try_for_each (\<lambda>x. validate_time (ro_issued_at_unix_ms x) now (ro_maximum_clock_skew_ms x)) obs of
        Inl e \<Rightarrow> (Err e, g)
      | Inr _ \<Rightarrow>
        let entries = filter (\<lambda>(_, expires). expires \<ge> now) (gd_entries g);
            candidates = map (\<lambda>x. (ro_key x, expires_at x)) obs;
            g' = g\<lparr>gd_entries := entries\<rparr> in
        if list_ex (\<lambda>(k, _). k \<in> fst ` set entries) candidates \<or>
           list_ex (\<lambda>i. fst (candidates ! i) \<in> fst ` set (take i candidates)) [0..<length candidates]
        then (Err RpcReplay, g')
        else if min (2 ^ 64 - 1) (length entries + length candidates) > gd_capacity g
        then (Err RpcReplayCapacityExhausted, g')
        else (Ok (), g\<lparr>gd_entries := fold (\<lambda>(k, v). AList.update k v) candidates entries\<rparr>))"

definition check_and_record :: "replay_guard \<Rightarrow> replay_observation \<Rightarrow> u64
    \<Rightarrow> (rpc_error + unit) \<times> replay_guard" where
  "check_and_record g x now = check_and_record_all g [x] now"

section \<open>Verification\<close>

definition require_direction :: "rpc_direction \<Rightarrow> rpc_direction \<Rightarrow> rpc_error + unit" where
  "require_direction actual expected = (if actual \<noteq> expected then Err RpcWrongDirection else Ok ())"

definition require_signer :: "digest \<Rightarrow> rpc_key_id \<Rightarrow> peer_enrollment \<Rightarrow> rpc_error + unit" where
  "require_signer p k expected =
     (if p \<noteq> pe_principal expected \<or> k \<noteq> kp_key_id (pe_key expected) then Err RpcSignerMismatch else Ok ())"

definition challenge_observation :: "signed_challenge \<Rightarrow> peer_enrollment \<Rightarrow> replay_observation" where
  "challenge_observation c server = (let p = sh_authentication c in
     \<lparr>ro_key = \<lparr>ry_signer = hf_signer_principal p, ry_key_id = hf_signer_key_id p,
        ry_direction = hf_direction p, ry_nonce = hf_nonce p\<rparr>,
      ro_issued_at_unix_ms = hf_issued_at_unix_ms p,
      ro_maximum_clock_skew_ms = kp_maximum_clock_skew_ms (pe_key server)\<rparr>)"

definition request_observation :: "'b signed_request \<Rightarrow> peer_enrollment \<Rightarrow> replay_observation" where
  "request_observation q caller = (let p = sq_authentication q in
     \<lparr>ro_key = \<lparr>ry_signer = rf_signer_principal p, ry_key_id = rf_signer_key_id p,
        ry_direction = rf_direction p, ry_nonce = rf_nonce p\<rparr>,
      ro_issued_at_unix_ms = rf_issued_at_unix_ms p,
      ro_maximum_clock_skew_ms = kp_maximum_clock_skew_ms (pe_key caller)\<rparr>)"

definition response_observation :: "'b signed_response \<Rightarrow> peer_enrollment \<Rightarrow> replay_observation" where
  "response_observation r server = (let p = sp_authentication r in
     \<lparr>ro_key = \<lparr>ry_signer = pf_signer_principal p, ry_key_id = pf_signer_key_id p,
        ry_direction = pf_direction p, ry_nonce = pf_nonce p\<rparr>,
      ro_issued_at_unix_ms = pf_issued_at_unix_ms p,
      ro_maximum_clock_skew_ms = kp_maximum_clock_skew_ms (pe_key server)\<rparr>)"

text \<open>Every verifier runs its checks first and touches the guard last.\<close>

definition then_record :: "rpc_error + 'a \<Rightarrow> replay_observation list \<Rightarrow> replay_guard \<Rightarrow> u64
    \<Rightarrow> (rpc_error + 'a) \<times> replay_guard" where
  "then_record checks obs g now =
     (case checks of
        Inl e \<Rightarrow> (Err e, g)
      | Inr x \<Rightarrow> (case check_and_record_all g obs now of (r, g') \<Rightarrow> (res_bind r (\<lambda>_. Ok x), g')))"

definition server_challenge_checks :: "env \<Rightarrow> sign_env \<Rightarrow> signed_challenge \<Rightarrow> peer_enrollment \<Rightarrow> rpc_signer
    \<Rightarrow> rpc_error + unit" where
  "server_challenge_checks E G c server local =
     res_bind (key_policy_validate (pe_key server)) (\<lambda>_.
     if sh_schema c \<noteq> challenge_schema then Err RpcSchema
     else if sh_protocol_version c \<noteq> version_current then Err RpcProtocolVersion
     else let p = sh_authentication c in
     res_bind (require_direction (hf_direction p) ServerChallenge) (\<lambda>_.
     res_bind (require_signer (hf_signer_principal p) (hf_signer_key_id p) server) (\<lambda>_.
     if hf_audience_principal p \<noteq> rg_principal local \<or> hf_audience_key_id p \<noteq> rg_key_id local
     then Err RpcAudienceMismatch
     else res_bind (challenge_message E G c) (\<lambda>m.
       verify_signature G (kp_public_key (pe_key server)) m (hf_signature p)))))"

definition verify_server_challenge :: "env \<Rightarrow> sign_env \<Rightarrow> signed_challenge \<Rightarrow> peer_enrollment \<Rightarrow> rpc_signer
    \<Rightarrow> replay_guard \<Rightarrow> u64 \<Rightarrow> (rpc_error + unit) \<times> replay_guard" where
  "verify_server_challenge E G c server local g now =
     then_record (server_challenge_checks E G c server local) [challenge_observation c server] g now"

definition signed_request_checks :: "env \<Rightarrow> sign_env \<Rightarrow> ('b \<Rightarrow> json) \<Rightarrow> 'b signed_request \<Rightarrow> signed_challenge
    \<Rightarrow> peer_enrollment \<Rightarrow> rpc_signer \<Rightarrow> rpc_error + unit" where
  "signed_request_checks E G ser q c caller local =
     res_bind (key_policy_validate (pe_key caller)) (\<lambda>_.
     if sq_schema q \<noteq> request_schema then Err RpcSchema
     else res_bind (map_err RpcProtocol (request_envelope_validate E ser (sq_request q))) (\<lambda>_.
     let p = sq_authentication q in
     res_bind (require_direction (rf_direction p) RequestDirection) (\<lambda>_.
     res_bind (require_signer (rf_signer_principal p) (rf_signer_key_id p) caller) (\<lambda>_.
     if rf_audience_principal p \<noteq> rg_principal local \<or> rf_audience_key_id p \<noteq> rg_key_id local
     then Err RpcAudienceMismatch
     else res_bind (challenge_digest_of E G c) (\<lambda>d.
     if rf_challenge_digest p \<noteq> d then Err RpcChallengeMismatch
     else res_bind (request_message E G q) (\<lambda>m.
       verify_signature G (kp_public_key (pe_key caller)) m (rf_signature p)))))))"

definition verify_signed_request :: "env \<Rightarrow> sign_env \<Rightarrow> ('b \<Rightarrow> json) \<Rightarrow> 'b signed_request \<Rightarrow> signed_challenge
    \<Rightarrow> peer_enrollment \<Rightarrow> rpc_signer \<Rightarrow> replay_guard \<Rightarrow> u64 \<Rightarrow> (rpc_error + unit) \<times> replay_guard" where
  "verify_signed_request E G ser q c caller local g now =
     then_record (signed_request_checks E G ser q c caller local) [request_observation q caller] g now"

definition verify_forwarded_bindings :: "env \<Rightarrow> sign_env \<Rightarrow> ('b \<Rightarrow> json) \<Rightarrow> signed_challenge \<Rightarrow> 'b signed_request
    \<Rightarrow> peer_enrollment \<Rightarrow> peer_enrollment \<Rightarrow> rpc_error + verified_principal" where
  "verify_forwarded_bindings E G ser c q governor proposer =
     res_bind (key_policy_validate (pe_key governor)) (\<lambda>_.
     res_bind (key_policy_validate (pe_key proposer)) (\<lambda>_.
     if sh_schema c \<noteq> challenge_schema \<or> sq_schema q \<noteq> request_schema then Err RpcSchema
     else if sh_protocol_version c \<noteq> version_current then Err RpcProtocolVersion
     else res_bind (map_err RpcProtocol (request_envelope_validate E ser (sq_request q))) (\<lambda>_.
     let cp = sh_authentication c; rp = sq_authentication q in
     res_bind (require_direction (hf_direction cp) ServerChallenge) (\<lambda>_.
     res_bind (require_signer (hf_signer_principal cp) (hf_signer_key_id cp) governor) (\<lambda>_.
     if hf_audience_principal cp \<noteq> pe_principal proposer \<or> hf_audience_key_id cp \<noteq> kp_key_id (pe_key proposer)
     then Err RpcAudienceMismatch
     else res_bind (challenge_message E G c) (\<lambda>cm.
     res_bind (verify_signature G (kp_public_key (pe_key governor)) cm (hf_signature cp)) (\<lambda>_.
     res_bind (require_direction (rf_direction rp) RequestDirection) (\<lambda>_.
     res_bind (require_signer (rf_signer_principal rp) (rf_signer_key_id rp) proposer) (\<lambda>_.
     if rf_audience_principal rp \<noteq> pe_principal governor \<or> rf_audience_key_id rp \<noteq> kp_key_id (pe_key governor)
     then Err RpcAudienceMismatch
     else res_bind (challenge_digest_of E G c) (\<lambda>d.
     if rf_challenge_digest rp \<noteq> d then Err RpcChallengeMismatch
     else res_bind (request_message E G q) (\<lambda>rm.
     res_bind (verify_signature G (kp_public_key (pe_key proposer)) rm (rf_signature rp)) (\<lambda>_.
     Ok \<lparr>vp_principal = pe_principal proposer, vp_key_id = kp_key_id (pe_key proposer)\<rparr>))))))))))))"

definition record_forwarded_freshness :: "signed_challenge \<Rightarrow> 'b signed_request \<Rightarrow> peer_enrollment
    \<Rightarrow> peer_enrollment \<Rightarrow> replay_guard \<Rightarrow> u64 \<Rightarrow> (rpc_error + unit) \<times> replay_guard" where
  "record_forwarded_freshness c q governor proposer g now =
     check_and_record_all g [challenge_observation c governor, request_observation q proposer] now"

definition verify_forwarded_signed_request :: "env \<Rightarrow> sign_env \<Rightarrow> ('b \<Rightarrow> json) \<Rightarrow> signed_challenge
    \<Rightarrow> 'b signed_request \<Rightarrow> peer_enrollment \<Rightarrow> peer_enrollment \<Rightarrow> replay_guard \<Rightarrow> u64
    \<Rightarrow> (rpc_error + verified_principal) \<times> replay_guard" where
  "verify_forwarded_signed_request E G ser c q governor proposer g now =
     (case verify_forwarded_bindings E G ser c q governor proposer of
        Inl e \<Rightarrow> (Err e, g)
      | Inr verified \<Rightarrow>
        (case record_forwarded_freshness c q governor proposer g now of
           (r, g') \<Rightarrow> (res_bind r (\<lambda>_. Ok verified), g')))"

definition signed_response_checks :: "env \<Rightarrow> sign_env \<Rightarrow> ('b \<Rightarrow> json) \<Rightarrow> ('c \<Rightarrow> json) \<Rightarrow> 'c signed_response
    \<Rightarrow> 'b signed_request \<Rightarrow> peer_enrollment \<Rightarrow> rpc_signer \<Rightarrow> rpc_error + unit" where
  "signed_response_checks E G ser ser' r q server local =
     res_bind (key_policy_validate (pe_key server)) (\<lambda>_.
     if sp_schema r \<noteq> response_schema then Err RpcSchema
     else res_bind (map_err RpcProtocol (validate_echo (sp_response r) (sq_request q))) (\<lambda>_.
     let p = sp_authentication r in
     res_bind (require_direction (pf_direction p) ResponseDirection) (\<lambda>_.
     res_bind (require_signer (pf_signer_principal p) (pf_signer_key_id p) server) (\<lambda>_.
     if pf_audience_principal p \<noteq> rg_principal local \<or> pf_audience_key_id p \<noteq> rg_key_id local
     then Err RpcAudienceMismatch
     else res_bind (signed_request_digest_of E G ser q) (\<lambda>d.
     if pf_signed_request_digest p \<noteq> d \<or> pf_request_nonce p \<noteq> rf_nonce (sq_authentication q)
     then Err RpcRequestBindingMismatch
     else res_bind (response_body_digest_of E (ser' (rs_body (sp_response r)))) (\<lambda>bd.
     if pf_response_body_digest p \<noteq> bd then Err RpcResponseBodyDigestMismatch
     else res_bind (response_message E G r) (\<lambda>m.
       verify_signature G (kp_public_key (pe_key server)) m (pf_signature p))))))))"

definition verify_signed_response :: "env \<Rightarrow> sign_env \<Rightarrow> ('b \<Rightarrow> json) \<Rightarrow> ('c \<Rightarrow> json) \<Rightarrow> 'c signed_response
    \<Rightarrow> 'b signed_request \<Rightarrow> peer_enrollment \<Rightarrow> rpc_signer \<Rightarrow> replay_guard \<Rightarrow> u64
    \<Rightarrow> (rpc_error + unit) \<times> replay_guard" where
  "verify_signed_response E G ser ser' r q server local g now =
     then_record (signed_response_checks E G ser ser' r q server local) [response_observation r server] g now"


section \<open>Timed ledgers\<close>

text \<open>The keys of the calls that succeed, when calls are made at the given times.\<close>

fun granted_at :: "('l \<Rightarrow> 'req \<Rightarrow> 't \<Rightarrow> ('err + 'r) \<times> 'l) \<Rightarrow> ('req \<Rightarrow> 'k list) \<Rightarrow> 'l
    \<Rightarrow> ('req \<times> 't) list \<Rightarrow> 'k list" where
  "granted_at consume keys l [] = []"
| "granted_at consume keys l ((q, t) # qs) =
     (case consume l q t of (x, l') \<Rightarrow> (if is_ok x then keys q else []) @ granted_at consume keys l' qs)"

text \<open>
  The contract of a guard that forgets: a grant at time \<open>t\<close> finds its keys unspent and marks them, and
  what is spent stays spent at every later time, whether it is still remembered or has expired.
\<close>

locale timed_ledger =
  fixes consume :: "'l \<Rightarrow> 'req \<Rightarrow> 't :: linorder \<Rightarrow> ('err + 'r) \<times> 'l"
    and keys :: "'req \<Rightarrow> 'k list"
    and spent :: "'l \<Rightarrow> 't \<Rightarrow> 'k set"
  assumes grant_fresh: "consume l q t = (Inr r, l') \<Longrightarrow> t0 \<le> t \<Longrightarrow>
      distinct (keys q) \<and> set (keys q) \<inter> spent l t0 = {} \<and> set (keys q) \<subseteq> spent l' t"
    and spent_mono: "consume l q t = (x, l') \<Longrightarrow> t0 \<le> t \<Longrightarrow> spent l t0 \<subseteq> spent l' t"
begin

lemma granted_at_fresh:
  "sorted (map snd qs) \<Longrightarrow> \<forall>t \<in> snd ` set qs. t0 \<le> t \<Longrightarrow>
     distinct (granted_at consume keys l qs) \<and> set (granted_at consume keys l qs) \<inter> spent l t0 = {}"
proof (induction qs arbitrary: l t0)
  case (Cons p qs)
  obtain q t where p: "p = (q, t)" by fastforce
  obtain x l' where c: "consume l q t = (x, l')" by fastforce
  have t: "t0 \<le> t" using Cons.prems p by simp
  have IH: "distinct (granted_at consume keys l' qs)" "set (granted_at consume keys l' qs) \<inter> spent l' t = {}"
    using Cons.IH [of t l'] Cons.prems p by auto
  have mono: "spent l t0 \<subseteq> spent l' t" by (rule spent_mono [OF c t])
  show ?case
  proof (cases "is_ok x")
    case True
    then have "distinct (keys q) \<and> set (keys q) \<inter> spent l t0 = {} \<and> set (keys q) \<subseteq> spent l' t"
      using grant_fresh [OF _ t] c by (metis is_ok_iff)
    with IH mono True show ?thesis by (auto simp: p c)
  next
    case False
    with IH mono show ?thesis by (auto simp: p c)
  qed
qed simp

end

text \<open>A client that checks first and then consults the ledger, if at all, is a ledger itself.\<close>

locale timed_client = timed_ledger consume keys spent
  for consume :: "'l \<Rightarrow> 'req \<Rightarrow> 't :: linorder \<Rightarrow> ('err + 'r) \<times> 'l" and keys :: "'req \<Rightarrow> 'k list" and spent +
  fixes call :: "'l \<Rightarrow> 'call \<Rightarrow> 't \<Rightarrow> ('e + 'a) \<times> 'l"
    and request_of :: "'call \<Rightarrow> 'req"
  assumes call_consumes: "call l c t = (x, l') \<Longrightarrow>
      (\<not> is_ok x \<and> l' = l) \<or> (\<exists>y. consume l (request_of c) t = (y, l') \<and> is_ok x = is_ok y)"
    and idle_spent: "t0 \<le> t \<Longrightarrow> spent l t0 \<subseteq> spent l t"
begin

sublocale client: timed_ledger call "\<lambda>c. keys (request_of c)" spent
proof unfold_locales
  fix l c t r l' t0 assume "call l c t = (Inr r, l')" and t: "t0 \<le> t"
  then obtain y where "consume l (request_of c) t = (Inr y, l')"
    using call_consumes [of l c t "Inr r" l'] by (auto simp: is_ok_iff)
  then show "distinct (keys (request_of c)) \<and> set (keys (request_of c)) \<inter> spent l t0 = {} \<and>
      set (keys (request_of c)) \<subseteq> spent l' t"
    by (rule grant_fresh [OF _ t])
next
  fix l c t x l' t0 assume "call l c t = (x, l')" and t: "t0 \<le> t"
  then show "spent l t0 \<subseteq> spent l' t"
    using call_consumes [of l c t x l'] spent_mono [OF _ t] idle_spent [OF t] by blast
qed

end

lemma unat_saturating_add: "unat (saturating_add a b) = min (2 ^ 64 - 1) (unat a + unat b)"
proof (cases "checked_add_u64 a b")
  case None
  then have "2 ^ 64 \<le> unat a + unat b" by (simp add: checked_add_u64_None_iff)
  with None show ?thesis by (simp add: saturating_add_def unsigned_minus_1_eq_mask mask_eq_exp_minus_1)
next
  case (Some c)
  moreover have "unat a + unat b < 2 ^ 64 \<and> unat c = unat a + unat b"
    using Some by (simp add: checked_add_u64_Some_iff)
  ultimately show ?thesis by (simp add: saturating_add_def)
qed

lemma update_fresh: "k \<notin> fst ` set es \<Longrightarrow> AList.update k v es = es @ [(k, v)]"
  by (induction es) auto

lemma update_fold_fresh:
  "distinct (map fst cs) \<Longrightarrow> fst ` set cs \<inter> fst ` set es = {} \<Longrightarrow>
     fold (\<lambda>(k, v). AList.update k v) cs es = es @ cs"
proof (induction cs arbitrary: es)
  case (Cons c cs)
  obtain k v where c: "c = (k, v)" by fastforce
  have "fold (\<lambda>(k, v). AList.update k v) cs (es @ [(k, v)]) = (es @ [(k, v)]) @ cs"
    using Cons.prems by (intro Cons.IH) (auto simp: c)
  with Cons.prems show ?case by (simp add: c update_fresh)
qed simp

lemma distinct_by_prefix:
  "\<not> list_ex (\<lambda>i. f (xs ! i) \<in> f ` set (take i xs)) [0..<length xs] \<longleftrightarrow> distinct (map f xs)"
proof -
  have "distinct (map f xs) \<longleftrightarrow> (\<forall>i < length xs. \<forall>j < i. f (xs ! j) \<noteq> f (xs ! i))"
    unfolding distinct_conv_nth by (auto simp: nat_neq_iff) (metis less_trans)+
  moreover have "f (xs ! i) \<in> f ` set (take i xs) \<longleftrightarrow> (\<exists>j < i. f (xs ! j) = f (xs ! i))" if "i < length xs" for i
    using that by (auto simp: nth_image [symmetric] image_iff Bex_def intro: sym)
  ultimately show ?thesis by (auto simp: list_ex_iff)
qed

section \<open>The replay guard\<close>

lemma check_and_record_all_unfold:
  "check_and_record_all g obs now =
     (case try_for_each (\<lambda>x. validate_time (ro_issued_at_unix_ms x) now (ro_maximum_clock_skew_ms x)) obs of
        Inl e \<Rightarrow> (Inl e, g)
      | Inr _ \<Rightarrow>
        let entries = filter (\<lambda>(_, expires). now \<le> expires) (gd_entries g) in
        if (\<exists>x \<in> set obs. ro_key x \<in> fst ` set entries) \<or> \<not> distinct (map ro_key obs)
        then (Inl RpcReplay, g\<lparr>gd_entries := entries\<rparr>)
        else if min (2 ^ 64 - 1) (length entries + length obs) > gd_capacity g
        then (Inl RpcReplayCapacityExhausted, g\<lparr>gd_entries := entries\<rparr>)
        else (Inr (), g\<lparr>gd_entries := entries @ map (\<lambda>x. (ro_key x, expires_at x)) obs\<rparr>))"
proof -
  let ?cs = "map (\<lambda>x. (ro_key x, expires_at x)) obs"
  let ?es = "filter (\<lambda>(_, expires). now \<le> expires) (gd_entries g)"
  have d: "list_ex (\<lambda>i. fst (?cs ! i) \<in> fst ` set (take i ?cs)) [0..<length ?cs] \<longleftrightarrow> \<not> distinct (map ro_key obs)"
    using distinct_by_prefix [of fst ?cs] by (subst (asm) eq_commute) (simp add: comp_def)
  have k: "list_ex (\<lambda>(k, _). k \<in> fst ` set ?es) ?cs \<longleftrightarrow> (\<exists>x \<in> set obs. ro_key x \<in> fst ` set ?es)"
    by (auto simp: list_ex_iff)
  have f: "fold (\<lambda>(k, v). AList.update k v) ?cs ?es = ?es @ ?cs"
    if "\<not> (\<exists>x \<in> set obs. ro_key x \<in> fst ` set ?es)" "distinct (map ro_key obs)"
    by (rule update_fold_fresh) (use that in \<open>auto simp: comp_def image_iff\<close>)
  show ?thesis
  proof (cases "(\<exists>x \<in> set obs. ro_key x \<in> fst ` set ?es) \<or> \<not> distinct (map ro_key obs)")
    case True
    show ?thesis unfolding check_and_record_all_def Let_def d k using True by (simp only: if_True)
  next
    case False
    then have "fold (\<lambda>(k, v). AList.update k v) ?cs ?es = ?es @ ?cs" by (intro f) blast+
    then show ?thesis
      unfolding check_and_record_all_def Let_def d k using False by (simp only: if_False length_map)
  qed
qed

lemma check_and_record_all_Ok_iff:
  "check_and_record_all g obs now = (Inr u, g') \<longleftrightarrow>
     (\<forall>x \<in> set obs. validate_time (ro_issued_at_unix_ms x) now (ro_maximum_clock_skew_ms x) = Inr ()) \<and>
     (\<forall>x \<in> set obs. ro_key x \<notin> fst ` set (filter (\<lambda>(_, expires). now \<le> expires) (gd_entries g))) \<and>
     distinct (map ro_key obs) \<and>
     min (2 ^ 64 - 1) (length (filter (\<lambda>(_, expires). now \<le> expires) (gd_entries g)) + length obs) \<le> gd_capacity g \<and>
     g' = g\<lparr>gd_entries := filter (\<lambda>(_, expires). now \<le> expires) (gd_entries g) @
       map (\<lambda>x. (ro_key x, expires_at x)) obs\<rparr>"
proof -
  let ?es = "filter (\<lambda>(_, expires). now \<le> expires) (gd_entries g)"
  let ?t = "try_for_each (\<lambda>x. validate_time (ro_issued_at_unix_ms x) now (ro_maximum_clock_skew_ms x)) obs"
  have t: "(\<forall>x \<in> set obs. validate_time (ro_issued_at_unix_ms x) now (ro_maximum_clock_skew_ms x) = Inr ()) \<longleftrightarrow>
      ?t = Inr ()"
    by (simp add: try_for_each_Inr_iff)
  show ?thesis
    unfolding check_and_record_all_unfold Let_def t
    by (cases ?t; cases "(\<exists>x \<in> set obs. ro_key x \<in> fst ` set ?es) \<or> \<not> distinct (map ro_key obs)";
        cases "gd_capacity g < min (2 ^ 64 - 1) (length ?es + length obs)")
      (simp_all only: sum.case if_True if_False prod.inject sum.simps simp_thms, auto simp: not_less)
qed

lemma check_and_record_all_refused:
  "check_and_record_all g obs now = (Inl e, g') \<Longrightarrow>
     g' = g \<or> g' = g\<lparr>gd_entries := filter (\<lambda>(_, expires). now \<le> expires) (gd_entries g)\<rparr>"
  unfolding check_and_record_all_unfold Let_def by (auto split: sum.splits if_splits)

lemma validate_time_iff:
  "validate_time issued now skew = Inr () \<longleftrightarrow>
     skew \<noteq> 0 \<and> issued \<le> saturating_add now skew \<and> now \<le> saturating_add issued skew"
  by (auto simp: validate_time_def)

text \<open>
  An observation is spent at time \<open>t\<close> once it has expired, or while its key is remembered for at least
  as long as the observation itself lives.
\<close>

definition observation_spent :: "replay_guard \<Rightarrow> u64 \<Rightarrow> replay_observation set" where
  "observation_spent g t =
     {x. expires_at x < t \<or> (\<exists>v. (ro_key x, v) \<in> set (gd_entries g) \<and> expires_at x \<le> v)}"

text \<open>The guard of the source is a map and never holds more than its capacity.\<close>

definition guard_ok :: "replay_guard \<Rightarrow> bool" where
  "guard_ok g \<longleftrightarrow> distinct (map fst (gd_entries g)) \<and> length (gd_entries g) \<le> gd_capacity g"

lemma retained_spent:
  "t0 \<le> t \<Longrightarrow> observation_spent g t0 \<subseteq>
     observation_spent (g\<lparr>gd_entries := filter (\<lambda>(_, expires). t \<le> expires) (gd_entries g)\<rparr>) t"
  by (fastforce simp: observation_spent_def)

lemma idle_observation_spent: "t0 \<le> t \<Longrightarrow> observation_spent g t0 \<subseteq> observation_spent g t"
  by (auto simp: observation_spent_def)

lemma check_and_record_all_entries:
  "check_and_record_all g obs now = (Inr u, g') \<Longrightarrow>
    gd_entries g' = filter (\<lambda>(_, expires). now \<le> expires) (gd_entries g) @
      map (\<lambda>x. (ro_key x, expires_at x)) obs"
  unfolding check_and_record_all_Ok_iff by simp

interpretation guard: timed_ledger check_and_record_all id observation_spent
proof unfold_locales
  fix g obs now u g' t0
  assume ok: "check_and_record_all g obs now = (Inr u, g')" and t: "t0 \<le> now"
  note entries = check_and_record_all_entries [OF ok]
  from ok have time: "\<forall>x \<in> set obs. now \<le> expires_at x"
    and new: "\<forall>x \<in> set obs. ro_key x \<notin> fst ` set (filter (\<lambda>(_, expires). now \<le> expires) (gd_entries g))"
    and dist: "distinct (map ro_key obs)"
    by (auto simp: check_and_record_all_Ok_iff validate_time_iff expires_at_def)
  have "x \<notin> observation_spent g t0" if "x \<in> set obs" for x
    using time new t that by (force simp: observation_spent_def)
  moreover have "set obs \<subseteq> observation_spent g' now"
    by (auto simp: observation_spent_def entries)
  ultimately show "distinct (id obs) \<and> set (id obs) \<inter> observation_spent g t0 = {} \<and>
      set (id obs) \<subseteq> observation_spent g' now"
    using dist by (auto simp: distinct_map)
next
  fix g obs now x g' and t0 :: u64
  assume c: "check_and_record_all g obs now = (x, g')" and t: "t0 \<le> now"
  show "observation_spent g t0 \<subseteq> observation_spent g' now"
  proof (cases x)
    case (Inl e)
    then show ?thesis
      using check_and_record_all_refused [of g obs now e g'] c retained_spent [OF t, of g]
        idle_observation_spent [OF t, of g] by auto
  next
    case (Inr u)
    have "observation_spent (g\<lparr>gd_entries := filter (\<lambda>(_, expires). now \<le> expires) (gd_entries g)\<rparr>) now
        \<subseteq> observation_spent g' now"
      using check_and_record_all_entries [of g obs now u g'] c Inr by (auto simp: observation_spent_def)
    then show ?thesis using retained_spent [OF t, of g] by blast
  qed
qed

lemma then_record_consumes:
  "then_record checks obs g now = (x, g') \<Longrightarrow>
     (\<not> is_ok x \<and> g' = g) \<or> (\<exists>y. check_and_record_all g obs now = (y, g') \<and> is_ok x = is_ok y)"
  by (auto simp: then_record_def res_bind_def is_ok_def split: sum.splits prod.splits)

lemma guard_ok_preserved:
  assumes "guard_ok g" and "check_and_record_all g obs now = (x, g')" and "gd_capacity g < 2 ^ 64 - 1"
  shows "guard_ok g' \<and> gd_capacity g' = gd_capacity g"
proof -
  have flt: "distinct (map fst (filter P (gd_entries g)))" "length (filter P (gd_entries g)) \<le> gd_capacity g" for P
    using assms(1) length_filter_le [of P "gd_entries g"]
    by (auto simp: guard_ok_def distinct_map_filter simp del: length_filter_le)
  show ?thesis
  proof (cases x)
    case (Inl e)
    then show ?thesis
      using check_and_record_all_refused [of g obs now e g'] assms flt by (auto simp: guard_ok_def)
  next
    case (Inr u)
    with assms(2) have ok: "check_and_record_all g obs now = (Inr u, g')" by simp
    show ?thesis
      using ok check_and_record_all_entries [OF ok] flt assms(3)
      by (auto simp: guard_ok_def check_and_record_all_Ok_iff comp_def image_iff min_def split: if_splits)
  qed
qed

lemma forwarded_consumes:
  "verify_forwarded_signed_request E G ser c q governor proposer g now = (x, g') \<Longrightarrow>
     (\<not> is_ok x \<and> g' = g) \<or> (\<exists>y. check_and_record_all g
        [challenge_observation c governor, request_observation q proposer] now = (y, g') \<and> is_ok x = is_ok y)"
  by (auto simp: verify_forwarded_signed_request_def record_forwarded_freshness_def res_bind_def is_ok_def
      split: sum.splits prod.splits)

interpretation challenge_guard: timed_client check_and_record_all id observation_spent
  "\<lambda>g (c, server, local) now. verify_server_challenge E G c server local g now"
  "\<lambda>(c, server, local). [challenge_observation c server]" for E G
  by unfold_locales
    (auto simp: verify_server_challenge_def dest!: then_record_consumes idle_observation_spent)

interpretation request_guard: timed_client check_and_record_all id observation_spent
  "\<lambda>g (q, c, caller, local) now. verify_signed_request E G ser q c caller local g now"
  "\<lambda>(q, c, caller, local). [request_observation q caller]" for E G ser
  by unfold_locales
    (auto simp: verify_signed_request_def dest!: then_record_consumes idle_observation_spent)

interpretation forwarded_guard: timed_client check_and_record_all id observation_spent
  "\<lambda>g (c, q, governor, proposer) now. verify_forwarded_signed_request E G ser c q governor proposer g now"
  "\<lambda>(c, q, governor, proposer). [challenge_observation c governor, request_observation q proposer]" for E G ser
  by unfold_locales (auto dest!: forwarded_consumes idle_observation_spent)

interpretation response_guard: timed_client check_and_record_all id observation_spent
  "\<lambda>g (r, q, server, local) now. verify_signed_response E G ser ser' r q server local g now"
  "\<lambda>(r, q, server, local). [response_observation r server]" for E G ser ser'
  by unfold_locales
    (auto simp: verify_signed_response_def dest!: then_record_consumes idle_observation_spent)

section \<open>An honest exchange\<close>

text \<open>
  What Ed25519 promises: a signature has its fixed length and verifies under the public half of its
  own key pair.
\<close>

definition signer_ok :: "sign_env \<Rightarrow> rpc_signer \<Rightarrow> bool" where
  "signer_ok G s \<longleftrightarrow> rg_public_key s = RpcPublicKey (kr_public (rg_key_pair s)) \<and>
     length (kr_public (rg_key_pair s)) = ed25519_public_key_len \<and>
     (\<forall>m. length (kr_sign (rg_key_pair s) m) = ed25519_signature_len) \<and>
     (\<forall>m. sg_verify G (kr_public (rg_key_pair s)) m (kr_sign (rg_key_pair s) m))"

lemma record_one:
  assumes "validate_time (ro_issued_at_unix_ms x) now (ro_maximum_clock_skew_ms x) = Inr ()"
    and "ro_key x \<notin> fst ` set (gd_entries g)" and "length (gd_entries g) < gd_capacity g"
  shows "check_and_record_all g [x] now =
    (Inr (), g\<lparr>gd_entries := filter (\<lambda>(_, expires). now \<le> expires) (gd_entries g) @ [(ro_key x, expires_at x)]\<rparr>)"
proof -
  have "Suc (length (filter (\<lambda>(_, expires). now \<le> expires) (gd_entries g))) \<le> gd_capacity g"
    using assms(3) length_filter_le [of "\<lambda>(_, expires). now \<le> expires" "gd_entries g"] by linarith
  then have "\<exists>u g'. check_and_record_all g [x] now = (Inr u, g') \<and> g' = g\<lparr>gd_entries :=
      filter (\<lambda>(_, expires). now \<le> expires) (gd_entries g) @ [(ro_key x, expires_at x)]\<rparr>"
    unfolding check_and_record_all_Ok_iff using assms(1,2) by auto
  then show ?thesis by auto
qed

lemma enrollment_parts:
  "signer_enrollment s skew = Inr e \<Longrightarrow> key_policy_validate (pe_key e) = Inr () \<and> pe_principal e = rg_principal s \<and>
     kp_key_id (pe_key e) = rg_key_id s \<and> kp_public_key (pe_key e) = rg_public_key s \<and>
     kp_maximum_clock_skew_ms (pe_key e) = skew"
  by (auto simp: signer_enrollment_def enrollment_new_def ag_check split: if_splits)

lemma verify_own_signature:
  "signer_ok G s \<Longrightarrow> verify_signature G (rg_public_key s) m (rpc_sign s m) = Inr ()"
  by (simp add: signer_ok_def verify_signature_def rpc_sign_def)

lemma issued_challenge_checks:
  assumes "signer_ok G s" and "signer_enrollment s skew = Inr se" and "signer_enrollment c skew' = Inr ce"
    and "issue_challenge E G s random ce t = Inr h"
  shows "server_challenge_checks E G h se c = Inr ()"
proof -
  from assms(4) obtain n m where
    m: "challenge_message E G (h\<lparr>sh_authentication := (sh_authentication h)\<lparr>hf_signature := unsigned\<rparr>\<rparr>) = Inr m"
    and h: "h = \<lparr>sh_schema = challenge_schema, sh_protocol_version = version_current,
         sh_authentication = \<lparr>hf_signer_principal = rg_principal s, hf_signer_key_id = rg_key_id s,
           hf_audience_principal = pe_principal ce, hf_audience_key_id = kp_key_id (pe_key ce),
           hf_direction = ServerChallenge, hf_nonce = n, hf_issued_at_unix_ms = t,
           hf_signature = rpc_sign s m\<rparr>\<rparr>"
    by (auto simp: issue_challenge_def Let_def ag_check)
  from m have "challenge_message E G h = Inr m"
    by (simp add: h challenge_message_def challenge_statement_def)
  then show ?thesis
    using enrollment_parts [OF assms(2)] enrollment_parts [OF assms(3)] verify_own_signature [OF assms(1)]
    by (simp add: server_challenge_checks_def Let_def require_direction_def require_signer_def h)
qed

lemma signed_request_accepted:
  assumes "signer_ok G c" and "signer_enrollment c skew = Inr ce"
    and "hf_signer_principal (sh_authentication h) = rg_principal s"
    and "hf_signer_key_id (sh_authentication h) = rg_key_id s"
    and "sign_request E G ser c random q h t = Inr r"
  shows "signed_request_checks E G ser r h ce s = Inr ()"
proof -
  from assms(5) obtain n d m where
    valid: "request_envelope_validate E ser q = Inr ()" and d: "challenge_digest_of E G h = Inr d"
    and m: "request_message E G (r\<lparr>sq_authentication := (sq_authentication r)\<lparr>rf_signature := unsigned\<rparr>\<rparr>) = Inr m"
    and r: "r = \<lparr>sq_schema = request_schema, sq_request = q,
         sq_authentication = \<lparr>rf_signer_principal = rg_principal c, rf_signer_key_id = rg_key_id c,
           rf_audience_principal = rg_principal s, rf_audience_key_id = rg_key_id s,
           rf_direction = RequestDirection, rf_nonce = n, rf_issued_at_unix_ms = t,
           rf_challenge_digest = d, rf_signature = rpc_sign c m\<rparr>\<rparr>"
    by (auto simp: sign_request_def Let_def ag_check assms(3,4) split: if_splits)
  from m have "request_message E G r = Inr m"
    by (simp add: r request_message_def request_statement_def)
  then show ?thesis
    using enrollment_parts [OF assms(2)] verify_own_signature [OF assms(1)] valid d
    by (simp add: signed_request_checks_def Let_def require_direction_def require_signer_def r)
qed

lemma signed_response_accepted:
  assumes "signer_ok G s" and "signer_enrollment s skew = Inr se"
    and "rf_signer_principal (sq_authentication q) = rg_principal c"
    and "rf_signer_key_id (sq_authentication q) = rg_key_id c"
    and "sign_response E G ser ser' s random q body t = Inr r"
  shows "signed_response_checks E G ser ser' r q se c = Inr ()"
proof -
  from assms(5) obtain n d b m where
    d: "signed_request_digest_of E G ser q = Inr d" and b: "response_body_digest_of E (ser' body) = Inr b"
    and m: "response_message E G (r\<lparr>sp_authentication := (sp_authentication r)\<lparr>pf_signature := unsigned\<rparr>\<rparr>) = Inr m"
    and r: "r = \<lparr>sp_schema = response_schema, sp_response = response_for_request (sq_request q) body,
         sp_authentication = \<lparr>pf_signer_principal = rg_principal s, pf_signer_key_id = rg_key_id s,
           pf_audience_principal = rg_principal c, pf_audience_key_id = rg_key_id c,
           pf_direction = ResponseDirection, pf_nonce = n, pf_issued_at_unix_ms = t,
           pf_signed_request_digest = d, pf_request_nonce = rf_nonce (sq_authentication q),
           pf_response_body_digest = b, pf_signature = rpc_sign s m\<rparr>\<rparr>"
    by (auto simp: sign_response_def Let_def ag_check response_for_request_def assms(3,4))
  from m have "response_message E G r = Inr m"
    by (simp add: r response_message_def response_statement_def)
  then show ?thesis
    using enrollment_parts [OF assms(2)] verify_own_signature [OF assms(1)] d b
    by (simp add: signed_response_checks_def Let_def require_direction_def require_signer_def r
        validate_echo_def response_for_request_def)
qed

lemma issued_challenge_parts:
  "issue_challenge E G s random ce t = Inr h \<Longrightarrow>
     hf_signer_principal (sh_authentication h) = rg_principal s \<and>
     hf_signer_key_id (sh_authentication h) = rg_key_id s \<and>
     hf_direction (sh_authentication h) = ServerChallenge \<and> hf_issued_at_unix_ms (sh_authentication h) = t \<and>
     hf_audience_principal (sh_authentication h) = pe_principal ce \<and>
     hf_audience_key_id (sh_authentication h) = kp_key_id (pe_key ce)"
  by (auto simp: issue_challenge_def Let_def ag_check)

lemma signed_request_parts:
  "sign_request E G ser c random q h t = Inr r \<Longrightarrow>
     rf_signer_principal (sq_authentication r) = rg_principal c \<and>
     rf_signer_key_id (sq_authentication r) = rg_key_id c \<and> rf_issued_at_unix_ms (sq_authentication r) = t"
  by (auto simp: sign_request_def Let_def ag_check split: if_splits)

lemma signed_response_parts:
  "sign_response E G ser ser' s random q body t = Inr r \<Longrightarrow>
     pf_direction (sp_authentication r) = ResponseDirection \<and> pf_issued_at_unix_ms (sp_authentication r) = t \<and>
     rs_body (sp_response r) = body"
  by (auto simp: sign_response_def Let_def ag_check response_for_request_def)

section \<open>What a signature covers\<close>

text \<open>The members of the two statements behind one message agree.\<close>

lemma message_members:
  assumes "printing_reads_back E (JObj ms)" and "printing_reads_back E (JObj ns)"
    and "signature_message E (JObj ms) = Inr m" and "signature_message E (JObj ns) = Inr m"
    and "map_of ms k = Some (JStr x)" and "map_of ns k = Some (JStr y)"
  shows "x = y"
proof -
  from assms(3,4) obtain b where "canonical_json E (JObj ms) = Inr b" "canonical_json E (JObj ns) = Inr b"
    by (auto simp: signature_message_def ag_check)
  then obtain s where "strict_value (JObj ms) = Inr s" "strict_value (JObj ns) = Inr s"
    by (rule canonical_same_strict [OF assms(1,2)])
  then obtain us where "strict_map [] [] ms = Inr us" "strict_map [] [] ns = Inr us"
    by (auto simp: ag_check)
  from this [THEN strict_map_lookup, of k] assms(5,6) show ?thesis by simp
qed

lemma message_fields:
  assumes "printing_reads_back E (JObj (zip fs vs))" and "printing_reads_back E (JObj (zip fs ws))"
    and "signature_message E (JObj (zip fs vs)) = Inr m" and "signature_message E (JObj (zip fs ws)) = Inr m"
    and fs: "distinct fs" "length fs = length vs" "length fs = length ws"
    and atoms: "list_all (\<lambda>v. strict_value v = Inr v) vs" "list_all (\<lambda>v. strict_value v = Inr v) ws"
  shows "vs = ws"
proof -
  from assms(3,4) obtain b where "canonicalize E (JObj (zip fs vs)) = Inr b" "canonicalize E (JObj (zip fs ws)) = Inr b"
    by (auto simp: signature_message_def canonical_json_def ag_check)
  from canonical_fields [OF assms(1,2) this fs atoms] show ?thesis .
qed

definition b64_ok :: "sign_env \<Rightarrow> bool" where
  "b64_ok G \<longleftrightarrow> (\<forall>b. sg_b64_decode G (sg_b64_encode G b) = Some b)"

lemma rpc_nonce_json_inject: "b64_ok G \<Longrightarrow> rpc_nonce_json G a = rpc_nonce_json G b \<longleftrightarrow> a = b"
  by (cases a; cases b) (auto simp: rpc_nonce_json_def b64_ok_def, metis option.inject)

lemma direction_json_inject: "direction_json a = direction_json b \<longleftrightarrow> a = b"
  by (cases a; cases b) (simp_all add: direction_json_def)

lemmas rpc_json_inject = rpc_nonce_json_inject direction_json_inject
lemmas rpc_json_defs = version_json_def request_id_json_def key_id_json_def digest_json_def u64_json_def

lemma rpc_atoms:
  "strict_value (version_json v) = Inr (version_json v)" "strict_value (request_id_json r) = Inr (request_id_json r)"
  "strict_value (key_id_json k) = Inr (key_id_json k)" "strict_value (digest_json d) = Inr (digest_json d)"
  "strict_value (u64_json w) = Inr (u64_json w)" "strict_value (rpc_nonce_json G n) = Inr (rpc_nonce_json G n)"
  "strict_value (direction_json x) = Inr (direction_json x)"
  by (simp_all add: rpc_json_defs rpc_nonce_json_def direction_json_def)

lemma rpc_same:
  "version_json v = version_json v' \<longleftrightarrow> v = v'" "request_id_json r = request_id_json r' \<longleftrightarrow> r = r'"
  "key_id_json k = key_id_json k' \<longleftrightarrow> k = k'" "digest_json d = digest_json d' \<longleftrightarrow> d = d'"
  "u64_json w = u64_json w' \<longleftrightarrow> w = w'"
  by (auto simp: rpc_json_defs protocol_version.expand request_id.expand rpc_key_id.expand digest.expand word_uint_eq_iff)

lemma request_message_binds:
  fixes q q' :: "'b signed_request"
  assumes "b64_ok G" and "printing_reads_back E (request_statement G q)" and "printing_reads_back E (request_statement G q')"
    and "request_message E G q = Inr m" and "request_message E G q' = Inr m"
  shows "rq_echo (sq_request q) = rq_echo (sq_request q') \<and>
    (sq_authentication q)\<lparr>rf_signature := unsigned\<rparr> = (sq_authentication q')\<lparr>rf_signature := unsigned\<rparr>"
  using message_fields [OF assms(2-5) [unfolded request_message_def request_statement_def Let_def]] assms(1)
  by (simp add: request_fields_def rpc_atoms rpc_same rpc_json_inject)

lemma challenge_message_binds:
  assumes "b64_ok G" and "printing_reads_back E (challenge_statement G c)" and "printing_reads_back E (challenge_statement G c')"
    and "challenge_message E G c = Inr m" and "challenge_message E G c' = Inr m"
  shows "sh_protocol_version c = sh_protocol_version c' \<and>
    (sh_authentication c)\<lparr>hf_signature := unsigned\<rparr> = (sh_authentication c')\<lparr>hf_signature := unsigned\<rparr>"
  using message_fields [OF assms(2-5) [unfolded challenge_message_def challenge_statement_def Let_def]] assms(1)
  by (simp add: challenge_fields_def rpc_atoms rpc_same rpc_json_inject)

lemma response_message_binds:
  fixes r r' :: "'b signed_response"
  assumes "b64_ok G" and "printing_reads_back E (response_statement G r)" and "printing_reads_back E (response_statement G r')"
    and "response_message E G r = Inr m" and "response_message E G r' = Inr m"
  shows "rs_echo (sp_response r) = rs_echo (sp_response r') \<and>
    (sp_authentication r)\<lparr>pf_signature := unsigned\<rparr> = (sp_authentication r')\<lparr>pf_signature := unsigned\<rparr>"
  using message_fields [OF assms(2-5) [unfolded response_message_def response_statement_def Let_def]] assms(1)
  by (simp add: response_fields_def rpc_atoms rpc_same rpc_json_inject)

lemma frame_kinds_differ:
  assumes "printing_reads_back E (challenge_statement G c)" and "printing_reads_back E (request_statement G q)"
    and "printing_reads_back E (response_statement G r)"
  shows "challenge_message E G c = Inr m \<Longrightarrow> request_message E G q \<noteq> Inr m"
    and "challenge_message E G c = Inr m \<Longrightarrow> response_message E G r \<noteq> Inr m"
    and "request_message E G q = Inr m \<Longrightarrow> response_message E G r \<noteq> Inr m"
proof -
  note defs = challenge_message_def challenge_statement_def request_message_def request_statement_def
    response_message_def response_statement_def Let_def
  show "request_message E G q \<noteq> Inr m" if "challenge_message E G c = Inr m"
    using message_members [OF assms(1,2) [unfolded defs], of m "''context''"] that
    by (auto simp: defs challenge_fields_def request_fields_def)
  show "response_message E G r \<noteq> Inr m" if "challenge_message E G c = Inr m"
    using message_members [OF assms(1,3) [unfolded defs], of m "''context''"] that
    by (auto simp: defs challenge_fields_def response_fields_def)
  show "response_message E G r \<noteq> Inr m" if "request_message E G q = Inr m"
    using message_members [OF assms(2,3) [unfolded defs], of m "''context''"] that
    by (auto simp: defs request_fields_def response_fields_def)
qed

section \<open>A sample exchange\<close>

text \<open>A signature of the sample scheme is the public key and the padded start of the message.\<close>

definition sample_rpc_tag :: "bytes \<Rightarrow> bytes \<Rightarrow> bytes" where
  "sample_rpc_tag pk m = pk @ take 32 (m @ replicate 32 (CHR 0x00))"

definition sample_rpc_env :: sign_env where
  "sample_rpc_env = sample_sign_env\<lparr>sg_verify := (\<lambda>pk m s. s = sample_rpc_tag pk m)\<rparr>"

definition sample_rpc_key :: "string \<Rightarrow> bytes" where
  "sample_rpc_key p = take 32 (p @ replicate 32 (CHR ''0''))"

definition sample_rpc_signer :: "string \<Rightarrow> rpc_signer" where
  "sample_rpc_signer p = \<lparr>rg_principal = Digest p, rg_key_id = RpcKeyId p,
     rg_public_key = RpcPublicKey (sample_rpc_key p),
     rg_key_pair = \<lparr>kr_public = sample_rpc_key p, kr_sign = sample_rpc_tag (sample_rpc_key p)\<rparr>\<rparr>"

definition sample_guard :: replay_guard where
  "sample_guard = \<lparr>gd_capacity = 2, gd_entries = []\<rparr>"

definition sample_enrollment :: "string \<Rightarrow> peer_enrollment" where
  "sample_enrollment p = \<lparr>pe_principal = Digest p, pe_key = \<lparr>kp_principal = Digest p, kp_key_id = RpcKeyId p,
     kp_public_key = RpcPublicKey (sample_rpc_key p), kp_maximum_clock_skew_ms = 5\<rparr>\<rparr>"

lemma sample_signer_ok: "signer_ok sample_rpc_env (sample_rpc_signer p)"
  by (simp add: signer_ok_def sample_rpc_env_def sample_rpc_signer_def sample_rpc_key_def sample_rpc_tag_def
      ed25519_public_key_len_def ed25519_signature_len_def min_def)

lemma sample_enrolled: "signer_enrollment (sample_rpc_signer p) 5 = Inr (sample_enrollment p)"
  by (simp add: signer_enrollment_def enrollment_new_def key_policy_validate_def sample_rpc_signer_def
      sample_enrollment_def word_less_nat_alt)

lemma rpc_clean [simp]:
  "json_clean (version_json v)" "json_clean (request_id_json r)" "json_clean (key_id_json k)"
  "json_clean (digest_json d)" "json_clean (rpc_nonce_json G n)" "json_clean (direction_json x)"
  "json_clean (signature_json G s)" "json_clean (u64_json w)" "json_clean (echo_json e)"
  by (simp_all add: rpc_json_defs rpc_nonce_json_def direction_json_def signature_json_def echo_json_def)

lemma text_message: "json_clean v \<Longrightarrow> \<exists>m. signature_message text_env v = Inr m"
  using text_env_clean [of v] by (auto simp: signature_message_def)

lemma text_digest: "json_clean v \<Longrightarrow> \<exists>d. canonical_json_digest text_env k v = Inr d"
  using text_env_clean [of v] by (auto simp: canonical_json_digest_def)

lemma statements_clean:
  "json_clean (challenge_statement G c)" "json_clean (request_statement G q)" "json_clean (response_statement G r)"
  "json_clean (signed_challenge_json G c)" "json_clean (ser (rq_body (sq_request q))) \<Longrightarrow> json_clean (signed_request_json G ser q)"
  by (simp_all add: challenge_statement_def challenge_fields_def request_statement_def request_fields_def
      response_statement_def response_fields_def signed_challenge_json_def signed_request_json_def
      request_envelope_json_def Let_def)

lemma sample_challenge_issued:
  "\<exists>h. issue_challenge text_env sample_rpc_env (sample_rpc_signer p) (Some n) (sample_enrollment q) t = Inr h"
proof -
  have "\<exists>m. challenge_message text_env sample_rpc_env c = Inr m" for c
    unfolding challenge_message_def by (rule text_message [OF statements_clean(1)])
  moreover have "key_policy_validate (pe_key (sample_enrollment q)) = Inr ()"
    using enrollment_parts [OF sample_enrolled] by blast
  ultimately show ?thesis by (simp add: issue_challenge_def Let_def) (metis res_bind_simps(2))
qed

lemma sample_request_signed:
  assumes "hf_audience_principal (sh_authentication h) = Digest p" "hf_audience_key_id (sh_authentication h) = RpcKeyId p"
    and "request_envelope_validate text_env JStr q = Inr ()"
  shows "\<exists>r. sign_request text_env sample_rpc_env JStr (sample_rpc_signer p) (Some n) q h t = Inr r"
proof -
  have "\<exists>m. request_message text_env sample_rpc_env c = Inr m" for c :: "string signed_request"
    unfolding request_message_def by (rule text_message [OF statements_clean(2)])
  moreover have "\<exists>d. challenge_digest_of text_env sample_rpc_env h = Inr d"
    unfolding challenge_digest_of_def map_err_Inr_iff by (rule text_digest [OF statements_clean(4)])
  ultimately show ?thesis using assms
    by (auto simp: sign_request_def Let_def sample_rpc_signer_def) (metis res_bind_simps(2))
qed

lemma sample_response_signed:
  assumes "request_envelope_validate text_env JStr (sq_request q) = Inr ()"
  shows "\<exists>r. sign_response text_env sample_rpc_env JStr JStr (sample_rpc_signer p) (Some n) q body t = Inr r"
proof -
  have "\<exists>m. response_message text_env sample_rpc_env c = Inr m" for c :: "string signed_response"
    unfolding response_message_def by (rule text_message [OF statements_clean(3)])
  moreover have "\<exists>d. signed_request_digest_of text_env sample_rpc_env JStr q = Inr d"
    unfolding signed_request_digest_of_def map_err_Inr_iff by (rule text_digest [OF statements_clean(5)]) simp
  moreover have "\<exists>d. response_body_digest_of text_env (JStr body) = Inr d"
    unfolding response_body_digest_of_def map_err_Inr_iff by (rule text_digest) simp
  ultimately show ?thesis using assms
    by (auto simp: sign_response_def Let_def response_for_request_def) (metis res_bind_simps(2))
qed

section \<open>Properties\<close>

text \<open>
  C20: no signed message is accepted twice.  Over any sequence of calls of the replay guard whose clock
  does not go back, with any mixture of challenges, requests, forwarded pairs and responses, every
  observation is accepted at most once, and not at all if it was spent before the first call.
\<close>

theorem rpc_no_replay:
  assumes "sorted (map snd calls)" and "\<forall>(obs, now) \<in> set calls. t0 \<le> now"
  shows "distinct (granted_at check_and_record_all id g calls) \<and>
    set (granted_at check_and_record_all id g calls) \<inter> observation_spent g t0 = {}"
  using guard.granted_at_fresh [OF assms(1), of t0 g] assms(2) by force

definition sample_observation_at :: "u64 \<Rightarrow> replay_observation" where
  "sample_observation_at t = \<lparr>ro_key = \<lparr>ry_signer = Digest ''s'', ry_key_id = RpcKeyId ''k'',
     ry_direction = RequestDirection, ry_nonce = RpcNonce (sample_rpc_key ''n'')\<rparr>, ro_issued_at_unix_ms = t,
     ro_maximum_clock_skew_ms = 5\<rparr>"

text \<open>The second call is a replay, the third comes after the entry has expired with a later timestamp.\<close>

theorem rpc_no_replay_witness:
  "sorted (map snd [([sample_observation_at 1], 2), ([sample_observation_at 1], 3 :: u64), ([sample_observation_at 9], 10)]) \<and>
   distinct (granted_at check_and_record_all id sample_guard
     [([sample_observation_at 1], 2), ([sample_observation_at 1], 3), ([sample_observation_at 9], 10)])"
proof -
  have s: "sorted (map snd [([sample_observation_at 1], 2), ([sample_observation_at 1], 3 :: u64),
      ([sample_observation_at 9], 10)])" by (simp add: word_le_nat_alt)
  show ?thesis
    using rpc_no_replay [OF s, of 2 sample_guard] s by (simp add: word_le_nat_alt)
qed

text \<open>
  C21: between two enrolled peers an honest exchange goes through: a challenge issued for the client, the
  request signed for that challenge and the response signed for that request are accepted, each at any
  time inside the enrolled clock skew, as long as the nonces are new to the guards and there is room.
\<close>

theorem rpc_exchange_accepted:
  assumes ok: "signer_ok G server" "signer_ok G client"
    and enrolled: "signer_enrollment server skew = Ok se" "signer_enrollment client skew' = Ok ce"
    and issued: "issue_challenge E G server n0 ce t0 = Ok h"
    and requested: "sign_request E G ser client n1 q h t1 = Ok r"
    and answered: "sign_response E G ser ser' server n2 r body t2 = Ok p"
    and time: "validate_time t0 u0 skew = Ok ()" "validate_time t1 u1 skew' = Ok ()" "validate_time t2 u2 skew = Ok ()"
    and fresh: "ro_key (challenge_observation h se) \<notin> fst ` set (gd_entries gc)"
      "ro_key (request_observation r ce) \<notin> fst ` set (gd_entries gs)"
      "ro_key (response_observation p se) \<notin> fst ` set (gd_entries gc)"
    and room: "Suc (length (gd_entries gc)) < gd_capacity gc" "length (gd_entries gs) < gd_capacity gs"
  shows "\<exists>gc' gs' gc''. verify_server_challenge E G h se client gc u0 = (Ok (), gc') \<and>
    verify_signed_request E G ser r h ce server gs u1 = (Ok (), gs') \<and>
    verify_signed_response E G ser ser' p r se client gc' u2 = (Ok (), gc'')"
proof -
  note h = issued_challenge_parts [OF issued] and r = signed_request_parts [OF requested]
    and p = signed_response_parts [OF answered]
  note se = enrollment_parts [OF enrolled(1)] and ce = enrollment_parts [OF enrolled(2)]
  let ?gc = "gc\<lparr>gd_entries := filter (\<lambda>(_, expires). u0 \<le> expires) (gd_entries gc) @
    [(ro_key (challenge_observation h se), expires_at (challenge_observation h se))]\<rparr>"
  have "verify_server_challenge E G h se client gc u0 = (Inr (), ?gc)"
    unfolding verify_server_challenge_def then_record_def
      issued_challenge_checks [OF ok(1) enrolled(1,2) issued]
    using record_one [of "challenge_observation h se" u0 gc] time fresh room h se
    by (simp add: challenge_observation_def Let_def)
  moreover have "\<exists>gs'. verify_signed_request E G ser r h ce server gs u1 = (Inr (), gs')"
    unfolding verify_signed_request_def then_record_def
      signed_request_accepted [OF ok(2) enrolled(2) h [THEN conjunct1] h [THEN conjunct2, THEN conjunct1] requested]
    using record_one [of "request_observation r ce" u1 gs] time fresh room r ce
    by (simp add: request_observation_def Let_def)
  moreover have "ro_key (response_observation p se) \<notin> fst ` set (gd_entries ?gc)"
    using fresh h p by (auto simp: response_observation_def challenge_observation_def Let_def)
  moreover have "length (gd_entries ?gc) < gd_capacity ?gc"
    using room(1) length_filter_le [of "\<lambda>(_, expires). u0 \<le> expires" "gd_entries gc"] by (simp del: length_filter_le)
  ultimately have "\<exists>g. verify_signed_response E G ser ser' p r se client ?gc u2 = (Inr (), g)"
    unfolding verify_signed_response_def then_record_def
      signed_response_accepted [OF ok(1) enrolled(1) r [THEN conjunct1] r [THEN conjunct2, THEN conjunct1] answered]
    using record_one [of "response_observation p se" u2 ?gc] time p se
    by (simp add: response_observation_def Let_def)
  then show ?thesis
    using \<open>verify_server_challenge E G h se client gc u0 = (Inr (), ?gc)\<close>
      \<open>\<exists>gs'. verify_signed_request E G ser r h ce server gs u1 = (Inr (), gs')\<close> by blast
qed

theorem rpc_exchange_accepted_witness:
  "\<exists>h r p gc' gs' gc''.
    verify_server_challenge text_env sample_rpc_env h (sample_enrollment ''s'') (sample_rpc_signer ''c'')
      sample_guard 2 = (Ok (), gc') \<and>
    verify_signed_request text_env sample_rpc_env JStr r h (sample_enrollment ''c'') (sample_rpc_signer ''s'')
      sample_guard 3 = (Ok (), gs') \<and>
    verify_signed_response text_env sample_rpc_env JStr JStr p r (sample_enrollment ''s'')
      (sample_rpc_signer ''c'') gc' 4 = (Ok (), gc'')"
proof -
  obtain h where h: "issue_challenge text_env sample_rpc_env (sample_rpc_signer ''s'') (Some (RpcNonce (sample_rpc_key ''x'')))
      (sample_enrollment ''c'') 1 = Inr h"
    using sample_challenge_issued by blast
  obtain q where q: "request_envelope_new text_env JStr (RequestId ''r'') ''b'' = Inr q"
    using text_digest [of "JStr ''b''" request_body_domain] by (auto simp: request_envelope_new_def)
  then have valid: "request_envelope_validate text_env JStr q = Inr ()"
    by (auto simp: request_envelope_new_def request_envelope_validate_def version_current_def ag_check)
  have "hf_audience_principal (sh_authentication h) = Digest ''c''" "hf_audience_key_id (sh_authentication h) = RpcKeyId ''c''"
    using issued_challenge_parts [OF h] by (simp_all add: sample_enrollment_def)
  then obtain r where r: "sign_request text_env sample_rpc_env JStr (sample_rpc_signer ''c'') (Some (RpcNonce (sample_rpc_key ''y'')))
      q h 2 = Inr r"
    using sample_request_signed [OF _ _ valid] by blast
  from r have "sq_request r = q" by (auto simp: sign_request_def Let_def ag_check split: if_splits)
  then obtain p where p: "sign_response text_env sample_rpc_env JStr JStr (sample_rpc_signer ''s'')
      (Some (RpcNonce (sample_rpc_key ''z''))) r ''a'' 3 = Inr p"
    using sample_response_signed [of r] valid by blast
  have time: "validate_time t u 5 = Inr ()" if "(t, u) \<in> {(1, 2), (2, 3), (3, 4)}" for t u
    using that by (auto simp: validate_time_iff word_le_nat_alt unat_saturating_add)
  show ?thesis
    using rpc_exchange_accepted [OF sample_signer_ok sample_signer_ok sample_enrolled sample_enrolled h r p
        time [of 1 2] time [of 2 3] time [of 3 4], of sample_guard sample_guard]
    by (simp add: sample_guard_def) blast
qed

text \<open>
  A signature covers its whole frame and its kind.  Messages signed for a challenge, a request and a
  response never coincide, so no signature can be reflected as another kind of frame; and two
  requests with one message have the same version, identifier, body digest, signer, audience, direction,
  nonce, time and challenge.
\<close>

theorem rpc_signature_binds:
  fixes q q' :: "'b signed_request" and r :: "'c signed_response"
  assumes "b64_ok G" and "printing_reads_back E (challenge_statement G c)"
    and "printing_reads_back E (request_statement G q)" and "printing_reads_back E (request_statement G q')"
    and "printing_reads_back E (response_statement G r)"
  shows "(challenge_message E G c = Ok m \<longrightarrow> request_message E G q \<noteq> Ok m \<and> response_message E G r \<noteq> Ok m) \<and>
    (request_message E G q = Ok m \<longrightarrow> response_message E G r \<noteq> Ok m) \<and>
    (request_message E G q = Ok m \<and> request_message E G q' = Ok m \<longrightarrow>
      rq_echo (sq_request q) = rq_echo (sq_request q') \<and>
      (sq_authentication q)\<lparr>rf_signature := unsigned\<rparr> = (sq_authentication q')\<lparr>rf_signature := unsigned\<rparr>)"
  using frame_kinds_differ [OF assms(2,3,5)] request_message_binds [OF assms(1,3,4)] by blast

definition sample_signed_request :: "string \<Rightarrow> string signed_request" where
  "sample_signed_request n = \<lparr>sq_schema = request_schema,
     sq_request = \<lparr>rq_echo = \<lparr>re_protocol_version = version_current, re_request_id = RequestId ''r'',
       re_request_digest = Digest ''b''\<rparr>, rq_body = ''b''\<rparr>,
     sq_authentication = \<lparr>rf_signer_principal = Digest ''c'', rf_signer_key_id = RpcKeyId ''c'',
       rf_audience_principal = Digest ''s'', rf_audience_key_id = RpcKeyId ''s'', rf_direction = RequestDirection,
       rf_nonce = RpcNonce (sample_rpc_key n), rf_issued_at_unix_ms = 1, rf_challenge_digest = Digest ''h'',
       rf_signature = unsigned\<rparr>\<rparr>"

text \<open>Two requests that differ in their nonce only have different messages.\<close>

theorem rpc_signature_binds_witness:
  "\<exists>m. request_message text_env sample_rpc_env (sample_signed_request ''x'') = Ok m \<and>
     request_message text_env sample_rpc_env (sample_signed_request ''y'') \<noteq> Ok m"
proof -
  obtain m where m: "request_message text_env sample_rpc_env (sample_signed_request ''x'') = Inr m"
    unfolding request_message_def using text_message [OF statements_clean(2)] by blast
  have b64: "b64_ok sample_rpc_env" by (simp add: b64_ok_def sample_rpc_env_def sample_sign_env_def text_hex)
  have "request_message text_env sample_rpc_env (sample_signed_request ''y'') \<noteq> Inr m"
    using rpc_signature_binds [where q = "sample_signed_request ''x''" and q' = "sample_signed_request ''y''" and m = m,
        OF b64 text_env_reads_back text_env_reads_back text_env_reads_back text_env_reads_back] m
    by (auto simp: sample_signed_request_def sample_rpc_key_def)
  with m show ?thesis by blast
qed

text \<open>
  C35: the replay guard stays well formed: its entries are a map and never exceed its capacity, whatever is
  presented to it at whatever time, and the capacity itself never changes.
\<close>

theorem rpc_guard_well_formed:
  assumes "guard_ok g" and "gd_capacity g < 2 ^ 64 - 1"
  shows "guard_ok (fold (\<lambda>(obs, now) g. snd (check_and_record_all g obs now)) calls g) \<and>
    gd_capacity (fold (\<lambda>(obs, now) g. snd (check_and_record_all g obs now)) calls g) = gd_capacity g"
  using assms
proof (induction calls arbitrary: g)
  case (Cons c calls)
  obtain obs now where c: "c = (obs, now)" by fastforce
  have "guard_ok (snd (check_and_record_all g obs now)) \<and>
      gd_capacity (snd (check_and_record_all g obs now)) = gd_capacity g"
    using guard_ok_preserved [of g obs now] Cons.prems by (metis prod.collapse)
  with Cons show ?case by (simp add: c)
qed simp

theorem rpc_guard_well_formed_witness:
  "guard_ok (fold (\<lambda>(obs, now) g. snd (check_and_record_all g obs now))
     [([sample_observation_at 1], 2), ([sample_observation_at 9], 10)] sample_guard)"
  using rpc_guard_well_formed [of sample_guard "[([sample_observation_at 1], 2), ([sample_observation_at 9], 10)]"]
  by (simp add: guard_ok_def sample_guard_def)

end
