(* ===== verification/AG_Store.thy ===== *)
theory AG_Store
  imports AG_Wire
begin

text \<open>
  \<open>crates/ag-store/src/lib.rs\<close>: the event store.  Events form a hash chain; every append also
  replaces the materialized state of one entity in the same transaction.

  The database is a record of its tables, a table the list of its rows.  A statement is a function
  on that record that fails with \<open>SeSqlite\<close> where a constraint of the schema would be violated; a
  transaction that is not committed leaves the database as it was.  SQLite's own failures (I/O, busy)
  are outside the model.  An \<open>i64\<close> column is an integer, a digest column its text.  The fixed
  text of a message is kept, formatted values in it are not.  The schema text enters only through
  its digest and is an argument (\<open>sql\<close>).
\<close>

section \<open>Identities and errors\<close>

definition store_schema_version :: u32 where "store_schema_version = 2"
definition store_schema_name :: string where "store_schema_name = ''ag-store-event-v1''"

record store_identity =
  si_application_id :: u32
  si_application_name :: string
  si_schema_name :: string
  si_schema_version :: u32
  si_schema_digest :: digest

record writer_identity =
  wi_writer_id :: string
  wi_principal_digest :: digest
  wi_process_nonce :: string
  wi_claimed_at_unix_ms :: int

record activation_identity =
  ai_schema :: string
  ai_authority_domain :: authority_domain_id
  ai_epoch :: epoch_id
  ai_config_identity :: digest
  ai_security_profile_identity :: digest
  ai_build_identity :: digest
  ai_authority_catalog_identity :: "digest option"

record activation_record =
  ar_identity :: activation_identity
  ar_activation_digest :: digest
  ar_activated_at_unix_ms :: int

record blob_descriptor =
  bd_digest :: digest
  bd_byte_length :: u64

datatype backup_participant = Agd | AgEffectd | AgProviderd

datatype backup_state = CutPreparing | CutPrepared | CutSealed | CutReleased | CutAborted

datatype store_error =
    SeIo
  | SeSqlite
  | SeWriterFenced string
  | SeIdentityMismatch store_identity store_identity
  | SeActivationIdentityMissing
  | SeActivationIdentityRequired
  | SeActivationIdentityMismatch activation_identity activation_identity
  | SeInvalidActivationIdentity string
  | SeUnrecognizedExistingDatabase
  | SePreparedDatabaseDrift string
  | SeDatabaseCustodyMismatch string
  | SeInvalidIdentity string
  | SeInvalidIdentifier string string
  | SeInvalidDigest string
  | SeCanonicalization jcs_error
  | SeInvalidStoredJson string
  | SeRevisionConflict string u64 u64
  | SeDuplicateEvent string
  | SeBackupBarrierActive string
  | SeInvalidBackupParticipants
  | SeBackupCutNotFound string
  | SeBackupCutAlreadyActive
  | SeBackupCutConflict string
  | SeInvalidBackupTransition string backup_state
  | SeBackupParticipantMismatch backup_participant
  | SeInvalidQuiescenceAttestation backup_participant
  | SeBackupSchemaIdentityMismatch backup_participant
  | SeBackupCheckpointConflict backup_participant
  | SeBackupNotPrepared
  | SeBackupManifestMismatch
  | SeBackupCaptureRequiresSealed string
  | SeBackupCaptureDestinationExists string
  | SeIncoherentBackupBundle
  | SeIncoherentBackupPublication
  | SeBackupPublicationDestinationExists string
  | SeBlobMismatch blob_descriptor blob_descriptor
  | SeBlobReadLimitExceeded digest u64 u64
  | SeCorrupt string

definition store_identifier :: "string \<Rightarrow> string \<Rightarrow> nat \<Rightarrow> store_error + unit" where
  "store_identifier field value maximum =
     (if value = [] then Err (SeInvalidIdentifier field ''must not be empty'')
      else if length value > maximum
      then Err (SeInvalidIdentifier field (''exceeds '' @ show_nat maximum @ '' bytes''))
      else if \<not> list_all (\<lambda>c. is_ascii_alphanumeric c \<or> c \<in> set ''-_.:/'') value
      then Err (SeInvalidIdentifier field ''contains non-canonical characters'') else Ok ())"

definition schema_digest_of :: "env \<Rightarrow> bytes \<Rightarrow> digest" where
  "schema_digest_of E sql = hash_domain E ''ag-store-schema-v2'' sql"

definition store_identity_validate :: "env \<Rightarrow> bytes \<Rightarrow> store_identity \<Rightarrow> store_error + unit" where
  "store_identity_validate E sql i =
     (if si_application_id i = 0 \<or> si_application_id i > 0x7FFFFFFF
      then Err (SeInvalidIdentity ''application_id must be in 1..=i32::MAX'')
      else res_bind (store_identifier ''application_name'' (si_application_name i) 128) (\<lambda>_.
      res_bind (store_identifier ''schema_name'' (si_schema_name i) 128) (\<lambda>_.
      if si_schema_version i = 0 \<or> si_schema_version i > 0x7FFFFFFF
      then Err (SeInvalidIdentity ''schema_version must be in 1..=i32::MAX'')
      else if si_schema_name i \<noteq> store_schema_name \<or> si_schema_version i \<noteq> store_schema_version \<or>
        si_schema_digest i \<noteq> schema_digest_of E sql
      then Err (SeInvalidIdentity ''schema identity does not match the schema compiled into ag-store'')
      else Ok ())))"

definition store_identity_current :: "env \<Rightarrow> bytes \<Rightarrow> u32 \<Rightarrow> string \<Rightarrow> store_error + store_identity" where
  "store_identity_current E sql app name =
     (let i = \<lparr>si_application_id = app, si_application_name = name, si_schema_name = store_schema_name,
        si_schema_version = store_schema_version, si_schema_digest = schema_digest_of E sql\<rparr> in
      res_bind (store_identity_validate E sql i) (\<lambda>_. Ok i))"

definition writer_validate :: "writer_identity \<Rightarrow> store_error + unit" where
  "writer_validate w =
     res_bind (store_identifier ''writer_id'' (wi_writer_id w) 192) (\<lambda>_.
     store_identifier ''process_nonce'' (wi_process_nonce w) 192)"

definition activation_schema :: string where
  "activation_schema = ''ag-store-activation-identity-v1''"

definition activation_validate :: "activation_identity \<Rightarrow> store_error + unit" where
  "activation_validate a =
     (if ai_schema a \<noteq> activation_schema
      then Err (SeInvalidActivationIdentity ''unsupported activation identity schema'') else Ok ())"

definition to_i64 :: "u64 \<Rightarrow> string \<Rightarrow> store_error + int" where
  "to_i64 v field =
     (if uint v \<ge> 2 ^ 63
      then Err (SeCorrupt (field @ '' exceeds SQLite's signed integer representation'')) else Ok (uint v))"

definition to_u64 :: "int \<Rightarrow> string \<Rightarrow> store_error + u64" where
  "to_u64 v field = (if v < 0 then Err (SeCorrupt (field @ '' is negative'')) else Ok (word_of_int v))"

definition store_digest_from_str :: "env \<Rightarrow> string \<Rightarrow> store_error + digest" where
  "store_digest_from_str E s = map_err (\<lambda>_. SeInvalidDigest s) (digest_from_str E s)"

definition store_jcs :: "env \<Rightarrow> json \<Rightarrow> store_error + bytes" where
  "store_jcs E v = map_err SeCanonicalization (canonicalize E v)"

definition digest_jcs :: "env \<Rightarrow> string \<Rightarrow> json \<Rightarrow> store_error + digest" where
  "digest_jcs E domain v = res_bind (store_jcs E v) (\<lambda>b. Ok (hash_domain E domain b))"

definition verify_canonical_stored_json :: "env \<Rightarrow> bytes \<Rightarrow> string \<Rightarrow> store_error + unit" where
  "verify_canonical_stored_json E b label =
     res_bind (map_err (\<lambda>_. SeCorrupt (label @ '' is not strict canonical JSON'')) (from_canonical_bytes E b))
       (\<lambda>_. Ok ())"

definition store_identity_json :: "store_identity \<Rightarrow> json" where
  "store_identity_json i = JObj
     [(''application_id'', JNum (uint (si_application_id i))), (''application_name'', JStr (si_application_name i)),
      (''schema_name'', JStr (si_schema_name i)), (''schema_version'', JNum (uint (si_schema_version i))),
      (''schema_digest'', digest_json (si_schema_digest i))]"

definition genesis_digest :: "env \<Rightarrow> store_identity \<Rightarrow> store_error + digest" where
  "genesis_digest E i = digest_jcs E ''ag-store-event-chain-genesis-v1'' (store_identity_json i)"

section \<open>The database\<close>

record chain_head =
  ch_sequence :: u64
  ch_digest :: digest

record event_row =
  ev_sequence :: int
  ev_event_id :: string
  ev_entity_id :: string
  ev_event_kind :: string
  ev_occurred_at_unix_ms :: int
  ev_previous_digest :: string
  ev_payload_jcs :: bytes
  ev_payload_digest :: string
  ev_state_digest :: string
  ev_event_digest :: string

record state_row =
  ms_entity_id :: string
  ms_revision :: int
  ms_state_jcs :: bytes
  ms_state_digest :: string
  ms_last_event_sequence :: int
  ms_last_event_digest :: string

record cut_row =
  cu_cut_id :: string
  cu_authority_domain :: string
  cu_epoch :: int
  cu_quiescence_barrier_id :: string
  cu_state :: string
  cu_begin_request_digest :: string
  cu_begin_event :: "int \<times> string"
  cu_manifest_digest :: "string option"
  cu_seal_event :: "(int \<times> string) option"
  cu_release_bundle_digest :: "string option"
  cu_release_event :: "(int \<times> string) option"
  cu_abort_reason :: "string option"
  cu_abort_event :: "(int \<times> string) option"
  cu_created_at_unix_ms :: int
  cu_updated_at_unix_ms :: int

record participant_row =
  pr_cut_id :: string
  pr_participant :: string
  pr_component_identity :: string
  pr_checkpoint :: "(bytes \<times> string \<times> int \<times> string) option"

record identity_row =
  ir_application_id :: u32
  ir_application_name :: string
  ir_schema_name :: string
  ir_schema_version :: u32
  ir_schema_digest :: string

record store_db =
  db_schema :: bool
  db_pragma_application :: u32
  db_pragma_version :: u32
  db_identity :: "identity_row option"
  db_writer :: "(int \<times> string \<times> string \<times> string \<times> int) option"
  db_activation :: "(bytes \<times> string \<times> int) option"
  db_head :: "(int \<times> string) option"
  db_events :: "event_row list"
  db_states :: "state_row list"
  db_blobs :: "(string \<times> int \<times> int) list"
  db_cuts :: "cut_row list"
  db_participants :: "participant_row list"

definition db_new :: store_db where
  "db_new = \<lparr>db_schema = False, db_pragma_application = 0, db_pragma_version = 0, db_identity = None, db_writer = None,
     db_activation = None, db_head = None, db_events = [], db_states = [], db_blobs = [], db_cuts = [],
     db_participants = []\<rparr>"

text \<open>A transaction: its effects are kept when it commits and dropped when it fails.\<close>

definition transaction :: "(store_db \<Rightarrow> store_error + ('r \<times> store_db)) \<Rightarrow> store_db
    \<Rightarrow> (store_error + 'r) \<times> store_db" where
  "transaction body db = (case body db of Inl e \<Rightarrow> (Err e, db) | Inr (r, db') \<Rightarrow> (Ok r, db'))"

text \<open>The statements of an append, with the constraints of the two tables.\<close>

definition insert_event :: "event_row \<Rightarrow> store_db \<Rightarrow> store_error + store_db" where
  "insert_event r db =
     (if ev_sequence r \<le> 0 \<or>
        list_ex (\<lambda>x. ev_sequence x = ev_sequence r \<or> ev_event_id x = ev_event_id r \<or>
          ev_event_digest x = ev_event_digest r) (db_events db)
      then Err SeSqlite else Ok (db\<lparr>db_events := db_events db @ [r]\<rparr>))"

definition upsert_state :: "state_row \<Rightarrow> store_db \<Rightarrow> store_error + store_db" where
  "upsert_state r db =
     (if ms_revision r \<le> 0 \<or>
        list_ex (\<lambda>x. ms_entity_id x \<noteq> ms_entity_id r \<and> ms_last_event_sequence x = ms_last_event_sequence r)
          (db_states db) \<or>
        \<not> list_ex (\<lambda>x. ev_sequence x = ms_last_event_sequence r) (db_events db)
      then Err SeSqlite
      else Ok (db\<lparr>db_states :=
        if list_ex (\<lambda>x. ms_entity_id x = ms_entity_id r) (db_states db)
        then map (\<lambda>x. if ms_entity_id x = ms_entity_id r then r else x) (db_states db)
        else db_states db @ [r]\<rparr>))"

text \<open>The guarded update of the head row, with the number of changed rows.\<close>

definition update_head :: "int \<times> string \<Rightarrow> int \<times> string \<Rightarrow> store_db \<Rightarrow> nat \<times> store_db" where
  "update_head new old db =
     (if db_head db = Some old then (1, db\<lparr>db_head := Some new\<rparr>) else (0, db))"

section \<open>Reading\<close>

definition chain_head_from_connection :: "env \<Rightarrow> store_db \<Rightarrow> store_error + chain_head" where
  "chain_head_from_connection E db =
     res_bind (ok_or SeSqlite (db_head db)) (\<lambda>(sequence, d).
     res_bind (to_u64 sequence ''chain-head sequence'') (\<lambda>s.
     res_bind (store_digest_from_str E d) (\<lambda>d'. Ok \<lparr>ch_sequence = s, ch_digest = d'\<rparr>)))"

definition find_state :: "store_db \<Rightarrow> string \<Rightarrow> state_row option" where
  "find_state db e = List.find (\<lambda>r. ms_entity_id r = e) (db_states db)"

definition find_event :: "store_db \<Rightarrow> int \<Rightarrow> event_row option" where
  "find_event db n = List.find (\<lambda>r. ev_sequence r = n) (db_events db)"

definition materialized_revision :: "store_db \<Rightarrow> string \<Rightarrow> store_error + u64" where
  "materialized_revision db e =
     to_u64 (case find_state db e of Some r \<Rightarrow> ms_revision r | None \<Rightarrow> 0) ''materialized revision''"

record 'a materialized =
  mt_entity_id :: string
  mt_revision :: u64
  mt_state :: 'a
  mt_state_digest :: digest
  mt_last_event_sequence :: u64
  mt_last_event_digest :: digest

definition materialized_state :: "env \<Rightarrow> (json \<Rightarrow> string + 'a) \<Rightarrow> store_db \<Rightarrow> string
    \<Rightarrow> store_error + 'a materialized option" where
  "materialized_state E de db e =
     (case find_state db e of
        None \<Rightarrow> Ok None
      | Some r \<Rightarrow>
        res_bind (map_err SeInvalidStoredJson (res_bind (env_json_tree E (ms_state_jcs r)) de)) (\<lambda>state.
        res_bind (to_u64 (ms_revision r) ''materialized revision'') (\<lambda>revision.
        res_bind (store_digest_from_str E (ms_state_digest r)) (\<lambda>sd.
        res_bind (to_u64 (ms_last_event_sequence r) ''materialized event sequence'') (\<lambda>sequence.
        res_bind (store_digest_from_str E (ms_last_event_digest r)) (\<lambda>ed.
        Ok (Some \<lparr>mt_entity_id = e, mt_revision = revision, mt_state = state, mt_state_digest = sd,
          mt_last_event_sequence = sequence, mt_last_event_digest = ed\<rparr>)))))))"

definition entity_ids_after :: "store_db \<Rightarrow> string \<Rightarrow> string option \<Rightarrow> u32 \<Rightarrow> store_error + string list" where
  "entity_ids_after db pre after limit =
     res_bind (store_identifier ''entity_prefix'' pre 256) (\<lambda>_.
     res_bind (case after of None \<Rightarrow> Ok ()
       | Some cursor \<Rightarrow> res_bind (store_identifier ''entity_cursor'' cursor 256) (\<lambda>_.
           if \<not> starts_with pre cursor
           then Err (SeInvalidIdentifier ''entity_cursor'' ''must have the requested literal prefix'')
           else Ok ())) (\<lambda>_.
     if limit = 0 \<or> limit > 10000
     then Err (SeInvalidIdentifier ''entity_limit'' ''must be in 1..=10000'')
     else Ok (take (unat limit) (sort (filter
       (\<lambda>e. starts_with pre e \<and> (case after of None \<Rightarrow> True | Some cursor \<Rightarrow> cursor < e))
       (map ms_entity_id (db_states db)))))))"

definition entity_ids :: "store_db \<Rightarrow> string \<Rightarrow> u32 \<Rightarrow> store_error + string list" where
  "entity_ids db pre limit = entity_ids_after db pre None limit"

section \<open>Appending\<close>

record new_event =
  ne_event_id :: string
  ne_entity_id :: string
  ne_event_kind :: string
  ne_occurred_at_unix_ms :: int
  ne_payload :: json

record event_receipt =
  er_sequence :: u64
  er_event_id :: string
  er_previous_digest :: digest
  er_event_digest :: digest
  er_entity_revision :: u64
  er_state_digest :: digest

record event_hash_input =
  hi_sequence :: u64
  hi_event_id :: string
  hi_entity_id :: string
  hi_event_kind :: string
  hi_occurred_at_unix_ms :: int
  hi_previous_digest :: digest
  hi_payload_digest :: digest
  hi_state_digest :: digest

definition event_hash_fields :: "string list" where
  "event_hash_fields = [''sequence'', ''event_id'', ''entity_id'', ''event_kind'', ''occurred_at_unix_ms'',
     ''previous_digest'', ''payload_digest'', ''state_digest'']"

definition event_hash_json :: "event_hash_input \<Rightarrow> json" where
  "event_hash_json i = JObj (zip event_hash_fields
     [u64_json (hi_sequence i), JStr (hi_event_id i), JStr (hi_entity_id i), JStr (hi_event_kind i),
      JNum (hi_occurred_at_unix_ms i), digest_json (hi_previous_digest i), digest_json (hi_payload_digest i),
      digest_json (hi_state_digest i)])"

definition event_digest_for :: "env \<Rightarrow> event_hash_input \<Rightarrow> store_error + digest" where
  "event_digest_for E i = digest_jcs E ''ag-store-event-v1'' (event_hash_json i)"

definition payload_digest_of :: "env \<Rightarrow> bytes \<Rightarrow> digest" where
  "payload_digest_of E b = hash_domain E ''ag-store-event-payload-v1'' b"

definition state_digest_of :: "env \<Rightarrow> bytes \<Rightarrow> digest" where
  "state_digest_of E b = hash_domain E ''ag-store-materialized-state-v1'' b"

definition validate_event :: "new_event \<Rightarrow> store_error + unit" where
  "validate_event e =
     res_bind (store_identifier ''event_id'' (ne_event_id e) 256) (\<lambda>_.
     res_bind (store_identifier ''entity_id'' (ne_entity_id e) 256) (\<lambda>_.
     store_identifier ''event_kind'' (ne_event_kind e) 192))"

definition append_event_in_transaction :: "env \<Rightarrow> new_event \<Rightarrow> json \<Rightarrow> u64 \<Rightarrow> store_db
    \<Rightarrow> store_error + (event_receipt \<times> store_db)" where
  "append_event_in_transaction E event state expected_revision db =
     res_bind (validate_event event) (\<lambda>_.
     if list_ex (\<lambda>r. ev_event_id r = ne_event_id event) (db_events db)
     then Err (SeDuplicateEvent (ne_event_id event))
     else
     res_bind (chain_head_from_connection E db) (\<lambda>head.
     res_bind (materialized_revision db (ne_entity_id event)) (\<lambda>actual_revision.
     if actual_revision \<noteq> expected_revision
     then Err (SeRevisionConflict (ne_entity_id event) expected_revision actual_revision)
     else
     res_bind (ok_or (SeCorrupt ''entity revision overflow'') (checked_add_u64 actual_revision 1)) (\<lambda>entity_revision.
     res_bind (ok_or (SeCorrupt ''event sequence overflow'') (checked_add_u64 (ch_sequence head) 1)) (\<lambda>sequence.
     res_bind (store_jcs E (ne_payload event)) (\<lambda>payload_jcs.
     res_bind (store_jcs E state) (\<lambda>state_jcs.
     let payload_digest = payload_digest_of E payload_jcs; state_digest = state_digest_of E state_jcs in
     res_bind (event_digest_for E \<lparr>hi_sequence = sequence, hi_event_id = ne_event_id event,
         hi_entity_id = ne_entity_id event, hi_event_kind = ne_event_kind event,
         hi_occurred_at_unix_ms = ne_occurred_at_unix_ms event, hi_previous_digest = ch_digest head,
         hi_payload_digest = payload_digest, hi_state_digest = state_digest\<rparr>) (\<lambda>event_digest.
     res_bind (to_i64 sequence ''event sequence'') (\<lambda>seq.
     res_bind (insert_event \<lparr>ev_sequence = seq, ev_event_id = ne_event_id event,
         ev_entity_id = ne_entity_id event, ev_event_kind = ne_event_kind event,
         ev_occurred_at_unix_ms = ne_occurred_at_unix_ms event, ev_previous_digest = as_str (ch_digest head),
         ev_payload_jcs = payload_jcs, ev_payload_digest = as_str payload_digest,
         ev_state_digest = as_str state_digest, ev_event_digest = as_str event_digest\<rparr> db) (\<lambda>db1.
     res_bind (to_i64 entity_revision ''entity revision'') (\<lambda>rev.
     res_bind (upsert_state \<lparr>ms_entity_id = ne_entity_id event, ms_revision = rev, ms_state_jcs = state_jcs,
         ms_state_digest = as_str state_digest, ms_last_event_sequence = seq,
         ms_last_event_digest = as_str event_digest\<rparr> db1) (\<lambda>db2.
     res_bind (to_i64 (ch_sequence head) ''event sequence'') (\<lambda>old_seq.
     case update_head (seq, as_str event_digest) (old_seq, as_str (ch_digest head)) db2 of
       (changed, db3) \<Rightarrow>
         if changed \<noteq> 1 then Err (SeCorrupt ''event-chain CAS unexpectedly failed under writer fence'')
         else Ok (\<lparr>er_sequence = sequence, er_event_id = ne_event_id event,
           er_previous_digest = ch_digest head, er_event_digest = event_digest,
           er_entity_revision = entity_revision, er_state_digest = state_digest\<rparr>, db3))))))))))))))"

definition active_backup_cut :: "store_db \<Rightarrow> string option" where
  "active_backup_cut db =
     map_option cu_cut_id (List.find (\<lambda>c. cu_state c \<in> {''preparing'', ''prepared'', ''sealed''}) (db_cuts db))"

definition ensure_no_backup_barrier :: "store_db \<Rightarrow> store_error + unit" where
  "ensure_no_backup_barrier db =
     (case active_backup_cut db of Some c \<Rightarrow> Err (SeBackupBarrierActive c) | None \<Rightarrow> Ok ())"

definition append_event :: "env \<Rightarrow> new_event \<Rightarrow> json \<Rightarrow> u64 \<Rightarrow> store_db \<Rightarrow> (store_error + event_receipt) \<times> store_db" where
  "append_event E event state expected_revision db =
     (case validate_event event of Inl e \<Rightarrow> (Err e, db)
      | Inr _ \<Rightarrow> transaction (\<lambda>db. res_bind (ensure_no_backup_barrier db) (\<lambda>_.
          append_event_in_transaction E event state expected_revision db)) db)"

definition append_distinct_event_pair :: "env \<Rightarrow> new_event \<Rightarrow> json \<Rightarrow> u64 \<Rightarrow> new_event \<Rightarrow> json \<Rightarrow> u64 \<Rightarrow> store_db
    \<Rightarrow> (store_error + event_receipt \<times> event_receipt) \<times> store_db" where
  "append_distinct_event_pair E event1 state1 expected1 event2 state2 expected2 db =
     (case res_bind (validate_event event1) (\<lambda>_. res_bind (validate_event event2) (\<lambda>_.
        if ne_entity_id event1 = ne_entity_id event2
        then Err (SeInvalidIdentifier ''event_pair'' ''paired events must update distinct entities'') else Ok ())) of
        Inl e \<Rightarrow> (Err e, db)
      | Inr _ \<Rightarrow> transaction (\<lambda>db.
          res_bind (ensure_no_backup_barrier db) (\<lambda>_.
          res_bind (append_event_in_transaction E event1 state1 expected1 db) (\<lambda>(first, db1).
          res_bind (append_event_in_transaction E event2 state2 expected2 db1) (\<lambda>(second, db2).
          Ok ((first, second), db2))))) db)"

definition event_receipt_by_sequence :: "env \<Rightarrow> store_db \<Rightarrow> int \<Rightarrow> store_error + event_receipt" where
  "event_receipt_by_sequence E db n =
     res_bind (ok_or SeSqlite (find_event db n)) (\<lambda>r.
     let revision = int (length (filter (\<lambda>x. ev_entity_id x = ev_entity_id r \<and> ev_sequence x \<le> n) (db_events db))) in
     res_bind (to_u64 n ''event sequence'') (\<lambda>sequence.
     res_bind (store_digest_from_str E (ev_previous_digest r)) (\<lambda>previous.
     res_bind (store_digest_from_str E (ev_event_digest r)) (\<lambda>event_digest.
     res_bind (to_u64 revision ''entity revision'') (\<lambda>entity_revision.
     res_bind (store_digest_from_str E (ev_state_digest r)) (\<lambda>state_digest.
     Ok \<lparr>er_sequence = sequence, er_event_id = ev_event_id r, er_previous_digest = previous,
        er_event_digest = event_digest, er_entity_revision = entity_revision,
        er_state_digest = state_digest\<rparr>))))))"

section \<open>Verification\<close>

text \<open>The loop over the event rows; \<open>Ok\<close> carries the expected predecessor and sequence.\<close>

fun verify_events :: "env \<Rightarrow> digest \<Rightarrow> u64 \<Rightarrow> event_row list \<Rightarrow> store_error + (digest \<times> u64)" where
  "verify_events E previous sequence [] = Ok (previous, sequence)"
| "verify_events E previous sequence (r # rs) =
     res_bind (to_u64 (ev_sequence r) ''event sequence'') (\<lambda>s.
     if s \<noteq> sequence then Err (SeCorrupt ''event sequence gap'')
     else
     res_bind (store_digest_from_str E (ev_previous_digest r)) (\<lambda>pd.
     res_bind (verify_canonical_stored_json E (ev_payload_jcs r) ''event payload'') (\<lambda>_.
     res_bind (store_digest_from_str E (ev_payload_digest r)) (\<lambda>payd.
     res_bind (store_digest_from_str E (ev_state_digest r)) (\<lambda>sd.
     res_bind (store_digest_from_str E (ev_event_digest r)) (\<lambda>ed.
     if pd \<noteq> previous then Err (SeCorrupt ''event predecessor does not match chain'')
     else if payload_digest_of E (ev_payload_jcs r) \<noteq> payd then Err (SeCorrupt ''event payload digest mismatch'')
     else
     res_bind (event_digest_for E \<lparr>hi_sequence = s, hi_event_id = ev_event_id r, hi_entity_id = ev_entity_id r,
         hi_event_kind = ev_event_kind r, hi_occurred_at_unix_ms = ev_occurred_at_unix_ms r,
         hi_previous_digest = pd, hi_payload_digest = payd, hi_state_digest = sd\<rparr>) (\<lambda>actual.
     if actual \<noteq> ed then Err (SeCorrupt ''event digest mismatch'')
     else verify_events E ed (sequence + 1) rs)))))))"

definition verify_state :: "env \<Rightarrow> store_db \<Rightarrow> state_row \<Rightarrow> store_error + unit" where
  "verify_state E db r =
     res_bind (verify_canonical_stored_json E (ms_state_jcs r) ''materialized state'') (\<lambda>_.
     res_bind (store_digest_from_str E (ms_state_digest r)) (\<lambda>sd.
     res_bind (store_digest_from_str E (ms_last_event_digest r)) (\<lambda>ed.
     if state_digest_of E (ms_state_jcs r) \<noteq> sd then Err (SeCorrupt ''materialized state digest mismatch'')
     else if map_option (\<lambda>x. (ev_entity_id x, ev_state_digest x, ev_event_digest x))
         (find_event db (ms_last_event_sequence r)) \<noteq> Some (ms_entity_id r, as_str sd, as_str ed)
     then Err (SeCorrupt ''materialized state event binding mismatch'') else Ok ())))"

definition verify_chain_connection :: "env \<Rightarrow> store_db \<Rightarrow> store_identity \<Rightarrow> store_error + chain_head" where
  "verify_chain_connection E db identity =
     res_bind (genesis_digest E identity) (\<lambda>genesis.
     res_bind (verify_events E genesis 1 (sort_key ev_sequence (db_events db))) (\<lambda>(previous, sequence).
     res_bind (chain_head_from_connection E db) (\<lambda>head.
     if ch_sequence head \<noteq> sequence - 1 \<or> ch_digest head \<noteq> previous
     then Err (SeCorrupt ''persisted chain head does not match event chain'')
     else res_bind (try_for_each (verify_state E db) (db_states db)) (\<lambda>_. Ok head))))"

section \<open>Opening\<close>

definition activation_fields :: "string list" where
  "activation_fields = [''schema'', ''authority_domain'', ''epoch'', ''config_identity'',
     ''security_profile_identity'', ''build_identity'', ''authority_catalog_identity'']"

definition activation_json :: "activation_identity \<Rightarrow> json" where
  "activation_json a = JObj (zip activation_fields
     [JStr (ai_schema a), JStr (domain_str (ai_authority_domain a)), epoch_json (ai_epoch a),
      digest_json (ai_config_identity a), digest_json (ai_security_profile_identity a),
      digest_json (ai_build_identity a), option_json digest_json (ai_authority_catalog_identity a)])"

text \<open>A missing optional member reads as \<open>null\<close>.\<close>

definition with_optional :: "string \<Rightarrow> json \<Rightarrow> json" where
  "with_optional f j =
     (case j of
        JObj ms \<Rightarrow> if list_ex (\<lambda>m. fst m = f) ms then j else JObj (ms @ [(f, JNull)])
      | _ \<Rightarrow> j)"

definition option_deserialize :: "(json \<Rightarrow> string + 'a) \<Rightarrow> json \<Rightarrow> string + 'a option" where
  "option_deserialize de j = (case j of JNull \<Rightarrow> Ok None | _ \<Rightarrow> res_bind (de j) (\<lambda>x. Ok (Some x)))"

definition activation_deserialize :: "env \<Rightarrow> json \<Rightarrow> string + activation_identity" where
  "activation_deserialize E j =
     res_bind (struct_fields activation_fields (with_optional ''authority_catalog_identity'' j)) (\<lambda>vs.
     res_bind (string_deserialize (vs ! 0)) (\<lambda>schema.
     res_bind (text_deserialize authority_domain_new (vs ! 1)) (\<lambda>authority_domain.
     res_bind (epoch_deserialize (vs ! 2)) (\<lambda>epoch.
     res_bind (digest_deserialize E (vs ! 3)) (\<lambda>config.
     res_bind (digest_deserialize E (vs ! 4)) (\<lambda>profile.
     res_bind (digest_deserialize E (vs ! 5)) (\<lambda>build.
     res_bind (option_deserialize (digest_deserialize E) (vs ! 6)) (\<lambda>catalog.
     Ok \<lparr>ai_schema = schema, ai_authority_domain = authority_domain, ai_epoch = epoch,
       ai_config_identity = config, ai_security_profile_identity = profile, ai_build_identity = build,
       ai_authority_catalog_identity = catalog\<rparr>))))))))"

definition activation_digest_of :: "env \<Rightarrow> bytes \<Rightarrow> digest" where
  "activation_digest_of E b = hash_domain E ''ag-store-activation-identity-v1'' b"

definition insert_activation :: "env \<Rightarrow> activation_identity \<Rightarrow> int \<Rightarrow> store_db \<Rightarrow> store_error + store_db" where
  "insert_activation E a at db =
     res_bind (activation_validate a) (\<lambda>_.
     res_bind (store_jcs E (activation_json a)) (\<lambda>b.
     if db_activation db \<noteq> None then Err SeSqlite
     else Ok (db\<lparr>db_activation := Some (b, as_str (activation_digest_of E b), at)\<rparr>)))"

definition load_activation :: "env \<Rightarrow> store_db \<Rightarrow> store_error + activation_record option" where
  "load_activation E db =
     (case db_activation db of
        None \<Rightarrow> Ok None
      | Some (b, stored, at) \<Rightarrow>
        res_bind (verify_canonical_stored_json E b ''store activation identity'') (\<lambda>_.
        res_bind (map_err SeInvalidStoredJson (res_bind (env_json_tree E b) (activation_deserialize E))) (\<lambda>identity.
        res_bind (activation_validate identity) (\<lambda>_.
        res_bind (store_digest_from_str E stored) (\<lambda>stored_digest.
        if stored_digest \<noteq> activation_digest_of E b
        then Err (SeCorrupt ''store activation digest does not match canonical identity bytes'')
        else Ok (Some \<lparr>ar_identity = identity, ar_activation_digest = stored_digest,
          ar_activated_at_unix_ms = at\<rparr>))))))"

text \<open>The initialising transaction; a database without the schema holds no row to keep.\<close>

definition install_schema :: "env \<Rightarrow> store_identity \<Rightarrow> (activation_identity \<times> int) option \<Rightarrow> store_error + store_db" where
  "install_schema E expected expected_activation =
     (let db = db_new\<lparr>db_schema := True, db_pragma_application := si_application_id expected,
        db_pragma_version := si_schema_version expected,
        db_identity := Some \<lparr>ir_application_id = si_application_id expected,
          ir_application_name = si_application_name expected, ir_schema_name = si_schema_name expected,
          ir_schema_version = si_schema_version expected, ir_schema_digest = as_str (si_schema_digest expected)\<rparr>\<rparr> in
      res_bind (genesis_digest E expected) (\<lambda>genesis.
      let db = db\<lparr>db_head := Some (0, as_str genesis)\<rparr> in
      case expected_activation of
        Some (a, at) \<Rightarrow> insert_activation E a at db
      | None \<Rightarrow> Ok db))"

definition identity_row_read :: "env \<Rightarrow> store_db \<Rightarrow> store_error + store_identity" where
  "identity_row_read E db =
     res_bind (ok_or SeSqlite (db_identity db)) (\<lambda>r.
     res_bind (store_digest_from_str E (ir_schema_digest r)) (\<lambda>d.
     Ok \<lparr>si_application_id = ir_application_id r, si_application_name = ir_application_name r,
       si_schema_name = ir_schema_name r, si_schema_version = ir_schema_version r, si_schema_digest = d\<rparr>))"

definition validate_installed :: "env \<Rightarrow> store_identity \<Rightarrow> (activation_identity \<times> int) option \<Rightarrow> bool \<Rightarrow> store_db
    \<Rightarrow> store_error + activation_record option" where
  "validate_installed E expected expected_activation allow_initialization db =
     res_bind (map_err (\<lambda>_. SeSqlite) (identity_row_read E db)) (\<lambda>actual.
     if actual \<noteq> expected \<or> db_pragma_application db \<noteq> si_application_id expected \<or>
       db_pragma_version db \<noteq> si_schema_version expected
     then Err (SeIdentityMismatch expected actual)
     else
     res_bind (load_activation E db) (\<lambda>actual_activation.
     case (expected_activation, actual_activation) of
       (None, None) \<Rightarrow> if allow_initialization then Ok None else Err SeActivationIdentityMissing
     | (Some _, None) \<Rightarrow> Err SeActivationIdentityMissing
     | (Some (e, _), Some a) \<Rightarrow>
         if ar_identity a \<noteq> e then Err (SeActivationIdentityMismatch e (ar_identity a)) else Ok (Some a)
     | (None, Some _) \<Rightarrow> Err SeActivationIdentityRequired))"

definition initialize_or_validate :: "env \<Rightarrow> store_identity \<Rightarrow> (activation_identity \<times> int) option \<Rightarrow> bool
    \<Rightarrow> store_db \<Rightarrow> (store_error + activation_record option) \<times> store_db" where
  "initialize_or_validate E expected expected_activation allow_initialization db =
     (if db_schema db then (validate_installed E expected expected_activation allow_initialization db, db)
      else if \<not> allow_initialization then (Err SeUnrecognizedExistingDatabase, db)
      else case install_schema E expected expected_activation of
          Inl e \<Rightarrow> (Err e, db)
        | Inr db' \<Rightarrow> (validate_installed E expected expected_activation allow_initialization db', db'))"

definition claim_writer :: "writer_identity \<Rightarrow> store_db \<Rightarrow> store_db" where
  "claim_writer w db = db\<lparr>db_writer := Some
     (case db_writer db of Some (generation, _) \<Rightarrow> generation + 1 | None \<Rightarrow> 1,
      wi_writer_id w, as_str (wi_principal_digest w), wi_process_nonce w, wi_claimed_at_unix_ms w)\<rparr>"

text \<open>
  The database part of \<open>open_prepared_internal\<close>: \<open>created_new\<close> says that the preparation of the
  file created it.  The checks of the inode and the writer lock are outside the model.
\<close>

definition open_prepared_internal :: "env \<Rightarrow> bool \<Rightarrow> store_identity \<Rightarrow> activation_identity option \<Rightarrow> writer_identity
    \<Rightarrow> store_db \<Rightarrow> (store_error + activation_record option) \<times> store_db" where
  "open_prepared_internal E created_new identity activation writer db =
     (case initialize_or_validate E identity
        (map_option (\<lambda>a. (a, wi_claimed_at_unix_ms writer)) activation) created_new db of
        (Inl e, db') \<Rightarrow> (Err e, db')
      | (Inr a, db') \<Rightarrow> (Ok a, claim_writer writer db'))"

definition store_open :: "env \<Rightarrow> bytes \<Rightarrow> bool \<Rightarrow> store_identity \<Rightarrow> writer_identity \<Rightarrow> store_db
    \<Rightarrow> (store_error + activation_record option) \<times> store_db" where
  "store_open E sql created_new identity writer db =
     (case res_bind (store_identity_validate E sql identity) (\<lambda>_. writer_validate writer) of
        Inl e \<Rightarrow> (Err e, db)
      | Inr _ \<Rightarrow> open_prepared_internal E created_new identity None writer db)"

definition store_open_activated :: "env \<Rightarrow> bytes \<Rightarrow> bool \<Rightarrow> store_identity \<Rightarrow> activation_identity \<Rightarrow> writer_identity
    \<Rightarrow> store_db \<Rightarrow> (store_error + activation_record option) \<times> store_db" where
  "store_open_activated E sql created_new identity activation writer db =
     (case res_bind (store_identity_validate E sql identity) (\<lambda>_.
        res_bind (activation_validate activation) (\<lambda>_. writer_validate writer)) of
        Inl e \<Rightarrow> (Err e, db)
      | Inr _ \<Rightarrow> open_prepared_internal E created_new identity (Some activation) writer db)"

definition read_store_identity :: "env \<Rightarrow> bytes \<Rightarrow> store_db \<Rightarrow> store_error + store_identity" where
  "read_store_identity E sql db =
     res_bind (identity_row_read E db) (\<lambda>identity.
     res_bind (store_identity_validate E sql identity) (\<lambda>_.
     if db_pragma_application db \<noteq> si_application_id identity \<or> db_pragma_version db \<noteq> si_schema_version identity
     then Err (SeCorrupt ''SQLite pragma identity disagrees with stored identity'') else Ok identity))"

section \<open>Reading back what was written\<close>

lemma to_i64_iff: "to_i64 v f = Inr n \<longleftrightarrow> uint v < 2 ^ 63 \<and> n = uint v"
  by (auto simp: to_i64_def)

lemma to_u64_iff: "to_u64 n f = Inr v \<longleftrightarrow> 0 \<le> n \<and> v = word_of_int n"
  by (auto simp: to_u64_def)

lemma to_u64_uint [simp]: "to_u64 (uint v) f = Inr v"
  by (simp add: to_u64_def)

lemma store_digest_iff:
  "codec_ok E \<Longrightarrow> store_digest_from_str E s = Inr d \<longleftrightarrow> d = Digest s \<and> digest_text s"
  using digest_parse_exact [of E s d] by (simp add: store_digest_from_str_def ag_check)

lemma store_digest_text:
  "codec_ok E \<Longrightarrow> digest_text (as_str d) \<Longrightarrow> store_digest_from_str E (as_str d) = Inr d"
  by (simp add: store_digest_iff)

lemma store_digest_hash [simp]:
  "codec_ok E \<Longrightarrow> store_digest_from_str E (as_str (hash_domain E k b)) = Inr (hash_domain E k b)"
  by (simp add: store_digest_iff hash_domain_text)

lemma canonical_stored:
  assumes "printing_reads_back E v" and "canonicalize E v = Inr b"
  shows "verify_canonical_stored_json E b label = Inr ()"
proof -
  from assms(2) obtain e s where e: "env_jcs_to_vec E v = Inr e" "parse_strict_value E e = Inr s"
    and b: "env_jcs_to_vec E s = Inr b"
    by (auto simp: canonicalize_def ag_check)
  from assms(1) e have s: "strict_value v = Inr s"
    by (auto simp: printing_reads_back_def reads_back_def parse_strict_value_def ag_check)
  with assms(1) b obtain u where u: "env_json_tree E b = Inr u" "strict_value u = strict_value s"
    by (auto simp: printing_reads_back_def reads_back_def)
  have "strict_value s = Inr s" by (rule strict_stable(1) [OF strict_result_strict(1) [OF s]])
  with u b have "from_canonical_bytes E b = Inr b"
    by (simp add: from_canonical_bytes_def jcs_parse_def parse_strict_value_def)
  then show ?thesis by (simp add: verify_canonical_stored_json_def)
qed

lemma find_append: "List.find P (xs @ ys) = (case List.find P xs of Some x \<Rightarrow> Some x | None \<Rightarrow> List.find P ys)"
  by (induction xs) auto

lemma verify_events_append:
  "verify_events E p s (rs @ qs) = res_bind (verify_events E p s rs) (\<lambda>(p', s'). verify_events E p' s' qs)"
proof (induction rs arbitrary: p s)
  case (Cons r rs)
  then show ?case
    by (simp add: res_bind_def split: sum.split)
qed simp

lemma verify_events_count: "verify_events E p s rs = Inr (p', s') \<Longrightarrow> s' = s + of_nat (length rs)"
proof (induction rs arbitrary: p s)
  case (Cons r rs)
  then obtain d where "verify_events E d (s + 1) rs = Inr (p', s')"
    by (auto simp: ag_check split: if_splits)
  from Cons.IH [OF this] show ?case by simp
qed simp

section \<open>Appending\<close>

text \<open>The row and state that an append writes.\<close>

definition appended_row :: "env \<Rightarrow> new_event \<Rightarrow> bytes \<Rightarrow> bytes \<Rightarrow> event_receipt \<Rightarrow> event_row" where
  "appended_row E event payload_jcs state_jcs r =
     \<lparr>ev_sequence = uint (er_sequence r), ev_event_id = ne_event_id event, ev_entity_id = ne_entity_id event,
      ev_event_kind = ne_event_kind event, ev_occurred_at_unix_ms = ne_occurred_at_unix_ms event,
      ev_previous_digest = as_str (er_previous_digest r), ev_payload_jcs = payload_jcs,
      ev_payload_digest = as_str (payload_digest_of E payload_jcs),
      ev_state_digest = as_str (state_digest_of E state_jcs), ev_event_digest = as_str (er_event_digest r)\<rparr>"

definition appended_state :: "env \<Rightarrow> new_event \<Rightarrow> bytes \<Rightarrow> event_receipt \<Rightarrow> state_row" where
  "appended_state E event state_jcs r =
     \<lparr>ms_entity_id = ne_entity_id event, ms_revision = uint (er_entity_revision r), ms_state_jcs = state_jcs,
      ms_state_digest = as_str (state_digest_of E state_jcs), ms_last_event_sequence = uint (er_sequence r),
      ms_last_event_digest = as_str (er_event_digest r)\<rparr>"

lemma append_in_transaction_Ok:
  assumes "append_event_in_transaction E event state expected db = Inr (r, db')"
  shows "\<exists>head payload_jcs state_jcs db1 db2.
    validate_event event = Inr () \<and>
    (\<forall>x \<in> set (db_events db). ev_event_id x \<noteq> ne_event_id event) \<and>
    chain_head_from_connection E db = Inr head \<and>
    materialized_revision db (ne_entity_id event) = Inr expected \<and>
    unat expected + 1 < 2 ^ 64 \<and>
    unat (er_entity_revision r) = unat expected + 1 \<and>
    unat (er_sequence r) = unat (ch_sequence head) + 1 \<and>
    uint (er_sequence r) < 2 ^ 63 \<and>
    uint (er_entity_revision r) < 2 ^ 63 \<and>
    canonicalize E (ne_payload event) = Inr payload_jcs \<and>
    canonicalize E state = Inr state_jcs \<and>
    er_event_id r = ne_event_id event \<and>
    er_previous_digest r = ch_digest head \<and>
    er_state_digest r = state_digest_of E state_jcs \<and>
    event_digest_for E \<lparr>hi_sequence = er_sequence r, hi_event_id = ne_event_id event,
         hi_entity_id = ne_entity_id event, hi_event_kind = ne_event_kind event,
         hi_occurred_at_unix_ms = ne_occurred_at_unix_ms event, hi_previous_digest = ch_digest head,
         hi_payload_digest = payload_digest_of E payload_jcs, hi_state_digest = state_digest_of E state_jcs\<rparr> =
       Inr (er_event_digest r) \<and>
    insert_event (appended_row E event payload_jcs state_jcs r) db = Inr db1 \<and>
    upsert_state (appended_state E event state_jcs r) db1 = Inr db2 \<and>
    db_head db2 = Some (uint (ch_sequence head), as_str (ch_digest head)) \<and>
    db' = db2\<lparr>db_head := Some (uint (er_sequence r), as_str (er_event_digest r))\<rparr>"
proof -
  from assms obtain head rev sequence payload_jcs state_jcs ed db1 db2 where
    a: "validate_event event = Inr ()" "\<forall>x \<in> set (db_events db). ev_event_id x \<noteq> ne_event_id event"
      "chain_head_from_connection E db = Inr head" "materialized_revision db (ne_entity_id event) = Inr expected"
      "checked_add_u64 expected 1 = Some rev" "checked_add_u64 (ch_sequence head) 1 = Some sequence"
      "canonicalize E (ne_payload event) = Inr payload_jcs" "canonicalize E state = Inr state_jcs"
    and b: "event_digest_for E \<lparr>hi_sequence = sequence, hi_event_id = ne_event_id event,
         hi_entity_id = ne_entity_id event, hi_event_kind = ne_event_kind event,
         hi_occurred_at_unix_ms = ne_occurred_at_unix_ms event, hi_previous_digest = ch_digest head,
         hi_payload_digest = payload_digest_of E payload_jcs, hi_state_digest = state_digest_of E state_jcs\<rparr> = Inr ed"
      "to_i64 sequence ''event sequence'' = Inr (uint sequence)" "to_i64 rev ''entity revision'' = Inr (uint rev)"
    and c: "insert_event \<lparr>ev_sequence = uint sequence, ev_event_id = ne_event_id event,
         ev_entity_id = ne_entity_id event, ev_event_kind = ne_event_kind event,
         ev_occurred_at_unix_ms = ne_occurred_at_unix_ms event, ev_previous_digest = as_str (ch_digest head),
         ev_payload_jcs = payload_jcs, ev_payload_digest = as_str (payload_digest_of E payload_jcs),
         ev_state_digest = as_str (state_digest_of E state_jcs), ev_event_digest = as_str ed\<rparr> db = Inr db1"
      "upsert_state \<lparr>ms_entity_id = ne_entity_id event, ms_revision = uint rev, ms_state_jcs = state_jcs,
         ms_state_digest = as_str (state_digest_of E state_jcs), ms_last_event_sequence = uint sequence,
         ms_last_event_digest = as_str ed\<rparr> db1 = Inr db2"
      "db_head db2 = Some (uint (ch_sequence head), as_str (ch_digest head))"
      "db' = db2\<lparr>db_head := Some (uint sequence, as_str ed)\<rparr>"
    and r: "r = \<lparr>er_sequence = sequence, er_event_id = ne_event_id event,
           er_previous_digest = ch_digest head, er_event_digest = ed,
           er_entity_revision = rev, er_state_digest = state_digest_of E state_jcs\<rparr>"
    by (auto simp: append_event_in_transaction_def ag_check Let_def to_i64_iff store_jcs_def list_ex_iff
        update_head_def ok_or_def split: if_splits option.splits)
  from a(5,6) have "unat expected + 1 < 2 ^ 64 \<and> unat rev = unat expected + 1 \<and>
      unat sequence = unat (ch_sequence head) + 1"
    by (simp add: checked_add_u64_Some_iff)
  with a b c show ?thesis
    by (intro exI [of _ head] exI [of _ payload_jcs] exI [of _ state_jcs] exI [of _ db1] exI [of _ db2] conjI)
      (simp_all add: r appended_row_def appended_state_def to_i64_iff)
qed

text \<open>What the two statements of an append do to the tables.\<close>

lemma insert_event_Ok:
  "insert_event r db = Inr db' \<longleftrightarrow> 0 < ev_sequence r \<and>
     (\<forall>x \<in> set (db_events db). ev_sequence x \<noteq> ev_sequence r \<and> ev_event_id x \<noteq> ev_event_id r \<and>
        ev_event_digest x \<noteq> ev_event_digest r) \<and> db' = db\<lparr>db_events := db_events db @ [r]\<rparr>"
  by (auto simp: insert_event_def list_ex_iff)

definition replace_state :: "state_row \<Rightarrow> state_row list \<Rightarrow> state_row list" where
  "replace_state r rows =
     (if list_ex (\<lambda>x. ms_entity_id x = ms_entity_id r) rows
      then map (\<lambda>x. if ms_entity_id x = ms_entity_id r then r else x) rows else rows @ [r])"

lemma upsert_state_Ok:
  "upsert_state r db = Inr db' \<Longrightarrow> db' = db\<lparr>db_states := replace_state r (db_states db)\<rparr>"
  by (auto simp: upsert_state_def replace_state_def split: if_splits)

lemma replace_state_ids:
  "distinct (map ms_entity_id rows) \<Longrightarrow> distinct (map ms_entity_id (replace_state r rows))"
proof -
  assume d: "distinct (map ms_entity_id rows)"
  have "map ms_entity_id (map (\<lambda>x. if ms_entity_id x = ms_entity_id r then r else x) rows) = map ms_entity_id rows"
    by (induction rows) auto
  with d show ?thesis by (auto simp: replace_state_def list_ex_iff image_iff simp del: map_map)
qed

lemma replace_state_set:
  "set (replace_state r rows) = insert r {x \<in> set rows. ms_entity_id x \<noteq> ms_entity_id r}"
  by (auto simp: replace_state_def list_ex_iff)

lemma replace_state_find:
  "List.find (\<lambda>x. ms_entity_id x = e) (replace_state r rows) =
     (if e = ms_entity_id r then Some r else List.find (\<lambda>x. ms_entity_id x = e) rows)"
proof (cases "list_ex (\<lambda>x. ms_entity_id x = ms_entity_id r) rows")
  case True
  have "List.find (\<lambda>x. ms_entity_id x = e) (map (\<lambda>x. if ms_entity_id x = ms_entity_id r then r else x) rows) =
      (if e = ms_entity_id r then if list_ex (\<lambda>x. ms_entity_id x = ms_entity_id r) rows then Some r else None
       else List.find (\<lambda>x. ms_entity_id x = e) rows)"
    by (induction rows) auto
  with True show ?thesis by (simp add: replace_state_def)
next
  case False
  then have "List.find (\<lambda>x. ms_entity_id x = ms_entity_id r) rows = None"
    by (auto simp: find_None_iff list_ex_iff)
  with False show ?thesis by (auto simp: replace_state_def find_append split: option.split)
qed

lemma append_in_transaction_tables:
  assumes "append_event_in_transaction E event state expected db = Inr (r, db')"
  obtains payload_jcs state_jcs where
    "canonicalize E (ne_payload event) = Inr payload_jcs" and "canonicalize E state = Inr state_jcs"
    and "db' = db\<lparr>db_events := db_events db @ [appended_row E event payload_jcs state_jcs r],
      db_states := replace_state (appended_state E event state_jcs r) (db_states db),
      db_head := Some (uint (er_sequence r), as_str (er_event_digest r))\<rparr>"
proof -
  from append_in_transaction_Ok [OF assms] obtain payload_jcs state_jcs db1 db2
    where "canonicalize E (ne_payload event) = Inr payload_jcs" "canonicalize E state = Inr state_jcs"
      "insert_event (appended_row E event payload_jcs state_jcs r) db = Inr db1"
      "upsert_state (appended_state E event state_jcs r) db1 = Inr db2"
      "db' = db2\<lparr>db_head := Some (uint (er_sequence r), as_str (er_event_digest r))\<rparr>"
    by blast
  then show thesis by (intro that) (auto simp: insert_event_Ok dest!: upsert_state_Ok)
qed

section \<open>The store invariant\<close>

text \<open>
  Events are numbered from one without gaps, every entity has one state row whose revision is the
  number of its events, and the whole database verifies.
\<close>

definition entity_events :: "store_db \<Rightarrow> string \<Rightarrow> nat" where
  "entity_events db e = length (filter (\<lambda>x. ev_entity_id x = e) (db_events db))"

definition store_numbered :: "store_db \<Rightarrow> bool" where
  "store_numbered db \<longleftrightarrow>
     map ev_sequence (db_events db) = map int [1..<Suc (length (db_events db))] \<and>
     int (length (db_events db)) < 2 ^ 63 \<and>
     map_option fst (db_head db) = Some (int (length (db_events db))) \<and>
     distinct (map ms_entity_id (db_states db)) \<and>
     (\<forall>e. (case find_state db e of Some r \<Rightarrow> ms_revision r | None \<Rightarrow> 0) = int (entity_events db e))"

definition store_ok :: "env \<Rightarrow> store_identity \<Rightarrow> store_db \<Rightarrow> bool" where
  "store_ok E identity db \<longleftrightarrow> store_numbered db \<and> is_ok (verify_chain_connection E db identity)"

lemma numbered_sorted: "store_numbered db \<Longrightarrow> sort_key ev_sequence (db_events db) = db_events db"
proof -
  assume "store_numbered db"
  then have "map ev_sequence (db_events db) = map int [1..<Suc (length (db_events db))]"
    by (simp only: store_numbered_def)
  moreover have "sorted (map int [1..<Suc n])" for n
    by (simp add: sorted_map del: upt_Suc)
  ultimately have "sorted (map ev_sequence (db_events db))" by (simp only:)
  then show ?thesis by (rule sort_key_id_if_sorted)
qed

lemma numbered_sequences:
  "store_numbered db \<Longrightarrow> ev_sequence ` set (db_events db) = {1..int (length (db_events db))}"
proof -
  assume "store_numbered db"
  then have "set (map ev_sequence (db_events db)) = set (map int [1..<Suc (length (db_events db))])"
    by (simp only: store_numbered_def)
  also have "\<dots> = {1..int (length (db_events db))}"
  proof -
    have "int ` {1..<Suc n} = {1..int n}" for n
      using image_int_atLeastAtMost [of 1 n] by (simp add: atLeastLessThanSuc_atLeastAtMost)
    then show ?thesis by (simp del: upt_Suc)
  qed
  finally show ?thesis by simp
qed


lemma small_int_word: "0 \<le> n \<Longrightarrow> n < 2 ^ 63 \<Longrightarrow> uint (word_of_int n :: u64) = n"
  by (simp add: uint_word_of_int)

lemma small_nat_word: "n < 2 ^ 63 \<Longrightarrow> uint (word_of_nat n :: u64) = int n"
  using small_int_word [of "int n"] by simp

lemma numbered_head:
  assumes "store_numbered db" and "chain_head_from_connection E db = Inr h"
  shows "uint (ch_sequence h) = int (length (db_events db))"
    and "codec_ok E \<Longrightarrow> db_head db = Some (uint (ch_sequence h), as_str (ch_digest h)) \<and> digest_text (as_str (ch_digest h))"
proof -
  from assms obtain d where d: "db_head db = Some (int (length (db_events db)), d)"
    by (auto simp: store_numbered_def)
  have "int (length (db_events db)) < 2 ^ 63" using assms(1) by (simp add: store_numbered_def)
  with d assms(2) show n: "uint (ch_sequence h) = int (length (db_events db))"
    by (auto simp: chain_head_from_connection_def ag_check to_u64_iff small_nat_word)
  show "codec_ok E \<Longrightarrow> db_head db = Some (uint (ch_sequence h), as_str (ch_digest h)) \<and> digest_text (as_str (ch_digest h))"
    using d n assms(2) by (auto simp: chain_head_from_connection_def ag_check store_digest_iff)
qed

lemma entity_events_le: "entity_events db e \<le> length (db_events db)"
  by (simp add: entity_events_def)

lemma numbered_revision:
  assumes "store_numbered db" and "materialized_revision db e = Inr v"
  shows "uint v = int (entity_events db e)"
proof -
  have "int (entity_events db e) < 2 ^ 63"
    using assms(1) entity_events_le [of db e] by (simp add: store_numbered_def)
  moreover have "(case find_state db e of Some r \<Rightarrow> ms_revision r | None \<Rightarrow> 0) = int (entity_events db e)"
    using assms(1) by (simp add: store_numbered_def)
  ultimately show ?thesis
    using assms(2) by (simp add: materialized_revision_def to_u64_iff small_nat_word)
qed

lemma append_numbered:
  assumes ok: "store_numbered db" and a: "append_event_in_transaction E event state expected db = Inr (r, db')"
  shows "store_numbered db' \<and> uint (er_sequence r) = int (length (db_events db)) + 1 \<and>
    uint (er_entity_revision r) = int (entity_events db (ne_entity_id event)) + 1"
proof -
  obtain p q where db': "db' = db\<lparr>db_events := db_events db @ [appended_row E event p q r],
      db_states := replace_state (appended_state E event q r) (db_states db),
      db_head := Some (uint (er_sequence r), as_str (er_event_digest r))\<rparr>"
    using append_in_transaction_tables [OF a] by blast
  from append_in_transaction_Ok [OF a] obtain head where head: "chain_head_from_connection E db = Inr head"
    and rev: "materialized_revision db (ne_entity_id event) = Inr expected"
    and nat: "unat (er_entity_revision r) = unat expected + 1" "unat (er_sequence r) = unat (ch_sequence head) + 1"
    and bound: "uint (er_sequence r) < 2 ^ 63"
    by blast
  from nat [THEN arg_cong [of _ _ int]]
  have int: "uint (er_entity_revision r) = uint expected + 1" "uint (er_sequence r) = uint (ch_sequence head) + 1"
    by simp_all
  then have seq: "uint (er_sequence r) = int (length (db_events db)) + 1"
    and rv: "uint (er_entity_revision r) = int (entity_events db (ne_entity_id event)) + 1"
    using numbered_head(1) [OF ok head] numbered_revision [OF ok rev] by simp_all
  have "map ev_sequence (db_events db') = map int [1..<Suc (length (db_events db'))]"
    using ok seq by (simp add: db' store_numbered_def appended_row_def)
  moreover have "distinct (map ms_entity_id (db_states db'))"
    using ok replace_state_ids by (simp add: db' store_numbered_def)
  moreover have "(case find_state db' e of Some r \<Rightarrow> ms_revision r | None \<Rightarrow> 0) = int (entity_events db' e)" for e
  proof -
    have "(case find_state db e of Some r \<Rightarrow> ms_revision r | None \<Rightarrow> 0) = int (entity_events db e)"
      using ok by (simp add: store_numbered_def)
    then show ?thesis
      using rv by (simp add: db' find_state_def replace_state_find entity_events_def appended_row_def appended_state_def)
  qed
  ultimately show ?thesis using seq rv bound by (simp add: store_numbered_def db')
qed

lemma event_digest_text:
  "codec_ok E \<Longrightarrow> event_digest_for E i = Inr d \<Longrightarrow> store_digest_from_str E (as_str d) = Inr d"
  by (auto simp: event_digest_for_def digest_jcs_def ag_check)

lemma verify_chain_iff:
  assumes "store_numbered db"
  shows "verify_chain_connection E db identity = Inr head \<longleftrightarrow>
    (\<exists>g. genesis_digest E identity = Inr g \<and>
       verify_events E g 1 (db_events db) = Inr (ch_digest head, ch_sequence head + 1)) \<and>
    chain_head_from_connection E db = Inr head \<and> (\<forall>r \<in> set (db_states db). verify_state E db r = Inr ())"
  unfolding verify_chain_connection_def numbered_sorted [OF assms]
  by (auto simp: ag_check eq_diff_eq split: if_splits)

lemma verify_state_iff:
  assumes "codec_ok E"
  shows "verify_state E db r = Inr () \<longleftrightarrow>
    verify_canonical_stored_json E (ms_state_jcs r) ''materialized state'' = Inr () \<and>
    ms_state_digest r = as_str (state_digest_of E (ms_state_jcs r)) \<and> digest_text (ms_last_event_digest r) \<and>
    (\<exists>x. find_event db (ms_last_event_sequence r) = Some x \<and> ev_entity_id x = ms_entity_id r \<and>
       ev_state_digest x = ms_state_digest r \<and> ev_event_digest x = ms_last_event_digest r)"
  using hash_domain_text [OF assms]
  by (auto simp: verify_state_def ag_check store_digest_iff [OF assms] state_digest_of_def split: if_splits)

lemma append_verifies:
  assumes E: "codec_ok E" and printed: "printing_reads_back E (ne_payload event)" "printing_reads_back E state"
    and ok: "store_ok E identity db" and a: "append_event_in_transaction E event state expected db = Inr (r, db')"
  shows "verify_chain_connection E db' identity = Inr \<lparr>ch_sequence = er_sequence r, ch_digest = er_event_digest r\<rparr>"
proof -
  from ok have num: "store_numbered db" by (simp add: store_ok_def)
  obtain h where h: "verify_chain_connection E db identity = Inr h" using ok by (auto simp: store_ok_def is_ok_iff)
  note old = h [unfolded verify_chain_iff [OF num]]
  have num': "store_numbered db'" and seq: "uint (er_sequence r) = int (length (db_events db)) + 1"
    using append_numbered [OF num a] by simp_all
  obtain p q where p: "canonicalize E (ne_payload event) = Inr p" and q: "canonicalize E state = Inr q"
    and db': "db' = db\<lparr>db_events := db_events db @ [appended_row E event p q r],
      db_states := replace_state (appended_state E event q r) (db_states db),
      db_head := Some (uint (er_sequence r), as_str (er_event_digest r))\<rparr>"
    using append_in_transaction_tables [OF a] by blast
  let ?row = "appended_row E event p q r"
  from append_in_transaction_Ok [OF a] old(1) p q have prev: "er_previous_digest r = ch_digest h" and next_seq: "unat (er_sequence r) = unat (ch_sequence h) + 1"
    and digest: "event_digest_for E \<lparr>hi_sequence = er_sequence r, hi_event_id = ne_event_id event,
         hi_entity_id = ne_entity_id event, hi_event_kind = ne_event_kind event,
         hi_occurred_at_unix_ms = ne_occurred_at_unix_ms event, hi_previous_digest = ch_digest h,
         hi_payload_digest = payload_digest_of E p, hi_state_digest = state_digest_of E q\<rparr> = Inr (er_event_digest r)"
    by auto
  have s: "er_sequence r = ch_sequence h + 1"
    using next_seq unat_u64_less [of "er_sequence r"] by (simp add: word_unat_eq_iff unat_word_ariths)
  have head_text: "store_digest_from_str E (as_str (ch_digest h)) = Inr (ch_digest h)"
    using numbered_head(2) [OF num, of E h] old E by (simp add: store_digest_iff)
  have "verify_events E (ch_digest h) (er_sequence r) [?row] = Inr (er_event_digest r, er_sequence r + 1)"
    using canonical_stored [OF printed(1) p] digest head_text event_digest_text [OF E digest]
      store_digest_hash [OF E]
    by (simp add: appended_row_def prev payload_digest_of_def state_digest_of_def)
  with old have "\<exists>g. genesis_digest E identity = Inr g \<and>
      verify_events E g 1 (db_events db') = Inr (er_event_digest r, er_sequence r + 1)"
    by (auto simp: db' verify_events_append s)
  moreover have "chain_head_from_connection E db' = Inr \<lparr>ch_sequence = er_sequence r, ch_digest = er_event_digest r\<rparr>"
    using event_digest_text [OF E digest] by (simp add: chain_head_from_connection_def db')
  moreover have "verify_state E db' x = Inr ()" if "x \<in> set (db_states db')" for x
  proof (cases "x = appended_state E event q r")
    case True
    have "ev_sequence x \<le> int (length (db_events db))" if "x \<in> set (db_events db)" for x
      using numbered_sequences [OF num] that by (metis atLeastAtMost_iff imageI)
    then have "List.find (\<lambda>x. ev_sequence x = uint (er_sequence r)) (db_events db) = None"
      using seq by (fastforce simp: find_None_iff)
    then show ?thesis
      using canonical_stored [OF printed(2) q] event_digest_text [OF E digest] E
      by (simp add: True verify_state_iff appended_state_def find_event_def db' find_append appended_row_def store_digest_iff)
  next
    case False
    with that old have "verify_state E db x = Inr ()" by (auto simp: db' replace_state_set)
    then show ?thesis using E by (auto simp: verify_state_iff find_event_def db' find_append)
  qed
  ultimately show ?thesis unfolding verify_chain_iff [OF num'] by simp
qed


text \<open>A receipt can be read back from the events, now and after any further append.\<close>

lemma numbered_find:
  "store_numbered db \<Longrightarrow> find_event db n = Some x \<Longrightarrow> ev_sequence x = n \<and> 1 \<le> n \<and> n \<le> int (length (db_events db))"
proof -
  assume num: "store_numbered db" and x: "find_event db n = Some x"
  then have "x \<in> set (db_events db)" "ev_sequence x = n"
    by (auto simp: find_event_def find_Some_iff)
  with numbered_sequences [OF num] show ?thesis by (metis atLeastAtMost_iff imageI)
qed

lemma append_receipt:
  assumes E: "codec_ok E" and ok: "store_numbered db"
    and a: "append_event_in_transaction E event state expected db = Inr (r, db')"
  shows "event_receipt_by_sequence E db' (uint (er_sequence r)) = Inr r"
proof -
  obtain p q where q: "canonicalize E state = Inr q"
    and db': "db' = db\<lparr>db_events := db_events db @ [appended_row E event p q r],
      db_states := replace_state (appended_state E event q r) (db_states db),
      db_head := Some (uint (er_sequence r), as_str (er_event_digest r))\<rparr>"
    using append_in_transaction_tables [OF a] by blast
  from append_in_transaction_Ok [OF a] q obtain head i where
    head: "chain_head_from_connection E db = Inr head"
    and parts: "er_event_id r = ne_event_id event" "er_previous_digest r = ch_digest head"
      "er_state_digest r = state_digest_of E q"
    and digest: "event_digest_for E i = Inr (er_event_digest r)"
    by auto
  have seq: "uint (er_sequence r) = int (length (db_events db)) + 1"
    and rv: "uint (er_entity_revision r) = int (entity_events db (ne_entity_id event)) + 1"
    using append_numbered [OF ok a] by simp_all
  have le: "ev_sequence x \<le> int (length (db_events db))" if "x \<in> set (db_events db)" for x
    using numbered_sequences [OF ok] that by (metis atLeastAtMost_iff imageI)
  then have "List.find (\<lambda>x. ev_sequence x = uint (er_sequence r)) (db_events db) = None"
    using seq by (fastforce simp: find_None_iff)
  then have row: "find_event db' (uint (er_sequence r)) = Some (appended_row E event p q r)"
    by (simp add: find_event_def db' find_append appended_row_def)
  have "filter (\<lambda>x. ev_entity_id x = ne_entity_id event \<and> ev_sequence x \<le> uint (er_sequence r)) (db_events db) =
      filter (\<lambda>x. ev_entity_id x = ne_entity_id event) (db_events db)"
    using le seq by (intro filter_cong) force+
  then have count: "int (length (filter (\<lambda>x. ev_entity_id x = ev_entity_id (appended_row E event p q r) \<and>
      ev_sequence x \<le> uint (er_sequence r)) (db_events db'))) = uint (er_entity_revision r)"
    using rv by (simp add: db' appended_row_def entity_events_def)
  show ?thesis
    unfolding event_receipt_by_sequence_def row
    using count numbered_head(2) [OF ok head E] event_digest_text [OF E digest] E parts
    by (simp add: Let_def) (simp add: appended_row_def store_digest_text state_digest_of_def)
qed

lemma receipt_stable:
  assumes ok: "store_numbered db" and a: "append_event_in_transaction E event state expected db = Inr (r, db')"
    and x: "event_receipt_by_sequence E db n = Inr x"
  shows "event_receipt_by_sequence E db' n = Inr x"
proof -
  obtain p q where db': "db' = db\<lparr>db_events := db_events db @ [appended_row E event p q r],
      db_states := replace_state (appended_state E event q r) (db_states db),
      db_head := Some (uint (er_sequence r), as_str (er_event_digest r))\<rparr>"
    using append_in_transaction_tables [OF a] by blast
  from x obtain y where y: "find_event db n = Some y"
    by (auto simp: event_receipt_by_sequence_def ag_check ok_or_def split: option.splits)
  have "\<not> ev_sequence (appended_row E event p q r) \<le> n"
    using numbered_find [OF ok y] append_numbered [OF ok a] by (simp add: appended_row_def)
  moreover have "find_event db' n = Some y" using y by (simp add: find_event_def db' find_append)
  ultimately show ?thesis using x y by (simp add: event_receipt_by_sequence_def Let_def) (simp add: db')
qed

section \<open>The head commits to the history\<close>

definition row_input :: "event_row \<Rightarrow> event_hash_input" where
  "row_input r = \<lparr>hi_sequence = word_of_int (ev_sequence r), hi_event_id = ev_event_id r,
     hi_entity_id = ev_entity_id r, hi_event_kind = ev_event_kind r,
     hi_occurred_at_unix_ms = ev_occurred_at_unix_ms r, hi_previous_digest = Digest (ev_previous_digest r),
     hi_payload_digest = Digest (ev_payload_digest r), hi_state_digest = Digest (ev_state_digest r)\<rparr>"

definition history_preimages :: "env \<Rightarrow> event_row list \<Rightarrow> bytes set" where
  "history_preimages E rows =
     {domain_preimage ''ag-store-event-v1'' b |r b. r \<in> set rows \<and> canonicalize E (event_hash_json (row_input r)) = Inr b} \<union>
     {domain_preimage ''ag-store-event-payload-v1'' (ev_payload_jcs r) |r. r \<in> set rows}"

text \<open>No collision among what the two histories hash, and a printer that is faithful on their events.\<close>

definition history_hashing_ok :: "env \<Rightarrow> event_row list \<Rightarrow> bool" where
  "history_hashing_ok E rows \<longleftrightarrow> inj_on (env_sha256 E) (history_preimages E rows) \<and>
     (\<forall>r \<in> set rows. printing_reads_back E (event_hash_json (row_input r)))"

lemma event_hash_inject:
  assumes "printing_reads_back E (event_hash_json i)" and "printing_reads_back E (event_hash_json j)"
    and "canonicalize E (event_hash_json i) = Inr b" and "canonicalize E (event_hash_json j) = Inr b"
  shows "i = j"
proof -
  have "[u64_json (hi_sequence i), JStr (hi_event_id i), JStr (hi_entity_id i), JStr (hi_event_kind i),
      JNum (hi_occurred_at_unix_ms i), digest_json (hi_previous_digest i), digest_json (hi_payload_digest i),
      digest_json (hi_state_digest i)] = [u64_json (hi_sequence j), JStr (hi_event_id j), JStr (hi_entity_id j),
      JStr (hi_event_kind j), JNum (hi_occurred_at_unix_ms j), digest_json (hi_previous_digest j),
      digest_json (hi_payload_digest j), digest_json (hi_state_digest j)]"
    by (rule canonical_fields [OF assms [unfolded event_hash_json_def]])
      (simp_all add: event_hash_fields_def u64_json_def digest_json_def)
  then show ?thesis
    by (simp add: u64_json_def digest_json_def word_uint_eq_iff [symmetric] digest.expand)
qed

lemma verified_row:
  assumes E: "codec_ok E" and r: "0 \<le> ev_sequence r" "ev_sequence r < 2 ^ 63"
    and v: "verify_events E p s [r] = Inr (d, n)"
  shows "\<exists>b. canonicalize E (event_hash_json (row_input r)) = Inr b \<and> d = hash_domain E ''ag-store-event-v1'' b \<and>
    d = Digest (ev_event_digest r) \<and> p = Digest (ev_previous_digest r) \<and> ev_sequence r = uint s \<and>
    Digest (ev_payload_digest r) = payload_digest_of E (ev_payload_jcs r) \<and> n = s + 1"
  using v r small_int_word [of "ev_sequence r"]
  by (auto simp: ag_check to_u64_iff store_digest_iff [OF E] event_digest_for_def digest_jcs_def store_jcs_def
      row_input_def split: if_splits)

lemma verify_events_last:
  "verify_events E p s (rs @ [r]) = Inr (d, n) \<longleftrightarrow>
     (\<exists>p' s'. verify_events E p s rs = Inr (p', s') \<and> verify_events E p' s' [r] = Inr (d, n))"
  by (auto simp: verify_events_append ag_check simp del: verify_events.simps(2))

lemma row_from_input:
  "row_input x = row_input y \<Longrightarrow> ev_sequence x = ev_sequence y \<Longrightarrow> ev_payload_jcs x = ev_payload_jcs y \<Longrightarrow>
     ev_event_digest x = ev_event_digest y \<Longrightarrow> x = (y :: event_row)"
  by (cases x; cases y) (simp add: row_input_def)

lemma events_determined:
  assumes E: "codec_ok E" and ok: "history_hashing_ok E (rs @ qs)"
    and range: "\<forall>r \<in> set (rs @ qs). 0 \<le> ev_sequence r \<and> ev_sequence r < 2 ^ 63"
    and "verify_events E g s rs = Inr (d, n)" and "verify_events E g' s qs = Inr (d, n')" and "length rs = length qs"
  shows "rs = qs"
  using assms(2-)
proof (induction rs arbitrary: qs d n n' rule: rev_induct)
  case (snoc x rs)
  from snoc.prems(5) obtain y qs' where qs: "qs = qs' @ [y]" by (cases qs rule: rev_cases) auto
  from snoc.prems(3) obtain p m where p: "verify_events E g s rs = Inr (p, m)" "verify_events E p m [x] = Inr (d, n)"
    by (auto simp only: verify_events_last)
  from snoc.prems(4) obtain p' m' where p': "verify_events E g' s qs' = Inr (p', m')" "verify_events E p' m' [y] = Inr (d, n')"
    by (auto simp only: qs verify_events_last)
  have len: "length rs = length qs'" using snoc.prems(5) qs by simp
  have m: "m = m'" using verify_events_count [OF p(1)] verify_events_count [OF p'(1)] len by simp
  obtain b where b: "canonicalize E (event_hash_json (row_input x)) = Inr b" "d = hash_domain E ''ag-store-event-v1'' b"
    and x: "d = Digest (ev_event_digest x)" "p = Digest (ev_previous_digest x)" "ev_sequence x = uint m"
      "Digest (ev_payload_digest x) = payload_digest_of E (ev_payload_jcs x)"
    using verified_row [OF E _ _ p(2)] snoc.prems(2) by auto
  obtain c where c: "canonicalize E (event_hash_json (row_input y)) = Inr c" "d = hash_domain E ''ag-store-event-v1'' c"
    and y: "d = Digest (ev_event_digest y)" "p' = Digest (ev_previous_digest y)" "ev_sequence y = uint m'"
      "Digest (ev_payload_digest y) = payload_digest_of E (ev_payload_jcs y)"
    using verified_row [OF E _ _ p'(2)] snoc.prems(2) qs by auto
  have inj: "inj_on (env_sha256 E) (history_preimages E ((rs @ [x]) @ qs))"
    and faithful: "printing_reads_back E (event_hash_json (row_input x))" "printing_reads_back E (event_hash_json (row_input y))"
    using snoc.prems(1) qs by (auto simp: history_hashing_ok_def)
  have "inj_on (env_sha256 E) {domain_preimage ''ag-store-event-v1'' b, domain_preimage ''ag-store-event-v1'' c}"
    by (rule inj_on_subset [OF inj]) (use b c qs in \<open>auto simp: history_preimages_def\<close>)
  from hash_domain_inject [OF E _ _ this] b c have "b = c" by simp
  then have input: "row_input x = row_input y" using event_hash_inject [OF faithful b(1)] c(1) by simp
  have "inj_on (env_sha256 E) {domain_preimage ''ag-store-event-payload-v1'' (ev_payload_jcs x),
      domain_preimage ''ag-store-event-payload-v1'' (ev_payload_jcs y)}"
    by (rule inj_on_subset [OF inj]) (use qs in \<open>auto simp: history_preimages_def\<close>)
  from hash_domain_inject [OF E _ _ this] x(4) y(4) input have payload: "ev_payload_jcs x = ev_payload_jcs y"
    by (simp add: payload_digest_of_def row_input_def)
  have xy: "x = y" using row_from_input [OF input _ payload] x y m by simp
  have "rs = qs'"
  proof (rule snoc.IH)
    show "history_hashing_ok E (rs @ qs')"
      using snoc.prems(1) unfolding history_hashing_ok_def qs
      by (auto simp: history_preimages_def elim!: inj_on_subset)
    show "verify_events E g' s qs' = Inr (p, m')" using p'(1) x y xy by simp
  qed (use snoc.prems(2) p(1) len qs in auto)
  with xy qs show ?case by simp
qed simp

section \<open>Activation\<close>

definition activation_valid :: "activation_identity \<Rightarrow> bool" where
  "activation_valid a \<longleftrightarrow> canonical_identifier 128 (domain_str (ai_authority_domain a)) \<and>
     epoch_get (ai_epoch a) \<noteq> 0 \<and> digest_text (as_str (ai_config_identity a)) \<and>
     digest_text (as_str (ai_security_profile_identity a)) \<and> digest_text (as_str (ai_build_identity a)) \<and>
     (case ai_authority_catalog_identity a of None \<Rightarrow> True | Some d \<Rightarrow> digest_text (as_str d))"

lemma with_optional_present:
  "struct_fields fs u = Inr us \<Longrightarrow> f \<in> set fs \<Longrightarrow> with_optional f u = u"
proof (cases u)
  case (JObj ms)
  assume "struct_fields fs u = Inr us" and f: "f \<in> set fs"
  then have "list_all2 (\<lambda>f w. take_field ms f = Inr w) fs us"
    by (auto simp: JObj struct_fields_def try_map_Inr_iff split: if_splits)
  with f obtain v where "take_field ms f = Inr v" by (auto simp: list_all2_conv_all_nth in_set_conv_nth)
  then have "map_of ms f = Some v" by (rule take_field_SomeD)
  then have "(f, v) \<in> set ms" by (rule map_of_SomeD)
  then show ?thesis by (force simp: JObj with_optional_def list_ex_iff)
qed (auto simp: with_optional_def)

lemma digest_deserialize_json [simp]:
  "codec_ok E \<Longrightarrow> digest_text (as_str d) \<Longrightarrow> digest_deserialize E (digest_json d) = Inr d"
  using digest_parse_exact [of E "as_str d" d] by (simp add: digest_deserialize_def digest_json_def)

lemma option_deserialize_digest:
  "codec_ok E \<Longrightarrow> (case d of None \<Rightarrow> True | Some x \<Rightarrow> digest_text (as_str x)) \<Longrightarrow>
     option_deserialize (digest_deserialize E) (option_json digest_json d) = Inr d"
  by (cases d) (auto simp: option_deserialize_def option_json_def digest_json_def split: json.splits
      dest: digest_deserialize_json [unfolded digest_json_def])

interpretation activation_wire: tree_codec activation_json "activation_deserialize E"
    "\<lambda>a. codec_ok E \<and> activation_valid a" for E
proof unfold_locales
  fix a w u
  assume v: "codec_ok E \<and> activation_valid a" and w: "strict_value (activation_json a) = Inr w" "strict_value u = Inr w"
  have fields: "struct_fields activation_fields u = Inr [JStr (ai_schema a), JStr (domain_str (ai_authority_domain a)),
      epoch_json (ai_epoch a), digest_json (ai_config_identity a), digest_json (ai_security_profile_identity a),
      digest_json (ai_build_identity a), option_json digest_json (ai_authority_catalog_identity a)]"
    by (rule struct_tree_atoms [OF w [unfolded activation_json_def]])
      (simp_all add: activation_fields_def epoch_json_def u64_json_def digest_json_def option_json_def split: option.split)
  have "with_optional ''authority_catalog_identity'' u = u"
    by (rule with_optional_present [OF fields]) (simp add: activation_fields_def)
  then show "activation_deserialize E u = Inr a"
    unfolding activation_deserialize_def using v
    by (simp add: fields string_deserialize_def authority_domain_new_def activation_valid_def
        origin_id.text_roundtrip epoch_roundtrip option_deserialize_digest)
qed

section \<open>Opening a store\<close>

lemma new_store_ok:
  assumes E: "codec_ok E" and a: "install_schema E identity activation = Inr db"
  shows "store_ok E identity db \<and> db_events db = [] \<and> db_schema db"
proof -
  from a obtain g where g: "genesis_digest E identity = Inr g"
    and db: "db_events db = []" "db_states db = []" "db_head db = Some (0, as_str g)" "db_schema db"
    by (auto simp: install_schema_def Let_def insert_activation_def ag_check db_new_def split: option.splits if_splits)
  have num: "store_numbered db"
    by (simp add: store_numbered_def db find_state_def entity_events_def)
  have "verify_chain_connection E db identity = Inr \<lparr>ch_sequence = 0, ch_digest = g\<rparr>"
    using g E by (auto simp: verify_chain_connection_def db chain_head_from_connection_def ok_or_def to_u64_def
        genesis_digest_def digest_jcs_def ag_check)
  with num db show ?thesis by (simp add: store_ok_def)
qed

text \<open>The invariant depends on the events, the states and the head only.\<close>

lemma store_ok_tables:
  assumes "db_events d = db_events db" and "db_states d = db_states db" and "db_head d = db_head db"
  shows "store_numbered d = store_numbered db" and "verify_chain_connection E d i = verify_chain_connection E db i"
    and "store_ok E i d = store_ok E i db"
proof -
  have "find_event d = find_event db" "find_state d = find_state db" "entity_events d = entity_events db"
    by (simp_all add: fun_eq_iff find_event_def find_state_def entity_events_def assms)
  moreover from this have "verify_state E d = verify_state E db" "chain_head_from_connection E d = chain_head_from_connection E db"
    by (simp_all only: fun_eq_iff verify_state_def chain_head_from_connection_def assms simp_thms)
  ultimately show n: "store_numbered d = store_numbered db"
    and v: "verify_chain_connection E d i = verify_chain_connection E db i"
    by (simp_all only: store_numbered_def verify_chain_connection_def assms)
  show "store_ok E i d = store_ok E i db" by (simp only: store_ok_def n v)
qed

lemma claim_writer_ok: "store_ok E i (claim_writer w db) = store_ok E i db"
  by (rule store_ok_tables) (simp_all add: claim_writer_def)

text \<open>The tables that an append does not touch.\<close>

definition store_frame :: "store_db \<Rightarrow> store_db" where
  "store_frame db = db\<lparr>db_events := [], db_states := [], db_head := None\<rparr>"

lemma store_frame_eq:
  assumes "store_frame db' = store_frame db"
  shows "db_schema db' = db_schema db" "db_pragma_application db' = db_pragma_application db"
    "db_pragma_version db' = db_pragma_version db" "db_identity db' = db_identity db" "db_writer db' = db_writer db"
    "db_activation db' = db_activation db" "db_blobs db' = db_blobs db" "db_cuts db' = db_cuts db"
    "db_participants db' = db_participants db"
  using assms by (cases db; cases db'; simp add: store_frame_def)+

lemma append_in_transaction_frame:
  assumes "append_event_in_transaction E event state x db = Inr (r, db')"
  shows "store_frame db' = store_frame db"
  by (rule append_in_transaction_tables [OF assms]) (simp add: store_frame_def)

lemma append_event_cases:
  assumes "append_event E event state x db = (res, db')"
  shows "(\<exists>e. res = Inl e \<and> db' = db) \<or>
    (\<exists>r. res = Inr r \<and> active_backup_cut db = None \<and> append_event_in_transaction E event state x db = Inr (r, db'))"
  using assms by (auto simp: append_event_def transaction_def ag_check ensure_no_backup_barrier_def
      split: sum.splits option.splits)

lemma activated_reads_back:
  assumes E: "codec_ok E" and a: "activation_valid a" "activation_validate a = Inr ()" "printing_reads_back E (activation_json a)"
    and b: "canonicalize E (activation_json a) = Inr b"
    and db: "db_activation db = Some (b, as_str (activation_digest_of E b), t)"
  shows "load_activation E db = Inr (Some \<lparr>ar_identity = a, ar_activation_digest = activation_digest_of E b,
    ar_activated_at_unix_ms = t\<rparr>)"
  using activation_wire.stored_roundtrip [OF conjI [OF E a(1)] a(3) b] canonical_stored [OF a(3) b] E a(2)
  by (simp add: load_activation_def db activation_digest_of_def)

text \<open>What a database enrolled with an activation holds, whatever was appended to it.\<close>

definition enrolled :: "env \<Rightarrow> store_identity \<Rightarrow> activation_record \<Rightarrow> store_db \<Rightarrow> bool" where
  "enrolled E identity record db \<longleftrightarrow> db_schema db \<and> identity_row_read E db = Inr identity \<and>
     db_pragma_application db = si_application_id identity \<and> db_pragma_version db = si_schema_version identity \<and>
     load_activation E db = Inr (Some record)"

lemma enrolled_frame: "store_frame db' = store_frame db \<Longrightarrow> enrolled E i a db' = enrolled E i a db"
  by (simp add: enrolled_def store_frame_eq [of db' db] identity_row_read_def load_activation_def)

lemma enrolled_claim: "enrolled E i a (claim_writer w db) = enrolled E i a db"
  by (simp add: enrolled_def claim_writer_def identity_row_read_def load_activation_def)

lemma enrolled_open:
  assumes "enrolled E identity record db"
  shows "open_prepared_internal E created identity' activation w db =
    (if identity' \<noteq> identity then (Err (SeIdentityMismatch identity' identity), db)
     else case activation of
         None \<Rightarrow> (Err SeActivationIdentityRequired, db)
       | Some b \<Rightarrow> if ar_identity record \<noteq> b then (Err (SeActivationIdentityMismatch b (ar_identity record)), db)
                    else (Ok (Some record), claim_writer w db))"
  using assms by (auto simp: open_prepared_internal_def initialize_or_validate_def validate_installed_def enrolled_def
      split: option.split)

lemma install_enrolled:
  assumes E: "codec_ok E" and a: "activation_valid a" "printing_reads_back E (activation_json a)"
    and i: "store_identity_validate E sql identity = Inr ()"
    and db: "install_schema E identity (Some (a, t)) = Inr db"
  shows "\<exists>record. ar_identity record = a \<and> ar_activated_at_unix_ms record = t \<and> enrolled E identity record db"
proof -
  from db obtain g b where av: "activation_validate a = Inr ()" and b: "canonicalize E (activation_json a) = Inr b"
    and fields: "db_schema db" "db_pragma_application db = si_application_id identity"
      "db_pragma_version db = si_schema_version identity" "db_activation db = Some (b, as_str (activation_digest_of E b), t)"
      "db_identity db = Some \<lparr>ir_application_id = si_application_id identity,
          ir_application_name = si_application_name identity, ir_schema_name = si_schema_name identity,
          ir_schema_version = si_schema_version identity, ir_schema_digest = as_str (si_schema_digest identity)\<rparr>"
    by (auto simp: install_schema_def Let_def insert_activation_def ag_check db_new_def store_jcs_def split: if_splits)
  have "si_schema_digest identity = schema_digest_of E sql"
    using i by (auto simp: store_identity_validate_def ag_check split: if_splits)
  then have "identity_row_read E db = Inr identity"
    using E by (simp add: identity_row_read_def fields ok_or_def schema_digest_of_def)
  with activated_reads_back [OF E a(1) av a(2) b fields(4)] fields show ?thesis
    by (auto simp: enrolled_def)
qed

lemma generic_open_refuses: "\<not> is_ok (fst (store_open E sql False identity w db))"
  by (auto simp: store_open_def open_prepared_internal_def initialize_or_validate_def validate_installed_def
      res_bind_def is_ok_iff split: sum.splits option.splits if_splits prod.splits)

section \<open>Runs of appends\<close>

type_synonym append_request = "new_event \<times> json \<times> u64"

definition append_request :: "env \<Rightarrow> store_db \<Rightarrow> append_request \<Rightarrow> (store_error + event_receipt) \<times> store_db" where
  "append_request E db q = (case q of (event, state, x) \<Rightarrow> append_event E event state x db)"

abbreviation append_all :: "env \<Rightarrow> store_db \<Rightarrow> append_request list \<Rightarrow> store_db" where
  "append_all E db qs \<equiv> snd (consume_all (append_request E) db qs)"

definition event_ids :: "store_db \<Rightarrow> string set" where
  "event_ids db = ev_event_id ` set (db_events db)"

lemma append_request_cases:
  assumes "append_request E db q = (res, db')"
  shows "(\<exists>e. res = Inl e \<and> db' = db) \<or>
    (\<exists>r. res = Inr r \<and> append_event_in_transaction E (fst q) (fst (snd q)) (snd (snd q)) db = Inr (r, db'))"
  using assms append_event_cases [of E "fst q" "fst (snd q)" "snd (snd q)" db res db']
  by (auto simp: append_request_def case_prod_unfold)

lemma append_extends:
  assumes "append_event_in_transaction E event state x db = Inr (r, db')"
  shows "\<exists>row. db_events db' = db_events db @ [row] \<and> ev_event_id row = ne_event_id event \<and>
    ne_event_id event \<notin> event_ids db"
proof -
  obtain p q where "db' = db\<lparr>db_events := db_events db @ [appended_row E event p q r],
      db_states := replace_state (appended_state E event q r) (db_states db),
      db_head := Some (uint (er_sequence r), as_str (er_event_digest r))\<rparr>"
    using append_in_transaction_tables [OF assms] by blast
  moreover have "ne_event_id event \<notin> event_ids db"
    using append_in_transaction_Ok [OF assms] by (auto simp: event_ids_def)
  ultimately show ?thesis by (auto simp: appended_row_def)
qed

interpretation store_events: burning_ledger "append_request E" "ne_event_id \<circ> fst" event_ids for E
proof unfold_locales
  fix db q r db' assume "append_request E db q = (Inr r, db')"
  then have "append_event_in_transaction E (fst q) (fst (snd q)) (snd (snd q)) db = Inr (r, db')"
    using append_request_cases by fastforce
  from append_extends [OF this] show "(ne_event_id \<circ> fst) q \<notin> event_ids db \<and> (ne_event_id \<circ> fst) q \<in> event_ids db'"
    by (auto simp: event_ids_def)
next
  fix db q x db' assume "append_request E db q = (x, db')"
  from append_request_cases [OF this] show "event_ids db \<subseteq> event_ids db'"
    by (auto simp: event_ids_def dest!: append_extends)
qed

lemma run_numbered: "store_numbered db \<Longrightarrow> store_numbered (append_all E db qs)"
proof (rule consume_all_invariant)
  fix db q assume "store_numbered db"
  then show "store_numbered (snd (append_request E db q))"
    using append_request_cases [of E db q] append_numbered by (cases "append_request E db q") fastforce
qed

lemma run_extends: "\<exists>rows. db_events (append_all E db qs) = db_events db @ rows"
proof (induction qs arbitrary: db)
  case (Cons q qs)
  obtain res db' where s: "append_request E db q = (res, db')" by fastforce
  have "\<exists>rows. db_events db' = db_events db @ rows"
    using append_request_cases [OF s] by (auto dest!: append_extends)
  moreover have "\<exists>rows. db_events (append_all E db' qs) = db_events db' @ rows" by (rule Cons.IH)
  ultimately show ?case by (auto simp: s Let_def case_prod_unfold)
qed simp

lemma run_receipt:
  "store_numbered db \<Longrightarrow> event_receipt_by_sequence E db n = Inr r \<Longrightarrow>
     event_receipt_by_sequence E (append_all E db qs) n = Inr r"
proof (induction qs arbitrary: db)
  case (Cons q qs)
  obtain res db' where s: "append_request E db q = (res, db')" by fastforce
  have "store_numbered db' \<and> event_receipt_by_sequence E db' n = Inr r"
    using append_request_cases [OF s] Cons.prems append_numbered receipt_stable by (metis snd_conv)
  with Cons.IH [of db'] show ?case by (simp add: s Let_def case_prod_unfold)
qed simp

lemma append_run_frame: "store_frame (append_all E db qs) = store_frame db"
  using consume_all_invariant [of "\<lambda>d. store_frame d = store_frame db" db "append_request E" qs]
    append_request_cases append_in_transaction_frame
  by (metis prod.collapse)

section \<open>A sample store\<close>

text \<open>
  The environment of the samples hashes to the last 32 bytes of the input, so that distinct small
  inputs have distinct digests.
\<close>

definition tail_hash :: "bytes \<Rightarrow> bytes" where
  "tail_hash b = rev (take 32 (rev b @ replicate 32 (CHR 0x00)))"

definition tail_env :: env where
  "tail_env = text_env\<lparr>env_sha256 := tail_hash\<rparr>"

definition strict_tree :: "json \<Rightarrow> json" where
  "strict_tree v = (case strict_value v of Inr s \<Rightarrow> s | Inl _ \<Rightarrow> JNull)"

definition store_sample_digest :: digest where
  "store_sample_digest = hash_domain tail_env ''sample'' []"

definition sample_store_identity :: store_identity where
  "sample_store_identity = \<lparr>si_application_id = 1, si_application_name = ''agd'', si_schema_name = store_schema_name,
     si_schema_version = store_schema_version, si_schema_digest = schema_digest_of tail_env ''schema''\<rparr>"

definition sample_writer :: writer_identity where
  "sample_writer = \<lparr>wi_writer_id = ''w'', wi_principal_digest = store_sample_digest, wi_process_nonce = ''n'',
     wi_claimed_at_unix_ms = 5\<rparr>"

definition sample_activation :: "u64 \<Rightarrow> activation_identity" where
  "sample_activation n = \<lparr>ai_schema = activation_schema, ai_authority_domain = AuthorityDomainId ''site'',
     ai_epoch = EpochId n, ai_config_identity = store_sample_digest, ai_security_profile_identity = store_sample_digest,
     ai_build_identity = store_sample_digest, ai_authority_catalog_identity = None\<rparr>"

definition sample_opened :: "(store_error + activation_record option) \<times> store_db" where
  "sample_opened = store_open_activated tail_env ''schema'' True sample_store_identity (sample_activation 1) sample_writer db_new"

definition sample_store :: store_db where
  "sample_store = snd sample_opened"

definition sample_event :: "string \<Rightarrow> string \<Rightarrow> new_event" where
  "sample_event i p = \<lparr>ne_event_id = i, ne_entity_id = ''entity'', ne_event_kind = ''kind'',
     ne_occurred_at_unix_ms = 7, ne_payload = JStr p\<rparr>"

definition sample_genesis :: digest where
  "sample_genesis = hash_domain tail_env ''ag-store-event-chain-genesis-v1''
     (text_print (strict_tree (store_identity_json sample_store_identity)))"

definition sample_input :: "string \<Rightarrow> string \<Rightarrow> string \<Rightarrow> event_hash_input" where
  "sample_input i p s = \<lparr>hi_sequence = 1, hi_event_id = i, hi_entity_id = ''entity'', hi_event_kind = ''kind'',
     hi_occurred_at_unix_ms = 7, hi_previous_digest = sample_genesis,
     hi_payload_digest = payload_digest_of tail_env (text_print (JStr p)),
     hi_state_digest = state_digest_of tail_env (text_print (JStr s))\<rparr>"

lemma tail_env_simps [simp]:
  "env_sha256 tail_env = tail_hash" "env_jcs_to_vec tail_env v = Inr (text_print v)"
  "env_json_tree tail_env (text_print v) = Inr v"
  using text_env_simps by (simp_all add: tail_env_def)

lemma tail_env_codec: "codec_ok tail_env"
  using text_env_codec by (auto simp: codec_ok_def tail_env_def tail_hash_def)

lemma tail_env_reads_back: "printing_reads_back tail_env v"
  by (auto simp: printing_reads_back_def reads_back_def from_utf8_ascii text_print_ascii split: sum.splits)

lemma tail_env_canonical: "json_clean v \<Longrightarrow> canonicalize tail_env v = Inr (text_print (strict_tree v))"
  using strict_accepts_clean(1) [of v]
  by (auto simp: is_ok_iff canonicalize_def parse_strict_value_def strict_tree_def)

lemma event_hash_clean: "json_clean (event_hash_json i)"
  by (simp add: event_hash_json_def event_hash_fields_def u64_json_def digest_json_def)

lemma sample_activation_ok:
  "n \<noteq> 0 \<Longrightarrow> activation_valid (sample_activation n)" "activation_validate (sample_activation n) = Inr ()"
  "json_clean (activation_json (sample_activation n))"
  using hash_domain_text [OF tail_env_codec]
  by (simp_all add: activation_valid_def activation_validate_def sample_activation_def store_sample_digest_def
      canonical_identifier_def id_endpoint_def id_admitted_def activation_json_def activation_fields_def
      epoch_json_def u64_json_def digest_json_def option_json_def ascii_defs)

lemma sample_identity_ok:
  "store_identity_validate tail_env ''schema'' sample_store_identity = Inr ()" "writer_validate sample_writer = Inr ()"
  "json_clean (store_identity_json sample_store_identity)"
  by (simp_all add: store_identity_validate_def sample_store_identity_def store_identifier_def store_schema_name_def
      store_schema_version_def writer_validate_def sample_writer_def store_identity_json_def digest_json_def ascii_defs)

lemma sample_opened_Ok: "\<exists>record. sample_opened = (Inr (Some record), sample_store) \<and> ar_identity record = sample_activation 1"
  and sample_store_tables: "db_events sample_store = []" "db_states sample_store = []" "db_cuts sample_store = []"
    "db_participants sample_store = []" "db_head sample_store = Some (0, as_str sample_genesis)"
  and sample_store_ok: "store_ok tail_env sample_store_identity sample_store"
proof -
  note canon = tail_env_canonical [OF sample_activation_ok(3) [of 1]] tail_env_canonical [OF sample_identity_ok(3)]
  have g: "genesis_digest tail_env sample_store_identity = Inr sample_genesis"
    by (simp add: genesis_digest_def digest_jcs_def store_jcs_def canon sample_genesis_def)
  obtain db where db: "install_schema tail_env sample_store_identity (Some (sample_activation 1, 5)) = Inr db"
    "db_events db = []" "db_states db = []" "db_cuts db = []" "db_participants db = []"
    "db_head db = Some (0, as_str sample_genesis)"
    by (simp add: install_schema_def g Let_def insert_activation_def sample_activation_ok store_jcs_def canon)
      (simp add: db_new_def)
  obtain rec where rec: "ar_identity rec = sample_activation 1" "enrolled tail_env sample_store_identity rec db"
    using install_enrolled [OF tail_env_codec sample_activation_ok(1) tail_env_reads_back sample_identity_ok(1) db(1)] by auto
  have v: "validate_installed tail_env sample_store_identity (Some (sample_activation 1, 5)) True db = Inr (Some rec)"
    using rec by (simp add: validate_installed_def enrolled_def)
  have "initialize_or_validate tail_env sample_store_identity (Some (sample_activation 1, 5)) True db_new = (Inr (Some rec), db)"
    using db(1) v by (simp add: initialize_or_validate_def) (simp add: db_new_def)
  then have opened: "sample_opened = (Inr (Some rec), claim_writer sample_writer db)"
    by (simp add: sample_opened_def store_open_activated_def sample_identity_ok sample_activation_ok open_prepared_internal_def)
      (simp add: sample_writer_def)
  have store: "sample_store = claim_writer sample_writer db"
    using arg_cong [OF opened, of snd] by (simp add: sample_store_def)
  show "\<exists>record. sample_opened = (Inr (Some record), sample_store) \<and> ar_identity record = sample_activation 1"
    using rec(1) unfolding opened store by blast
  show "db_events sample_store = []" "db_states sample_store = []" "db_cuts sample_store = []"
    "db_participants sample_store = []" "db_head sample_store = Some (0, as_str sample_genesis)"
    using db by (simp_all add: store claim_writer_def)
  show "store_ok tail_env sample_store_identity sample_store"
    using new_store_ok [OF tail_env_codec db(1)] by (simp add: store claim_writer_ok)
qed


lemma append_first:
  assumes E: "codec_ok E" and db: "db_events db = []" "db_states db = []" "db_cuts db = []"
      "db_head db = Some (0, as_str g)" and g: "digest_text (as_str g)"
    and event: "validate_event event = Inr ()" "canonicalize E (ne_payload event) = Inr p" "canonicalize E state = Inr q"
    and d: "event_digest_for E \<lparr>hi_sequence = 1, hi_event_id = ne_event_id event, hi_entity_id = ne_entity_id event,
      hi_event_kind = ne_event_kind event, hi_occurred_at_unix_ms = ne_occurred_at_unix_ms event, hi_previous_digest = g,
      hi_payload_digest = payload_digest_of E p, hi_state_digest = state_digest_of E q\<rparr> = Inr d"
    and r: "r = \<lparr>er_sequence = 1, er_event_id = ne_event_id event, er_previous_digest = g, er_event_digest = d,
      er_entity_revision = 1, er_state_digest = state_digest_of E q\<rparr>"
  shows "append_event E event state 0 db = (Inr r, db\<lparr>db_events := [appended_row E event p q r],
    db_states := [appended_state E event q r], db_head := Some (1, as_str d)\<rparr>)"
proof -
  have "chain_head_from_connection E db = Inr \<lparr>ch_sequence = 0, ch_digest = g\<rparr>"
    using E g by (simp add: chain_head_from_connection_def db ok_or_def to_u64_def store_digest_text)
  moreover have "materialized_revision db (ne_entity_id event) = Inr 0"
    by (simp add: materialized_revision_def find_state_def db to_u64_def)
  moreover have "ensure_no_backup_barrier db = Inr ()"
    by (simp add: ensure_no_backup_barrier_def active_backup_cut_def db)
  moreover have "checked_add_u64 0 1 = Some 1" by (simp add: checked_add_u64_def)
  moreover have "to_i64 1 f = Inr 1" "to_i64 0 f = Inr 0" for f by (simp_all add: to_i64_def)
  ultimately show ?thesis
    using event d
    by (simp add: append_event_def transaction_def append_event_in_transaction_def store_jcs_def ok_or_def Let_def
        insert_event_def upsert_state_def update_head_def db r appended_row_def appended_state_def)
qed

definition store_sample_receipt :: "string \<Rightarrow> string \<Rightarrow> string \<Rightarrow> event_receipt" where
  "store_sample_receipt i p s = \<lparr>er_sequence = 1, er_event_id = i, er_previous_digest = sample_genesis,
     er_event_digest = hash_domain tail_env ''ag-store-event-v1'' (text_print (strict_tree (event_hash_json (sample_input i p s)))),
     er_entity_revision = 1, er_state_digest = state_digest_of tail_env (text_print (JStr s))\<rparr>"

definition sample_row :: "string \<Rightarrow> string \<Rightarrow> string \<Rightarrow> event_row" where
  "sample_row i p s = appended_row tail_env (sample_event i p) (text_print (JStr p)) (text_print (JStr s)) (store_sample_receipt i p s)"

definition sample_appended :: "string \<Rightarrow> string \<Rightarrow> string \<Rightarrow> store_db" where
  "sample_appended i p s = sample_store\<lparr>db_events := [sample_row i p s],
     db_states := [appended_state tail_env (sample_event i p) (text_print (JStr s)) (store_sample_receipt i p s)],
     db_head := Some (1, as_str (er_event_digest (store_sample_receipt i p s)))\<rparr>"

lemma sample_append:
  assumes "store_identifier ''event_id'' i 256 = Inr ()"
  shows "append_event tail_env (sample_event i p) (JStr s) 0 sample_store = (Inr (store_sample_receipt i p s), sample_appended i p s)"
proof -
  have v: "validate_event (sample_event i p) = Inr ()"
    using assms by (simp add: validate_event_def sample_event_def) (simp add: store_identifier_def ascii_defs)
  have "event_digest_for tail_env (sample_input i p s) = Inr (er_event_digest (store_sample_receipt i p s))"
    by (simp add: event_digest_for_def digest_jcs_def store_jcs_def tail_env_canonical [OF event_hash_clean] store_sample_receipt_def)
  moreover have "canonicalize tail_env (JStr x) = Inr (text_print (JStr x))" for x
    by (simp add: tail_env_canonical strict_tree_def)
  moreover have "digest_text (as_str sample_genesis)"
    using hash_domain_text [OF tail_env_codec] by (simp add: sample_genesis_def)
  ultimately show ?thesis
    unfolding sample_appended_def sample_row_def
    by (intro append_first [OF tail_env_codec sample_store_tables(1-3,5) _ v])
      (simp_all add: sample_event_def sample_input_def store_sample_receipt_def del: text_print.simps)
qed

lemma sample_appended_ok:
  "store_identifier ''event_id'' i 256 = Inr () \<Longrightarrow> store_ok tail_env sample_store_identity (sample_appended i p s)"
proof -
  assume i: "store_identifier ''event_id'' i 256 = Inr ()"
  have t: "append_event_in_transaction tail_env (sample_event i p) (JStr s) 0 sample_store = Inr (store_sample_receipt i p s, sample_appended i p s)"
    using append_event_cases [OF sample_append [OF i]] by auto
  show ?thesis
    using append_verifies [OF tail_env_codec tail_env_reads_back tail_env_reads_back sample_store_ok t]
      append_numbered [OF _ t] sample_store_ok by (simp add: store_ok_def)
qed

text \<open>What the history of one sample event hashes.\<close>

definition sample_preimages :: "string \<Rightarrow> string \<Rightarrow> string \<Rightarrow> bytes list" where
  "sample_preimages i p s =
     [domain_preimage ''ag-store-event-v1'' (text_print (strict_tree (event_hash_json (sample_input i p s)))),
      domain_preimage ''ag-store-event-payload-v1'' (text_print (JStr p))]"

lemma sample_row_input: "row_input (sample_row i p s) = sample_input i p s"
  by (simp add: sample_row_def row_input_def appended_row_def sample_event_def store_sample_receipt_def sample_input_def)

lemma sample_hashing_ok:
  assumes "distinct (map tail_hash (sample_preimages i p s @ sample_preimages j q u))"
  shows "history_hashing_ok tail_env [sample_row i p s, sample_row j q u]"
proof -
  have payload: "ev_payload_jcs (sample_row i p s) = text_print (JStr p)" for i p s
    by (simp add: sample_row_def appended_row_def)
  have "history_preimages tail_env [sample_row i p s, sample_row j q u] \<subseteq>
      set (sample_preimages i p s @ sample_preimages j q u)"
    by (auto simp: history_preimages_def sample_row_input tail_env_canonical [OF event_hash_clean] payload sample_preimages_def)
  moreover have "inj_on tail_hash (set (sample_preimages i p s @ sample_preimages j q u))"
    using assms by (simp only: distinct_map)
  ultimately show ?thesis
    by (auto simp: history_hashing_ok_def tail_env_reads_back intro: inj_on_subset)
qed

lemma sample_hashes:
  "distinct (map tail_hash (sample_preimages ''a'' ''p'' ''s'' @ sample_preimages ''b'' ''q'' ''t''))"
  by code_simp

section \<open>Properties\<close>

text \<open>
  C10: an append either is refused and changes nothing, or no backup cut is active, the event id is
  new, the entity was at the expected revision and moves to the next one, every other entity keeps
  its state, and the whole database verifies with the receipt as its head.  The store invariant
  holds afterwards in both cases.
\<close>

theorem store_append_sound:
  assumes E: "codec_ok E" and ok: "store_ok E identity db"
    and printed: "printing_reads_back E (ne_payload event)" "printing_reads_back E state"
    and a: "append_event E event state expected db = (res, db')"
  shows "store_ok E identity db' \<and>
    (case res of
       Inl _ \<Rightarrow> db' = db
     | Inr r \<Rightarrow>
         active_backup_cut db = None \<and> ne_event_id event \<notin> event_ids db \<and>
         verify_chain_connection E db' identity = Inr \<lparr>ch_sequence = er_sequence r, ch_digest = er_event_digest r\<rparr> \<and>
         unat (er_sequence r) = length (db_events db) + 1 \<and>
         materialized_revision db (ne_entity_id event) = Inr expected \<and>
         materialized_revision db' (ne_entity_id event) = Inr (er_entity_revision r) \<and>
         unat (er_entity_revision r) = unat expected + 1 \<and>
         (\<forall>e. e \<noteq> ne_entity_id event \<longrightarrow> find_state db' e = find_state db e))"
  using append_event_cases [OF a]
proof (elim disjE exE conjE)
  fix r assume res: "res = Inr r" and free: "active_backup_cut db = None"
    and t: "append_event_in_transaction E event state expected db = Inr (r, db')"
  have num: "store_numbered db" using ok by (simp add: store_ok_def)
  note v = append_verifies [OF E printed ok t] and n = append_numbered [OF num t]
  obtain p q where db': "db' = db\<lparr>db_events := db_events db @ [appended_row E event p q r],
      db_states := replace_state (appended_state E event q r) (db_states db),
      db_head := Some (uint (er_sequence r), as_str (er_event_digest r))\<rparr>"
    using append_in_transaction_tables [OF t] by blast
  have find: "find_state db' e = (if e = ne_entity_id event then Some (appended_state E event q r) else find_state db e)" for e
    by (simp add: db' find_state_def replace_state_find appended_state_def)
  have "unat (er_sequence r) = length (db_events db) + 1"
    using n by (simp add: unat_eq_nat_uint)
  moreover have "materialized_revision db' (ne_entity_id event) = Inr (er_entity_revision r)"
    by (simp add: materialized_revision_def find appended_state_def)
  ultimately show ?thesis
    using v n res free find append_extends [OF t] append_in_transaction_Ok [OF t] by (auto simp: store_ok_def)
qed (use ok in auto)

theorem store_append_sound_witness:
  "store_ok tail_env sample_store_identity (sample_appended ''a'' ''p'' ''s'') \<and>
   verify_chain_connection tail_env (sample_appended ''a'' ''p'' ''s'') sample_store_identity =
     Inr \<lparr>ch_sequence = 1, ch_digest = er_event_digest (store_sample_receipt ''a'' ''p'' ''s'')\<rparr>"
proof -
  have "store_identifier ''event_id'' ''a'' 256 = Inr ()" by (simp add: store_identifier_def ascii_defs)
  from store_append_sound [OF tail_env_codec sample_store_ok tail_env_reads_back tail_env_reads_back sample_append [OF this, of "''p''" "''s''"]]
  show ?thesis by (simp add: store_sample_receipt_def)
qed

text \<open>
  Two events for two entities are appended together or not at all.  When the pair is accepted
  the result is that of the two appends one after the other; otherwise the database is unchanged.
\<close>

theorem store_pair_atomic:
  "append_distinct_event_pair E e1 s1 x1 e2 s2 x2 db =
     (case res_bind (validate_event e1) (\<lambda>_. validate_event e2) of
        Inl err \<Rightarrow> (Err err, db)
      | Inr _ \<Rightarrow>
          if ne_entity_id e1 = ne_entity_id e2
          then (Err (SeInvalidIdentifier ''event_pair'' ''paired events must update distinct entities''), db)
          else case append_event E e1 s1 x1 db of
              (Inl err, _) \<Rightarrow> (Err err, db)
            | (Inr r1, db1) \<Rightarrow>
                (case append_event E e2 s2 x2 db1 of
                   (Inl err, _) \<Rightarrow> (Err err, db)
                 | (Inr r2, db2) \<Rightarrow> (Ok (r1, r2), db2)))"
proof (cases "res_bind (validate_event e1) (\<lambda>_. validate_event e2)")
  case (Inr u)
  then have v: "validate_event e1 = Inr ()" "validate_event e2 = Inr ()" by (simp_all add: ag_check)
  have keep: "ensure_no_backup_barrier db1 = ensure_no_backup_barrier db"
    if "append_event_in_transaction E e1 s1 x1 db = Inr (r, db1)" for r db1
    using store_frame_eq(8) [OF append_in_transaction_frame [OF that]]
    by (simp add: ensure_no_backup_barrier_def active_backup_cut_def)
  show ?thesis
    by (auto simp: append_distinct_event_pair_def append_event_def transaction_def v keep res_bind_def
        split: sum.split)
qed (auto simp: append_distinct_event_pair_def res_bind_def split: sum.splits)


text \<open>
  C11: a receipt stays valid.  Whatever is appended afterwards, the events only grow, the receipt of an
  accepted append can be read back from them unchanged, its event id is never accepted again, and the
  event ids of all accepted appends are distinct.
\<close>

theorem store_history_append_only:
  assumes E: "codec_ok E" and num: "store_numbered db" and a: "append_event E event state x db = (Ok r, db')"
  shows "event_receipt_by_sequence E (append_all E db' qs) (uint (er_sequence r)) = Ok r \<and>
    (\<exists>rows. db_events (append_all E db' qs) = db_events db' @ rows) \<and>
    ne_event_id event \<notin> set (granted (append_request E) (ne_event_id \<circ> fst) db' qs) \<and>
    distinct (granted (append_request E) (ne_event_id \<circ> fst) db' qs)"
proof -
  have t: "append_event_in_transaction E event state x db = Inr (r, db')"
    using append_event_cases [OF a] by auto
  have "store_numbered db'" using append_numbered [OF num t] by simp
  with append_receipt [OF E num t] have "event_receipt_by_sequence E (append_all E db' qs) (uint (er_sequence r)) = Ok r"
    by (rule run_receipt [rotated])
  moreover have "ne_event_id event \<in> event_ids db'"
    using append_extends [OF t] by (auto simp: event_ids_def)
  ultimately show ?thesis
    using run_extends [of E db' qs] store_events.granted_fresh [of _ E db' qs] store_events.granted_distinct [of E db' qs]
    by blast
qed

theorem store_history_append_only_witness:
  "event_receipt_by_sequence tail_env (append_all tail_env (sample_appended ''a'' ''p'' ''s'')
     [(sample_event ''a'' ''q'', JNull, 1), (sample_event ''b'' ''q'', JNull, 1)]) 1 = Ok (store_sample_receipt ''a'' ''p'' ''s'')"
proof -
  have "store_identifier ''event_id'' ''a'' 256 = Inr ()" by (simp add: store_identifier_def ascii_defs)
  moreover have "store_numbered sample_store" using sample_store_ok by (simp add: store_ok_def)
  ultimately show ?thesis
    using store_history_append_only [OF tail_env_codec _ sample_append, of "''a''" "''p''" "''s''"
      "[(sample_event ''a'' ''q'', JNull, 1), (sample_event ''b'' ''q'', JNull, 1)]"]
    by (simp add: store_sample_receipt_def)
qed

text \<open>
  C12: the chain head commits to the whole history.  Two verified stores with the same head hold the
  same events, in order and in every column, unless what they hash collides; the identities the two
  stores verify against need not agree beforehand.
\<close>

theorem store_head_commits:
  assumes E: "codec_ok E" and ok: "store_numbered db" "store_numbered db'"
    and hashing: "history_hashing_ok E (db_events db @ db_events db')"
    and v: "verify_chain_connection E db identity = Ok head" "verify_chain_connection E db' identity' = Ok head"
  shows "db_events db = db_events db'"
proof -
  obtain g g' where e: "verify_events E g 1 (db_events db) = Inr (ch_digest head, ch_sequence head + 1)"
    "verify_events E g' 1 (db_events db') = Inr (ch_digest head, ch_sequence head + 1)"
    and h: "chain_head_from_connection E db = Inr head" "chain_head_from_connection E db' = Inr head"
    using v unfolding verify_chain_iff [OF ok(1)] verify_chain_iff [OF ok(2)] by blast
  have small: "0 \<le> ev_sequence r \<and> ev_sequence r < 2 ^ 63" if "store_numbered d" "r \<in> set (db_events d)" for d r
    using that numbered_sequences [OF that(1)] by (force simp: store_numbered_def)
  show ?thesis
    by (rule events_determined [OF E hashing _ e])
      (use numbered_head(1) [OF ok(1) h(1)] numbered_head(1) [OF ok(2) h(2)] small ok in auto)
qed

theorem store_head_commits_witness:
  "verify_chain_connection tail_env (sample_appended ''a'' ''p'' ''s'') sample_store_identity \<noteq>
   verify_chain_connection tail_env (sample_appended ''b'' ''q'' ''t'') sample_store_identity"
proof
  assume same: "verify_chain_connection tail_env (sample_appended ''a'' ''p'' ''s'') sample_store_identity =
    verify_chain_connection tail_env (sample_appended ''b'' ''q'' ''t'') sample_store_identity"
  have ok: "store_ok tail_env sample_store_identity (sample_appended ''a'' ''p'' ''s'')"
    "store_ok tail_env sample_store_identity (sample_appended ''b'' ''q'' ''t'')"
    by (rule sample_appended_ok; simp add: store_identifier_def ascii_defs)+
  then obtain h where "verify_chain_connection tail_env (sample_appended ''a'' ''p'' ''s'') sample_store_identity = Inr h"
    by (auto simp: store_ok_def is_ok_iff)
  with ok same sample_hashing_ok [OF sample_hashes] have "db_events (sample_appended ''a'' ''p'' ''s'') = db_events (sample_appended ''b'' ''q'' ''t'')"
    by (intro store_head_commits [OF tail_env_codec, where head = h]) (auto simp: store_ok_def sample_appended_def)
  then show False by (simp add: sample_appended_def sample_row_def appended_row_def sample_event_def)
qed

text \<open>
  C40: what verification leaves open.  Whatever rows are removed from the materialized states of a
  verified store, and whatever revisions the others are given, the store verifies with the same head.
\<close>

theorem store_verify_ignores_revisions:
  assumes v: "verify_chain_connection E db identity = Ok head"
  shows "verify_chain_connection E (db\<lparr>db_states := map (\<lambda>s. s\<lparr>ms_revision := f s\<rparr>) (filter P (db_states db))\<rparr>) identity = Ok head"
proof -
  have each: "verify_state E (db\<lparr>db_states := rows\<rparr>) (s\<lparr>ms_revision := n\<rparr>) = verify_state E db s" for rows s n
    by (cases s; cases db) (simp only: verify_state_def find_event_def state_row.select_convs state_row.update_convs
        store_db.select_convs store_db.update_convs)
  have all: "verify_state E db s = Inr ()" if "s \<in> set (db_states db)" for s
    using v that by (auto simp: verify_chain_connection_def ag_check split: if_splits)
  have "try_for_each (verify_state E (db\<lparr>db_states := rows\<rparr>)) (map (\<lambda>s. s\<lparr>ms_revision := f s\<rparr>) (filter P (db_states db))) = Inr ()" for rows
    using all by (auto simp: ag_check each)
  then show ?thesis
    using v by (auto simp: verify_chain_connection_def ag_check chain_head_from_connection_def split: if_splits)
qed

theorem store_verify_ignores_revisions_witness:
  "is_ok (verify_chain_connection tail_env ((sample_appended ''a'' ''p'' ''s'')
     \<lparr>db_states := map (\<lambda>s. s\<lparr>ms_revision := 9\<rparr>) (filter (\<lambda>_. True) (db_states (sample_appended ''a'' ''p'' ''s'')))\<rparr>)
     sample_store_identity)"
proof -
  have "store_ok tail_env sample_store_identity (sample_appended ''a'' ''p'' ''s'')"
    by (rule sample_appended_ok) (simp add: store_identifier_def ascii_defs)
  then obtain h where "verify_chain_connection tail_env (sample_appended ''a'' ''p'' ''s'') sample_store_identity = Inr h"
    by (auto simp: store_ok_def is_ok_iff)
  from store_verify_ignores_revisions [OF this, of "\<lambda>_. 9" "\<lambda>_. True"] show ?thesis by (simp add: is_ok_iff)
qed



end
