(* ===== verification/AG_Backup.thy ===== *)
theory AG_Backup
  imports AG_Store
begin

text \<open>
  \<open>crates/ag-store/src/lib.rs\<close>, the coherent backup cut: a barrier that fences ordinary mutation
  while three components prepare, checkpoint and seal their stores.  The operations are followed by
  what each of them commits and by the invariant of the two backup tables, which every commit keeps.

  The two backup tables carry the constraints of the schema as predicates on their rows
  (\<open>cuts_ok\<close>, \<open>participants_ok\<close>); a statement that would violate one fails with \<open>SeSqlite\<close>.  An event
  column pair (sequence and digest) is one option, since every statement sets both.
\<close>

section \<open>Participants, requests and checkpoints\<close>

definition required_participants :: "backup_participant list" where
  "required_participants = [Agd, AgEffectd, AgProviderd]"

fun participant_str :: "backup_participant \<Rightarrow> string" where
  "participant_str Agd = ''agd''"
| "participant_str AgEffectd = ''ag-effectd''"
| "participant_str AgProviderd = ''ag-providerd''"

text \<open>The participant order of the \<open>BTreeMap\<close>s and of \<open>sort_by_key\<close>: the order of declaration.\<close>

fun participant_rank :: "backup_participant \<Rightarrow> nat" where
  "participant_rank Agd = 0"
| "participant_rank AgEffectd = 1"
| "participant_rank AgProviderd = 2"

definition participant_from_str :: "string \<Rightarrow> store_error + backup_participant" where
  "participant_from_str s =
     (if s = ''agd'' then Ok Agd
      else if s = ''ag-effectd'' then Ok AgEffectd
      else if s = ''ag-providerd'' then Ok AgProviderd
      else Err (SeCorrupt ''unknown backup participant''))"

fun cut_state_str :: "backup_state \<Rightarrow> string" where
  "cut_state_str CutPreparing = ''preparing''"
| "cut_state_str CutPrepared = ''prepared''"
| "cut_state_str CutSealed = ''sealed''"
| "cut_state_str CutReleased = ''released''"
| "cut_state_str CutAborted = ''aborted''"

definition cut_state_from_str :: "string \<Rightarrow> store_error + backup_state" where
  "cut_state_from_str s =
     (if s = ''preparing'' then Ok CutPreparing
      else if s = ''prepared'' then Ok CutPrepared
      else if s = ''sealed'' then Ok CutSealed
      else if s = ''released'' then Ok CutReleased
      else if s = ''aborted'' then Ok CutAborted
      else Err (SeCorrupt ''unknown backup state''))"

record participant_registration =
  pg_participant :: backup_participant
  pg_component_identity :: digest

record begin_cut =
  bc_cut_id :: string
  bc_authority_domain :: authority_domain_id
  bc_epoch :: epoch_id
  bc_quiescence_barrier_id :: string
  bc_participants :: "participant_registration list"
  bc_created_at_unix_ms :: int

definition begin_cut_validate :: "begin_cut \<Rightarrow> store_error + unit" where
  "begin_cut_validate q =
     res_bind (store_identifier ''cut_id'' (bc_cut_id q) 192) (\<lambda>_.
     res_bind (store_identifier ''quiescence_barrier_id'' (bc_quiescence_barrier_id q) 192) (\<lambda>_.
     if length (bc_participants q) \<noteq> length required_participants \<or>
       set (map pg_participant (bc_participants q)) \<noteq> set required_participants
     then Err SeInvalidBackupParticipants
     else if card (set (map pg_component_identity (bc_participants q))) \<noteq> length required_participants
     then Err SeInvalidBackupParticipants
     else Ok ()))"

datatype quiescence_boundary = OfflineServicesStopped

record quiescence_attestation =
  qa_schema :: string
  qa_cut_id :: string
  qa_authority_domain :: authority_domain_id
  qa_epoch :: epoch_id
  qa_quiescence_barrier_id :: string
  qa_participant :: backup_participant
  qa_boundary :: quiescence_boundary
  qa_boundary_summary :: digest
  qa_attesting_principal :: digest
  qa_attested_at_unix_ms :: int

definition attestation_validate_for :: "quiescence_attestation \<Rightarrow> string \<Rightarrow> authority_domain_id \<Rightarrow> epoch_id \<Rightarrow> string
    \<Rightarrow> backup_participant \<Rightarrow> store_error + unit" where
  "attestation_validate_for a cut_id authority_domain epoch barrier_id participant =
     (if qa_schema a \<noteq> ''ag-store-offline-quiescence-attestation-v1'' \<or> qa_cut_id a \<noteq> cut_id \<or>
        qa_authority_domain a \<noteq> authority_domain \<or> qa_epoch a \<noteq> epoch \<or>
        qa_quiescence_barrier_id a \<noteq> barrier_id \<or> qa_participant a \<noteq> participant \<or>
        qa_boundary a \<noteq> OfflineServicesStopped
      then Err (SeInvalidQuiescenceAttestation participant) else Ok ())"

record backup_checkpoint =
  ck_participant :: backup_participant
  ck_component_identity :: digest
  ck_chain_head :: chain_head
  ck_blob_root :: digest
  ck_config_identity :: digest
  ck_schema_identity :: digest
  ck_profile_identity :: digest
  ck_build_identity :: digest
  ck_quiescence_attestation :: quiescence_attestation

record prepared_participant =
  pp_checkpoint :: backup_checkpoint
  pp_prepared_event_sequence :: u64
  pp_prepared_event_digest :: digest

record backup_manifest =
  mf_version :: string
  mf_cut_id :: string
  mf_authority_domain :: authority_domain_id
  mf_epoch :: epoch_id
  mf_quiescence_barrier_id :: string
  mf_participants :: "prepared_participant list"

record cut_record =
  cr_cut_id :: string
  cr_state :: backup_state
  cr_prepared_participants :: nat
  cr_manifest_digest :: "digest option"
  cr_release_bundle_digest :: "digest option"
  cr_abort_reason :: "string option"

section \<open>Serialized forms\<close>

definition registration_json :: "participant_registration \<Rightarrow> json" where
  "registration_json r = JObj
     [(''participant'', JStr (participant_str (pg_participant r))),
      (''component_identity'', digest_json (pg_component_identity r))]"

definition begin_cut_json :: "begin_cut \<Rightarrow> json" where
  "begin_cut_json q = JObj
     [(''cut_id'', JStr (bc_cut_id q)), (''authority_domain'', JStr (domain_str (bc_authority_domain q))),
      (''epoch'', epoch_json (bc_epoch q)), (''quiescence_barrier_id'', JStr (bc_quiescence_barrier_id q)),
      (''participants'', JArr (map registration_json (bc_participants q))),
      (''created_at_unix_ms'', JNum (bc_created_at_unix_ms q))]"

definition chain_head_fields :: "string list" where
  "chain_head_fields = [''sequence'', ''digest'']"

definition chain_head_json :: "chain_head \<Rightarrow> json" where
  "chain_head_json h = JObj (zip chain_head_fields [u64_json (ch_sequence h), digest_json (ch_digest h)])"

definition chain_head_deserialize :: "env \<Rightarrow> json \<Rightarrow> string + chain_head" where
  "chain_head_deserialize E j =
     res_bind (struct_fields chain_head_fields j) (\<lambda>vs.
     res_bind (u64_deserialize (vs ! 0)) (\<lambda>sequence.
     res_bind (digest_deserialize E (vs ! 1)) (\<lambda>d.
     Ok \<lparr>ch_sequence = sequence, ch_digest = d\<rparr>)))"

definition boundary_str :: "quiescence_boundary \<Rightarrow> string" where
  "boundary_str b = ''offline_services_stopped''"

definition boundary_deserialize :: "json \<Rightarrow> string + quiescence_boundary" where
  "boundary_deserialize j =
     res_bind (unit_variant j) (\<lambda>s.
       if s = ''offline_services_stopped'' then Ok OfflineServicesStopped else Err ''unknown variant'')"

definition participant_deserialize :: "json \<Rightarrow> string + backup_participant" where
  "participant_deserialize j =
     res_bind (unit_variant j) (\<lambda>s. map_err (\<lambda>_. ''unknown variant'') (participant_from_str s))"

definition i64_deserialize :: "json \<Rightarrow> string + int" where
  "i64_deserialize j =
     (case j of
        JNum n \<Rightarrow> if - (2 ^ 63) \<le> n \<and> n < 2 ^ 63 then Ok n else Err ''invalid i64''
      | _ \<Rightarrow> Err ''invalid type'')"

definition attestation_fields :: "string list" where
  "attestation_fields = [''schema'', ''cut_id'', ''authority_domain'', ''epoch'', ''quiescence_barrier_id'',
     ''participant'', ''boundary'', ''boundary_summary'', ''attesting_principal'', ''attested_at_unix_ms'']"

definition attestation_json :: "quiescence_attestation \<Rightarrow> json" where
  "attestation_json a = JObj (zip attestation_fields
     [JStr (qa_schema a), JStr (qa_cut_id a), JStr (domain_str (qa_authority_domain a)), epoch_json (qa_epoch a),
      JStr (qa_quiescence_barrier_id a), JStr (participant_str (qa_participant a)), JStr (boundary_str (qa_boundary a)),
      digest_json (qa_boundary_summary a), digest_json (qa_attesting_principal a), JNum (qa_attested_at_unix_ms a)])"

definition attestation_deserialize :: "env \<Rightarrow> json \<Rightarrow> string + quiescence_attestation" where
  "attestation_deserialize E j =
     res_bind (struct_fields attestation_fields j) (\<lambda>vs.
     res_bind (string_deserialize (vs ! 0)) (\<lambda>schema.
     res_bind (string_deserialize (vs ! 1)) (\<lambda>cut_id.
     res_bind (text_deserialize authority_domain_new (vs ! 2)) (\<lambda>authority_domain.
     res_bind (epoch_deserialize (vs ! 3)) (\<lambda>epoch.
     res_bind (string_deserialize (vs ! 4)) (\<lambda>barrier.
     res_bind (participant_deserialize (vs ! 5)) (\<lambda>participant.
     res_bind (boundary_deserialize (vs ! 6)) (\<lambda>boundary.
     res_bind (digest_deserialize E (vs ! 7)) (\<lambda>summary.
     res_bind (digest_deserialize E (vs ! 8)) (\<lambda>principal.
     res_bind (i64_deserialize (vs ! 9)) (\<lambda>at.
     Ok \<lparr>qa_schema = schema, qa_cut_id = cut_id, qa_authority_domain = authority_domain, qa_epoch = epoch,
       qa_quiescence_barrier_id = barrier, qa_participant = participant, qa_boundary = boundary,
       qa_boundary_summary = summary, qa_attesting_principal = principal, qa_attested_at_unix_ms = at\<rparr>)))))))))))"

definition checkpoint_fields :: "string list" where
  "checkpoint_fields = [''participant'', ''component_identity'', ''chain_head'', ''blob_root'', ''config_identity'',
     ''schema_identity'', ''profile_identity'', ''build_identity'', ''quiescence_attestation'']"

definition checkpoint_json :: "backup_checkpoint \<Rightarrow> json" where
  "checkpoint_json c = JObj (zip checkpoint_fields
     [JStr (participant_str (ck_participant c)), digest_json (ck_component_identity c), chain_head_json (ck_chain_head c),
      digest_json (ck_blob_root c), digest_json (ck_config_identity c), digest_json (ck_schema_identity c),
      digest_json (ck_profile_identity c), digest_json (ck_build_identity c),
      attestation_json (ck_quiescence_attestation c)])"

definition checkpoint_deserialize :: "env \<Rightarrow> json \<Rightarrow> string + backup_checkpoint" where
  "checkpoint_deserialize E j =
     res_bind (struct_fields checkpoint_fields j) (\<lambda>vs.
     res_bind (participant_deserialize (vs ! 0)) (\<lambda>participant.
     res_bind (digest_deserialize E (vs ! 1)) (\<lambda>component.
     res_bind (chain_head_deserialize E (vs ! 2)) (\<lambda>head.
     res_bind (digest_deserialize E (vs ! 3)) (\<lambda>blob_root.
     res_bind (digest_deserialize E (vs ! 4)) (\<lambda>config.
     res_bind (digest_deserialize E (vs ! 5)) (\<lambda>schema.
     res_bind (digest_deserialize E (vs ! 6)) (\<lambda>profile.
     res_bind (digest_deserialize E (vs ! 7)) (\<lambda>build.
     res_bind (attestation_deserialize E (vs ! 8)) (\<lambda>attestation.
     Ok \<lparr>ck_participant = participant, ck_component_identity = component, ck_chain_head = head,
       ck_blob_root = blob_root, ck_config_identity = config, ck_schema_identity = schema,
       ck_profile_identity = profile, ck_build_identity = build, ck_quiescence_attestation = attestation\<rparr>))))))))))"

definition prepared_json :: "prepared_participant \<Rightarrow> json" where
  "prepared_json p = JObj
     [(''checkpoint'', checkpoint_json (pp_checkpoint p)),
      (''prepared_event_sequence'', u64_json (pp_prepared_event_sequence p)),
      (''prepared_event_digest'', digest_json (pp_prepared_event_digest p))]"

definition manifest_json :: "backup_manifest \<Rightarrow> json" where
  "manifest_json m = JObj
     [(''version'', JStr (mf_version m)), (''cut_id'', JStr (mf_cut_id m)),
      (''authority_domain'', JStr (domain_str (mf_authority_domain m))), (''epoch'', epoch_json (mf_epoch m)),
      (''quiescence_barrier_id'', JStr (mf_quiescence_barrier_id m)),
      (''participants'', JArr (map prepared_json (mf_participants m)))]"

definition cut_materialized_json :: "string \<Rightarrow> backup_state \<Rightarrow> nat \<Rightarrow> digest option \<Rightarrow> digest option \<Rightarrow> string option \<Rightarrow> json" where
  "cut_materialized_json cut_id state prepared manifest bundle reason = JObj
     [(''cut_id'', JStr cut_id), (''state'', JStr (cut_state_str state)), (''prepared_participants'', JNum (int prepared)),
      (''manifest_digest'', option_json digest_json manifest), (''release_bundle_digest'', option_json digest_json bundle),
      (''abort_reason'', option_json JStr reason)]"

definition abort_payload_json :: "string \<Rightarrow> string \<Rightarrow> json" where
  "abort_payload_json cut_id reason = JObj [(''cut_id'', JStr cut_id), (''reason'', JStr reason)]"

definition release_payload_json :: "string \<Rightarrow> digest \<Rightarrow> json" where
  "release_payload_json cut_id bundle = JObj [(''cut_id'', JStr cut_id), (''bundle_digest'', digest_json bundle)]"

definition manifest_digest_of :: "env \<Rightarrow> backup_manifest \<Rightarrow> store_error + digest" where
  "manifest_digest_of E m = digest_jcs E ''ag-store-backup-manifest-v1'' (manifest_json m)"

section \<open>The backup tables\<close>

definition cut_active :: "cut_row \<Rightarrow> bool" where
  "cut_active c \<longleftrightarrow> cu_state c \<in> {''preparing'', ''prepared'', ''sealed''}"

text \<open>The \<open>CHECK\<close> constraints of one row.\<close>

definition cut_row_ok :: "cut_row \<Rightarrow> bool" where
  "cut_row_ok c \<longleftrightarrow> cu_epoch c > 0 \<and>
     cu_state c \<in> {''preparing'', ''prepared'', ''sealed'', ''released'', ''aborted''} \<and>
     (cu_state c \<in> {''sealed'', ''released''} \<longrightarrow> cu_manifest_digest c \<noteq> None) \<and>
     (cu_state c \<in> {''preparing'', ''prepared''} \<longrightarrow> cu_manifest_digest c = None) \<and>
     (cu_state c = ''released'' \<longleftrightarrow> cu_release_bundle_digest c \<noteq> None) \<and>
     (cu_state c = ''aborted'' \<longleftrightarrow> cu_abort_reason c \<noteq> None)"

definition present :: "('r \<Rightarrow> (int \<times> string) option) \<Rightarrow> 'r list \<Rightarrow> (int \<times> string) list" where
  "present column rows = concat (map (\<lambda>r. case column r of None \<Rightarrow> [] | Some x \<Rightarrow> [x]) rows)"

text \<open>A unique pair of event columns that refers to the events.\<close>

definition event_column_ok :: "event_row list \<Rightarrow> (int \<times> string) list \<Rightarrow> bool" where
  "event_column_ok events xs \<longleftrightarrow> distinct (map fst xs) \<and> distinct (map snd xs) \<and>
     list_all (\<lambda>x. list_ex (\<lambda>r. ev_sequence r = fst x) events) xs"

definition cuts_ok :: "event_row list \<Rightarrow> cut_row list \<Rightarrow> bool" where
  "cuts_ok events cuts \<longleftrightarrow> list_all cut_row_ok cuts \<and> distinct (map cu_cut_id cuts) \<and>
     distinct (map cu_quiescence_barrier_id cuts) \<and> length (filter cut_active cuts) \<le> 1 \<and>
     event_column_ok events (map cu_begin_event cuts) \<and> event_column_ok events (present cu_seal_event cuts) \<and>
     event_column_ok events (present cu_release_event cuts) \<and> event_column_ok events (present cu_abort_event cuts)"

definition checkpoint_event :: "participant_row \<Rightarrow> (int \<times> string) option" where
  "checkpoint_event p = map_option (\<lambda>(_, _, event). event) (pr_checkpoint p)"

definition participants_ok :: "event_row list \<Rightarrow> cut_row list \<Rightarrow> participant_row list \<Rightarrow> bool" where
  "participants_ok events cuts ps \<longleftrightarrow>
     list_all (\<lambda>p. pr_participant p \<in> {''agd'', ''ag-effectd'', ''ag-providerd''} \<and>
       list_ex (\<lambda>c. cu_cut_id c = pr_cut_id p) cuts) ps \<and>
     distinct (map (\<lambda>p. (pr_cut_id p, pr_participant p)) ps) \<and> event_column_ok events (present checkpoint_event ps)"

definition set_cuts :: "cut_row list \<Rightarrow> store_db \<Rightarrow> store_error + store_db" where
  "set_cuts cuts db = (if cuts_ok (db_events db) cuts then Ok (db\<lparr>db_cuts := cuts\<rparr>) else Err SeSqlite)"

definition set_participants :: "participant_row list \<Rightarrow> store_db \<Rightarrow> store_error + store_db" where
  "set_participants ps db =
     (if participants_ok (db_events db) (db_cuts db) ps then Ok (db\<lparr>db_participants := ps\<rparr>) else Err SeSqlite)"

definition find_cut :: "store_db \<Rightarrow> string \<Rightarrow> cut_row option" where
  "find_cut db cut_id = List.find (\<lambda>c. cu_cut_id c = cut_id) (db_cuts db)"

definition update_cut :: "string \<Rightarrow> (cut_row \<Rightarrow> cut_row) \<Rightarrow> store_db \<Rightarrow> store_error + store_db" where
  "update_cut cut_id f db = set_cuts (map (\<lambda>c. if cu_cut_id c = cut_id then f c else c) (db_cuts db)) db"

definition find_participant :: "store_db \<Rightarrow> string \<Rightarrow> backup_participant \<Rightarrow> participant_row option" where
  "find_participant db cut_id p =
     List.find (\<lambda>r. pr_cut_id r = cut_id \<and> pr_participant r = participant_str p) (db_participants db)"

definition prepared_count :: "store_db \<Rightarrow> string \<Rightarrow> nat" where
  "prepared_count db cut_id =
     length (filter (\<lambda>r. pr_cut_id r = cut_id \<and> pr_checkpoint r \<noteq> None) (db_participants db))"

definition to_u8 :: "nat \<Rightarrow> store_error + nat" where
  "to_u8 n = (if n < 256 then Ok n else Err (SeCorrupt ''prepared participant count does not fit u8''))"

definition backup_entity_id :: "string \<Rightarrow> string" where
  "backup_entity_id cut_id = ''backup-cut:'' @ cut_id"

definition backup_state_in_transaction :: "store_db \<Rightarrow> string \<Rightarrow> store_error + backup_state" where
  "backup_state_in_transaction db cut_id =
     res_bind (ok_or (SeBackupCutNotFound cut_id) (find_cut db cut_id)) (\<lambda>c. cut_state_from_str (cu_state c))"

section \<open>The cut lifecycle\<close>

definition begin_backup_cut :: "env \<Rightarrow> begin_cut \<Rightarrow> store_db \<Rightarrow> (store_error + event_receipt) \<times> store_db" where
  "begin_backup_cut E request db =
     (case res_bind (begin_cut_validate request) (\<lambda>_.
        digest_jcs E ''ag-store-backup-begin-request-v1'' (begin_cut_json request)) of
        Inl e \<Rightarrow> (Err e, db)
      | Inr request_digest \<Rightarrow>
        (case find_cut db (bc_cut_id request) of
           Some c \<Rightarrow>
             (if cu_begin_request_digest c \<noteq> as_str request_digest then Err (SeBackupCutConflict (bc_cut_id request))
              else event_receipt_by_sequence E db (fst (cu_begin_event c)), db)
         | None \<Rightarrow>
             if active_backup_cut db \<noteq> None then (Err SeBackupCutAlreadyActive, db)
             else transaction (\<lambda>db.
               if active_backup_cut db \<noteq> None then Err SeBackupCutAlreadyActive
               else
               res_bind (append_event_in_transaction E
                 \<lparr>ne_event_id = ''backup:'' @ bc_cut_id request @ '':begin'',
                  ne_entity_id = backup_entity_id (bc_cut_id request), ne_event_kind = ''backup-cut.begin.v1'',
                  ne_occurred_at_unix_ms = bc_created_at_unix_ms request, ne_payload = begin_cut_json request\<rparr>
                 (cut_materialized_json (bc_cut_id request) CutPreparing 0 None None None) 0 db) (\<lambda>(receipt, db1).
               res_bind (to_i64 (epoch_get (bc_epoch request)) ''backup epoch'') (\<lambda>epoch.
               res_bind (to_i64 (er_sequence receipt) ''event sequence'') (\<lambda>sequence.
               res_bind (set_cuts (db_cuts db1 @ [\<lparr>cu_cut_id = bc_cut_id request,
                   cu_authority_domain = domain_str (bc_authority_domain request), cu_epoch = epoch,
                   cu_quiescence_barrier_id = bc_quiescence_barrier_id request, cu_state = ''preparing'',
                   cu_begin_request_digest = as_str request_digest,
                   cu_begin_event = (sequence, as_str (er_event_digest receipt)),
                   cu_manifest_digest = None, cu_seal_event = None, cu_release_bundle_digest = None,
                   cu_release_event = None, cu_abort_reason = None, cu_abort_event = None,
                   cu_created_at_unix_ms = bc_created_at_unix_ms request,
                   cu_updated_at_unix_ms = bc_created_at_unix_ms request\<rparr>]) db1) (\<lambda>db2.
               res_bind (set_participants (db_participants db2 @ map (\<lambda>g.
                   \<lparr>pr_cut_id = bc_cut_id request, pr_participant = participant_str (pg_participant g),
                    pr_component_identity = as_str (pg_component_identity g), pr_checkpoint = None\<rparr>)
                   (bc_participants request)) db2) (\<lambda>db3.
               Ok (receipt, db3))))))) db))"

definition checkpoint_digest_of :: "env \<Rightarrow> bytes \<Rightarrow> digest" where
  "checkpoint_digest_of E b = hash_domain E ''ag-store-backup-checkpoint-v1'' b"

text \<open>The checks of a preparation before its transaction: the canonical checkpoint and the earlier row.\<close>

definition prepare_checks :: "env \<Rightarrow> string \<Rightarrow> backup_checkpoint \<Rightarrow> store_db \<Rightarrow> store_error + bytes \<times> participant_row" where
  "prepare_checks E cut_id checkpoint db =
     res_bind (ok_or (SeBackupCutNotFound cut_id) (find_cut db cut_id)) (\<lambda>c.
     res_bind (map_err (\<lambda>_. SeCorrupt ''invalid stored authority domain'') (authority_domain_new (cu_authority_domain c))) (\<lambda>authority_domain.
     res_bind (to_u64 (cu_epoch c) ''backup epoch'') (\<lambda>epoch_value.
     res_bind (map_err (\<lambda>_. SeCorrupt ''invalid stored epoch'') (epoch_new epoch_value)) (\<lambda>epoch.
     res_bind (attestation_validate_for (ck_quiescence_attestation checkpoint) cut_id authority_domain epoch
       (cu_quiescence_barrier_id c) (ck_participant checkpoint)) (\<lambda>_.
     res_bind (store_jcs E (checkpoint_json checkpoint)) (\<lambda>checkpoint_jcs.
     res_bind (ok_or (SeBackupParticipantMismatch (ck_participant checkpoint))
       (find_participant db cut_id (ck_participant checkpoint))) (\<lambda>row.
     if pr_component_identity row \<noteq> as_str (ck_component_identity checkpoint)
     then Err (SeBackupParticipantMismatch (ck_participant checkpoint))
     else Ok (checkpoint_jcs, row))))))))"

definition prepare_transaction :: "env \<Rightarrow> string \<Rightarrow> backup_checkpoint \<Rightarrow> bytes \<Rightarrow> int \<Rightarrow> store_db
    \<Rightarrow> store_error + (event_receipt \<times> store_db)" where
  "prepare_transaction E cut_id checkpoint checkpoint_jcs at db =
     res_bind (backup_state_in_transaction db cut_id) (\<lambda>state.
     if state \<notin> {CutPreparing, CutPrepared} then Err (SeInvalidBackupTransition ''prepare participant'' state)
     else
     let resulting_count = prepared_count db cut_id + 1;
         resulting_state = (if resulting_count = length required_participants then CutPrepared else CutPreparing) in
     res_bind (materialized_revision db (backup_entity_id cut_id)) (\<lambda>current_revision.
     res_bind (to_u8 resulting_count) (\<lambda>prepared.
     res_bind (append_event_in_transaction E
       \<lparr>ne_event_id = ''backup:'' @ cut_id @ '':prepared:'' @ participant_str (ck_participant checkpoint),
        ne_entity_id = backup_entity_id cut_id, ne_event_kind = ''backup-cut.participant-prepared.v1'',
        ne_occurred_at_unix_ms = at, ne_payload = checkpoint_json checkpoint\<rparr>
       (cut_materialized_json cut_id resulting_state prepared None None None) current_revision db) (\<lambda>(receipt, db1).
     res_bind (to_i64 (er_sequence receipt) ''event sequence'') (\<lambda>sequence.
     let target = (\<lambda>r. pr_cut_id r = cut_id \<and> pr_participant r = participant_str (ck_participant checkpoint) \<and>
           pr_checkpoint r = None);
         value = (checkpoint_jcs, as_str (checkpoint_digest_of E checkpoint_jcs), sequence, as_str (er_event_digest receipt)) in
     res_bind (set_participants (map (\<lambda>r. if target r then r\<lparr>pr_checkpoint := Some value\<rparr> else r) (db_participants db1)) db1) (\<lambda>db2.
     if length (filter target (db_participants db1)) \<noteq> 1 then Err (SeBackupCheckpointConflict (ck_participant checkpoint))
     else
     res_bind (update_cut cut_id (\<lambda>c. c\<lparr>cu_state := cut_state_str resulting_state, cu_updated_at_unix_ms := at\<rparr>) db2) (\<lambda>db3.
     Ok (receipt, db3))))))))"

definition prepare_backup_participant :: "env \<Rightarrow> string \<Rightarrow> backup_checkpoint \<Rightarrow> int \<Rightarrow> store_db
    \<Rightarrow> (store_error + event_receipt) \<times> store_db" where
  "prepare_backup_participant E cut_id checkpoint at db =
     (case prepare_checks E cut_id checkpoint db of
        Inl e \<Rightarrow> (Err e, db)
      | Inr (checkpoint_jcs, row) \<Rightarrow>
        (case pr_checkpoint row of
           Some (_, prior_digest, prior_sequence, _) \<Rightarrow>
             (if prior_digest \<noteq> as_str (checkpoint_digest_of E checkpoint_jcs)
              then Err (SeBackupCheckpointConflict (ck_participant checkpoint))
              else event_receipt_by_sequence E db prior_sequence, db)
         | None \<Rightarrow> transaction (prepare_transaction E cut_id checkpoint checkpoint_jcs at) db))"

text \<open>One participant row of the manifest; the rows come in the order of their names.\<close>

definition manifest_row :: "env \<Rightarrow> participant_row \<Rightarrow> store_error + backup_participant \<times> prepared_participant" where
  "manifest_row E r =
     res_bind (participant_from_str (pr_participant r)) (\<lambda>role.
     res_bind (ok_or SeBackupNotPrepared (pr_checkpoint r)) (\<lambda>(checkpoint_jcs, _, sequence, receipt_digest).
     res_bind (map_err SeInvalidStoredJson (res_bind (env_json_tree E checkpoint_jcs) (checkpoint_deserialize E))) (\<lambda>checkpoint.
     if ck_participant checkpoint \<noteq> role then Err (SeCorrupt ''checkpoint participant disagrees with table key'')
     else
     res_bind (to_u64 sequence ''prepared event sequence'') (\<lambda>s.
     res_bind (store_digest_from_str E receipt_digest) (\<lambda>d.
     Ok (role, \<lparr>pp_checkpoint = checkpoint, pp_prepared_event_sequence = s, pp_prepared_event_digest = d\<rparr>))))))"

definition build_backup_manifest :: "env \<Rightarrow> store_db \<Rightarrow> string \<Rightarrow> store_error + backup_manifest" where
  "build_backup_manifest E db cut_id =
     res_bind (ok_or (SeBackupCutNotFound cut_id) (find_cut db cut_id)) (\<lambda>c.
     res_bind (cut_state_from_str (cu_state c)) (\<lambda>state.
     if state \<notin> {CutPrepared, CutSealed, CutReleased} then Err SeBackupNotPrepared
     else
     res_bind (try_map (manifest_row E)
       (sort_key pr_participant (filter (\<lambda>r. pr_cut_id r = cut_id) (db_participants db)))) (\<lambda>rows.
     res_bind (try_map (\<lambda>role. ok_or SeBackupNotPrepared (map_of (rev rows) role)) required_participants) (\<lambda>participants.
     if \<not> set (map fst rows) \<subseteq> set required_participants then Err SeInvalidBackupParticipants
     else
     res_bind (map_err (\<lambda>_. SeCorrupt ''invalid stored authority domain'') (authority_domain_new (cu_authority_domain c))) (\<lambda>authority_domain.
     res_bind (to_u64 (cu_epoch c) ''backup epoch'') (\<lambda>epoch_value.
     res_bind (map_err (\<lambda>_. SeCorrupt ''invalid stored epoch'') (epoch_new epoch_value)) (\<lambda>epoch.
     Ok \<lparr>mf_version = ''backup-cut/v1'', mf_cut_id = cut_id, mf_authority_domain = authority_domain, mf_epoch = epoch,
       mf_quiescence_barrier_id = cu_quiescence_barrier_id c, mf_participants = participants\<rparr>)))))))"

definition seal_transaction :: "env \<Rightarrow> backup_manifest \<Rightarrow> digest \<Rightarrow> int \<Rightarrow> store_db \<Rightarrow> store_error + (event_receipt \<times> store_db)" where
  "seal_transaction E manifest manifest_digest at db =
     res_bind (backup_state_in_transaction db (mf_cut_id manifest)) (\<lambda>state.
     if state \<noteq> CutPrepared then Err (SeInvalidBackupTransition ''seal'' state)
     else
     res_bind (materialized_revision db (backup_entity_id (mf_cut_id manifest))) (\<lambda>current_revision.
     res_bind (append_event_in_transaction E
       \<lparr>ne_event_id = ''backup:'' @ mf_cut_id manifest @ '':sealed'', ne_entity_id = backup_entity_id (mf_cut_id manifest),
        ne_event_kind = ''backup-cut.sealed.v1'', ne_occurred_at_unix_ms = at, ne_payload = manifest_json manifest\<rparr>
       (cut_materialized_json (mf_cut_id manifest) CutSealed 3 (Some manifest_digest) None None)
       current_revision db) (\<lambda>(receipt, db1).
     res_bind (to_i64 (er_sequence receipt) ''event sequence'') (\<lambda>sequence.
     res_bind (update_cut (mf_cut_id manifest) (\<lambda>c. c\<lparr>cu_state := ''sealed'',
       cu_manifest_digest := Some (as_str manifest_digest),
       cu_seal_event := Some (sequence, as_str (er_event_digest receipt)), cu_updated_at_unix_ms := at\<rparr>) db1) (\<lambda>db2.
     Ok (receipt, db2))))))"

definition seal_backup_cut :: "env \<Rightarrow> backup_manifest \<Rightarrow> int \<Rightarrow> store_db \<Rightarrow> (store_error + event_receipt) \<times> store_db" where
  "seal_backup_cut E manifest at db =
     (case res_bind (manifest_digest_of E manifest) (\<lambda>d.
        res_bind (ok_or (SeBackupCutNotFound (mf_cut_id manifest)) (find_cut db (mf_cut_id manifest))) (\<lambda>c.
        res_bind (cut_state_from_str (cu_state c)) (\<lambda>_. Ok (d, c)))) of
        Inl e \<Rightarrow> (Err e, db)
      | Inr (manifest_digest, c) \<Rightarrow>
        if cu_manifest_digest c \<noteq> None
        then (if cu_manifest_digest c \<noteq> Some (as_str manifest_digest) then Err SeBackupManifestMismatch
              else res_bind (ok_or (SeCorrupt ''sealed cut lacks event sequence'') (cu_seal_event c)) (\<lambda>(sequence, _).
                event_receipt_by_sequence E db sequence), db)
        else
        case res_bind (build_backup_manifest E db (mf_cut_id manifest)) (\<lambda>expected.
             res_bind (store_jcs E (manifest_json expected)) (\<lambda>a.
             res_bind (store_jcs E (manifest_json manifest)) (\<lambda>b.
             if a \<noteq> b then Err SeBackupManifestMismatch else Ok ()))) of
          Inl e \<Rightarrow> (Err e, db)
        | Inr _ \<Rightarrow> transaction (seal_transaction E manifest manifest_digest at) db)"

definition release_transaction :: "env \<Rightarrow> string \<Rightarrow> digest \<Rightarrow> int \<Rightarrow> store_db \<Rightarrow> store_error + (event_receipt \<times> store_db)" where
  "release_transaction E cut_id bundle_digest at db =
     res_bind (backup_state_in_transaction db cut_id) (\<lambda>state.
     if state \<noteq> CutSealed then Err (SeInvalidBackupTransition ''release'' state)
     else
     res_bind (ok_or SeSqlite (Option.bind (find_cut db cut_id) cu_manifest_digest)) (\<lambda>stored.
     res_bind (store_digest_from_str E stored) (\<lambda>manifest_digest.
     res_bind (materialized_revision db (backup_entity_id cut_id)) (\<lambda>current_revision.
     res_bind (append_event_in_transaction E
       \<lparr>ne_event_id = ''backup:'' @ cut_id @ '':released'', ne_entity_id = backup_entity_id cut_id,
        ne_event_kind = ''backup-cut.released.v1'', ne_occurred_at_unix_ms = at,
        ne_payload = release_payload_json cut_id bundle_digest\<rparr>
       (cut_materialized_json cut_id CutReleased 3 (Some manifest_digest) (Some bundle_digest) None)
       current_revision db) (\<lambda>(receipt, db1).
     res_bind (to_i64 (er_sequence receipt) ''event sequence'') (\<lambda>sequence.
     res_bind (update_cut cut_id (\<lambda>c. c\<lparr>cu_state := ''released'', cu_release_bundle_digest := Some (as_str bundle_digest),
       cu_release_event := Some (sequence, as_str (er_event_digest receipt)), cu_updated_at_unix_ms := at\<rparr>) db1) (\<lambda>db2.
     Ok (receipt, db2))))))))"

definition release_backup_cut :: "env \<Rightarrow> string \<Rightarrow> digest \<Rightarrow> int \<Rightarrow> store_db \<Rightarrow> (store_error + event_receipt) \<times> store_db" where
  "release_backup_cut E cut_id bundle_digest at db =
     (case res_bind (ok_or (SeBackupCutNotFound cut_id) (find_cut db cut_id)) (\<lambda>c.
        res_bind (cut_state_from_str (cu_state c)) (\<lambda>state. Ok (c, state))) of
        Inl e \<Rightarrow> (Err e, db)
      | Inr (c, state) \<Rightarrow>
        if state = CutReleased
        then (if cu_release_bundle_digest c \<noteq> Some (as_str bundle_digest) then Err (SeBackupCutConflict cut_id)
              else res_bind (ok_or (SeCorrupt ''released cut lacks event sequence'') (cu_release_event c)) (\<lambda>(sequence, _).
                event_receipt_by_sequence E db sequence), db)
        else transaction (release_transaction E cut_id bundle_digest at) db)"

definition abort_transaction :: "env \<Rightarrow> string \<Rightarrow> string \<Rightarrow> int \<Rightarrow> store_db \<Rightarrow> store_error + (event_receipt \<times> store_db)" where
  "abort_transaction E cut_id reason at db =
     res_bind (backup_state_in_transaction db cut_id) (\<lambda>state.
     if state \<notin> {CutPreparing, CutPrepared, CutSealed} then Err (SeInvalidBackupTransition ''abort'' state)
     else
     res_bind (materialized_revision db (backup_entity_id cut_id)) (\<lambda>current_revision.
     res_bind (case Option.bind (find_cut db cut_id) cu_manifest_digest of
         None \<Rightarrow> Ok None
       | Some d \<Rightarrow> res_bind (store_digest_from_str E d) (\<lambda>d'. Ok (Some d'))) (\<lambda>manifest_digest.
     res_bind (to_u8 (prepared_count db cut_id)) (\<lambda>prepared.
     res_bind (append_event_in_transaction E
       \<lparr>ne_event_id = ''backup:'' @ cut_id @ '':aborted'', ne_entity_id = backup_entity_id cut_id,
        ne_event_kind = ''backup-cut.aborted.v1'', ne_occurred_at_unix_ms = at,
        ne_payload = abort_payload_json cut_id reason\<rparr>
       (cut_materialized_json cut_id CutAborted prepared manifest_digest None (Some reason))
       current_revision db) (\<lambda>(receipt, db1).
     res_bind (to_i64 (er_sequence receipt) ''event sequence'') (\<lambda>sequence.
     res_bind (update_cut cut_id (\<lambda>c. c\<lparr>cu_state := ''aborted'', cu_abort_reason := Some reason,
       cu_abort_event := Some (sequence, as_str (er_event_digest receipt)), cu_updated_at_unix_ms := at\<rparr>) db1) (\<lambda>db2.
     Ok (receipt, db2))))))))"

definition abort_backup_cut :: "env \<Rightarrow> string \<Rightarrow> string \<Rightarrow> int \<Rightarrow> store_db \<Rightarrow> (store_error + event_receipt) \<times> store_db" where
  "abort_backup_cut E cut_id reason at db =
     (case res_bind (store_identifier ''abort_reason'' reason 256) (\<lambda>_.
        res_bind (ok_or (SeBackupCutNotFound cut_id) (find_cut db cut_id)) (\<lambda>c.
        res_bind (cut_state_from_str (cu_state c)) (\<lambda>state. Ok (c, state)))) of
        Inl e \<Rightarrow> (Err e, db)
      | Inr (c, state) \<Rightarrow>
        if state = CutAborted
        then (if cu_abort_reason c \<noteq> Some reason then Err (SeBackupCutConflict cut_id)
              else res_bind (ok_or (SeCorrupt ''aborted cut lacks event sequence'') (cu_abort_event c)) (\<lambda>(sequence, _).
                event_receipt_by_sequence E db sequence), db)
        else transaction (abort_transaction E cut_id reason at) db)"

definition backup_cut :: "env \<Rightarrow> store_db \<Rightarrow> string \<Rightarrow> store_error + cut_record" where
  "backup_cut E db cut_id =
     res_bind (ok_or (SeBackupCutNotFound cut_id) (find_cut db cut_id)) (\<lambda>c.
     res_bind (cut_state_from_str (cu_state c)) (\<lambda>state.
     res_bind (to_u8 (prepared_count db cut_id)) (\<lambda>prepared.
     res_bind (case cu_manifest_digest c of None \<Rightarrow> Ok None
       | Some d \<Rightarrow> res_bind (store_digest_from_str E d) (\<lambda>d'. Ok (Some d'))) (\<lambda>manifest.
     res_bind (case cu_release_bundle_digest c of None \<Rightarrow> Ok None
       | Some d \<Rightarrow> res_bind (store_digest_from_str E d) (\<lambda>d'. Ok (Some d'))) (\<lambda>bundle.
     Ok \<lparr>cr_cut_id = cut_id, cr_state = state, cr_prepared_participants = prepared, cr_manifest_digest = manifest,
       cr_release_bundle_digest = bundle, cr_abort_reason = cu_abort_reason c\<rparr>)))))"

section \<open>The tables under the operations\<close>

text \<open>A committed transition: one appended event and the new backup tables.\<close>

definition cut_commit :: "env \<Rightarrow> string \<Rightarrow> cut_row list \<Rightarrow> participant_row list \<Rightarrow> event_receipt \<Rightarrow> store_db \<Rightarrow> store_db \<Rightarrow> bool" where
  "cut_commit E cut_id cuts ps r db db' \<longleftrightarrow>
     (\<exists>event state x db1. append_event_in_transaction E event state x db = Inr (r, db1) \<and>
        ne_entity_id event = backup_entity_id cut_id \<and> db' = db1\<lparr>db_cuts := cuts, db_participants := ps\<rparr> \<and>
        cuts_ok (db_events db1) cuts)"

definition new_cut :: "begin_cut \<Rightarrow> digest \<Rightarrow> event_receipt \<Rightarrow> cut_row" where
  "new_cut q d r = \<lparr>cu_cut_id = bc_cut_id q, cu_authority_domain = domain_str (bc_authority_domain q),
     cu_epoch = uint (epoch_get (bc_epoch q)), cu_quiescence_barrier_id = bc_quiescence_barrier_id q,
     cu_state = ''preparing'', cu_begin_request_digest = as_str d,
     cu_begin_event = (uint (er_sequence r), as_str (er_event_digest r)), cu_manifest_digest = None,
     cu_seal_event = None, cu_release_bundle_digest = None, cu_release_event = None, cu_abort_reason = None,
     cu_abort_event = None, cu_created_at_unix_ms = bc_created_at_unix_ms q,
     cu_updated_at_unix_ms = bc_created_at_unix_ms q\<rparr>"

definition new_participants :: "begin_cut \<Rightarrow> participant_row list" where
  "new_participants q = map (\<lambda>g. \<lparr>pr_cut_id = bc_cut_id q, pr_participant = participant_str (pg_participant g),
     pr_component_identity = as_str (pg_component_identity g), pr_checkpoint = None\<rparr>) (bc_participants q)"

definition update_rows :: "string \<Rightarrow> (cut_row \<Rightarrow> cut_row) \<Rightarrow> cut_row list \<Rightarrow> cut_row list" where
  "update_rows cut_id f cuts = map (\<lambda>c. if cu_cut_id c = cut_id then f c else c) cuts"

lemma set_cuts_iff: "set_cuts cuts db = Inr db' \<longleftrightarrow> cuts_ok (db_events db) cuts \<and> db' = db\<lparr>db_cuts := cuts\<rparr>"
  by (auto simp: set_cuts_def)

lemma set_participants_iff:
  "set_participants ps db = Inr db' \<longleftrightarrow> participants_ok (db_events db) (db_cuts db) ps \<and> db' = db\<lparr>db_participants := ps\<rparr>"
  by (auto simp: set_participants_def)

lemma update_cut_iff:
  "update_cut cut_id f db = Inr db' \<longleftrightarrow>
     cuts_ok (db_events db) (update_rows cut_id f (db_cuts db)) \<and> db' = db\<lparr>db_cuts := update_rows cut_id f (db_cuts db)\<rparr>"
  by (simp add: update_cut_def update_rows_def set_cuts_iff)

lemma transaction_Ok: "transaction body db = (Inr r, db') \<longleftrightarrow> body db = Inr (r, db')"
  by (auto simp: transaction_def split: sum.splits)

lemma transaction_Err: "transaction body db = (Inl e, db') \<Longrightarrow> db' = db"
  by (auto simp: transaction_def split: sum.splits)

lemmas append_keeps = store_frame_eq [OF append_in_transaction_frame]

lemma begin_Ok:
  assumes "begin_backup_cut E q db = (Inr r, db')"
  shows "\<exists>d. begin_cut_validate q = Inr () \<and> digest_jcs E ''ag-store-backup-begin-request-v1'' (begin_cut_json q) = Inr d \<and>
    ((\<exists>c. find_cut db (bc_cut_id q) = Some c \<and> cu_begin_request_digest c = as_str d \<and>
        event_receipt_by_sequence E db (fst (cu_begin_event c)) = Inr r \<and> db' = db) \<or>
     find_cut db (bc_cut_id q) = None \<and> active_backup_cut db = None \<and> uint (epoch_get (bc_epoch q)) < 2 ^ 63 \<and>
     cut_commit E (bc_cut_id q) (db_cuts db @ [new_cut q d r]) (db_participants db @ new_participants q) r db db' \<and>
     participants_ok (db_events db') (db_cuts db') (db_participants db'))"
proof -
  obtain d where d: "begin_cut_validate q = Inr ()" "digest_jcs E ''ag-store-backup-begin-request-v1'' (begin_cut_json q) = Inr d"
    using assms by (auto simp: begin_backup_cut_def ag_check split: sum.splits)
  show ?thesis
  proof (cases "find_cut db (bc_cut_id q)")
    case (Some c)
    then show ?thesis using assms d by (auto simp: begin_backup_cut_def split: if_splits)
  next
    case None
    obtain event state db1 db2 where
      a: "append_event_in_transaction E event state 0 db = Inr (r, db1)" "ne_entity_id event = backup_entity_id (bc_cut_id q)"
      and free: "active_backup_cut db = None" "uint (epoch_get (bc_epoch q)) < 2 ^ 63"
      and b: "set_cuts (db_cuts db1 @ [new_cut q d r]) db1 = Inr db2"
        "set_participants (db_participants db2 @ new_participants q) db2 = Inr db'"
      using assms d None
      by (auto simp: begin_backup_cut_def ag_check transaction_Ok to_i64_iff new_cut_def new_participants_def split: if_splits)
    from b have db': "db' = db1\<lparr>db_cuts := db_cuts db @ [new_cut q d r], db_participants := db_participants db @ new_participants q\<rparr>"
      "cuts_ok (db_events db1) (db_cuts db @ [new_cut q d r])" "participants_ok (db_events db') (db_cuts db') (db_participants db')"
      using append_keeps [OF a(1)] by (auto simp: set_cuts_iff set_participants_iff)
    have "cut_commit E (bc_cut_id q) (db_cuts db @ [new_cut q d r]) (db_participants db @ new_participants q) r db db'"
      unfolding cut_commit_def using a db' by blast
    with d None free db' show ?thesis by blast
  qed
qed

text \<open>The changes of the other four transitions.\<close>

definition checkpoint_value :: "env \<Rightarrow> bytes \<Rightarrow> event_receipt \<Rightarrow> bytes \<times> string \<times> int \<times> string" where
  "checkpoint_value E b r = (b, as_str (checkpoint_digest_of E b), uint (er_sequence r), as_str (er_event_digest r))"

definition record_checkpoint :: "string \<Rightarrow> backup_participant \<Rightarrow> bytes \<times> string \<times> int \<times> string
    \<Rightarrow> participant_row list \<Rightarrow> participant_row list" where
  "record_checkpoint cut_id p v rows = map (\<lambda>r. if pr_cut_id r = cut_id \<and> pr_participant r = participant_str p \<and>
     pr_checkpoint r = None then r\<lparr>pr_checkpoint := Some v\<rparr> else r) rows"

definition after_prepare :: "nat \<Rightarrow> backup_state" where
  "after_prepare n = (if n = length required_participants then CutPrepared else CutPreparing)"

definition prepared_cut :: "nat \<Rightarrow> int \<Rightarrow> cut_row \<Rightarrow> cut_row" where
  "prepared_cut n at c = c\<lparr>cu_state := cut_state_str (after_prepare n), cu_updated_at_unix_ms := at\<rparr>"

definition sealed_cut :: "digest \<Rightarrow> event_receipt \<Rightarrow> int \<Rightarrow> cut_row \<Rightarrow> cut_row" where
  "sealed_cut d r at c = c\<lparr>cu_state := ''sealed'', cu_manifest_digest := Some (as_str d),
     cu_seal_event := Some (uint (er_sequence r), as_str (er_event_digest r)), cu_updated_at_unix_ms := at\<rparr>"

definition released_cut :: "digest \<Rightarrow> event_receipt \<Rightarrow> int \<Rightarrow> cut_row \<Rightarrow> cut_row" where
  "released_cut d r at c = c\<lparr>cu_state := ''released'', cu_release_bundle_digest := Some (as_str d),
     cu_release_event := Some (uint (er_sequence r), as_str (er_event_digest r)), cu_updated_at_unix_ms := at\<rparr>"

definition aborted_cut :: "string \<Rightarrow> event_receipt \<Rightarrow> int \<Rightarrow> cut_row \<Rightarrow> cut_row" where
  "aborted_cut reason r at c = c\<lparr>cu_state := ''aborted'', cu_abort_reason := Some reason,
     cu_abort_event := Some (uint (er_sequence r), as_str (er_event_digest r)), cu_updated_at_unix_ms := at\<rparr>"

lemmas cut_changes = prepared_cut_def sealed_cut_def released_cut_def aborted_cut_def

lemma cut_state_from_str_iff: "cut_state_from_str s = Inr st \<longleftrightarrow> s = cut_state_str st"
  by (cases st) (auto simp: cut_state_from_str_def split: if_splits)

lemma cut_state_str_inject [simp]: "cut_state_str a = cut_state_str b \<longleftrightarrow> a = b"
  by (cases a; cases b) simp_all

lemma participant_from_str_iff: "participant_from_str s = Inr p \<longleftrightarrow> s = participant_str p"
  by (cases p) (auto simp: participant_from_str_def split: if_splits)

lemma participant_str_inject [simp]: "participant_str a = participant_str b \<longleftrightarrow> a = b"
  by (cases a; cases b) simp_all

lemma backup_state_iff:
  "backup_state_in_transaction db k = Inr st \<longleftrightarrow> (\<exists>c. find_cut db k = Some c \<and> cu_state c = cut_state_str st)"
  by (auto simp: backup_state_in_transaction_def ag_check ok_or_def cut_state_from_str_iff split: option.splits)

lemma prepare_Ok:
  assumes "prepare_backup_participant E cut_id ck at db = (Inr r, db')"
  shows "\<exists>b row. prepare_checks E cut_id ck db = Inr (b, row) \<and>
    ((\<exists>x n y. pr_checkpoint row = Some (x, as_str (checkpoint_digest_of E b), n, y) \<and>
        event_receipt_by_sequence E db n = Inr r \<and> db' = db) \<or>
     pr_checkpoint row = None \<and>
     (\<exists>st. backup_state_in_transaction db cut_id = Inr st \<and> st \<in> {CutPreparing, CutPrepared}) \<and>
     cut_commit E cut_id (update_rows cut_id (prepared_cut (prepared_count db cut_id + 1) at) (db_cuts db))
       (record_checkpoint cut_id (ck_participant ck) (checkpoint_value E b r) (db_participants db)) r db db' \<and>
     participants_ok (db_events db') (db_cuts db) (db_participants db'))"
proof -
  obtain b row where b: "prepare_checks E cut_id ck db = Inr (b, row)"
    using assms by (auto simp: prepare_backup_participant_def split: sum.splits)
  show ?thesis
  proof (cases "pr_checkpoint row")
    case (Some v)
    then show ?thesis using assms b
      by (cases v) (auto simp: prepare_backup_participant_def split: if_splits)
  next
    case None
    let ?n = "prepared_count db cut_id + 1"
    obtain st event state x db1 db2 where
      st: "backup_state_in_transaction db cut_id = Inr st" "st \<in> {CutPreparing, CutPrepared}"
      and a: "append_event_in_transaction E event state x db = Inr (r, db1)" "ne_entity_id event = backup_entity_id cut_id"
      and c: "set_participants (record_checkpoint cut_id (ck_participant ck) (checkpoint_value E b r) (db_participants db1)) db1 = Inr db2"
        "update_cut cut_id (prepared_cut ?n at) db2 = Inr db'"
      using assms b None
      by (auto simp: prepare_backup_participant_def transaction_Ok prepare_transaction_def ag_check Let_def to_i64_iff
          record_checkpoint_def checkpoint_value_def prepared_cut_def [abs_def] after_prepare_def split: if_splits)
    from c have "db' = db1\<lparr>db_cuts := update_rows cut_id (prepared_cut ?n at) (db_cuts db),
        db_participants := record_checkpoint cut_id (ck_participant ck) (checkpoint_value E b r) (db_participants db)\<rparr>"
      "cuts_ok (db_events db1) (update_rows cut_id (prepared_cut ?n at) (db_cuts db))"
      "participants_ok (db_events db') (db_cuts db) (db_participants db')"
      using append_keeps [OF a(1)] by (auto simp: update_cut_iff set_participants_iff)
    with a b st None show ?thesis unfolding cut_commit_def by blast
  qed
qed

lemma seal_Ok:
  assumes "seal_backup_cut E m at db = (Inr r, db')"
  shows "\<exists>d c. manifest_digest_of E m = Inr d \<and> find_cut db (mf_cut_id m) = Some c \<and>
    ((\<exists>n x. cu_manifest_digest c = Some (as_str d) \<and> cu_seal_event c = Some (n, x) \<and>
        event_receipt_by_sequence E db n = Inr r \<and> db' = db) \<or>
     cu_manifest_digest c = None \<and> cu_state c = ''prepared'' \<and>
     (\<exists>expected b. build_backup_manifest E db (mf_cut_id m) = Inr expected \<and>
        canonicalize E (manifest_json expected) = Inr b \<and> canonicalize E (manifest_json m) = Inr b) \<and>
     cut_commit E (mf_cut_id m) (update_rows (mf_cut_id m) (sealed_cut d r at) (db_cuts db)) (db_participants db) r db db')"
proof -
  obtain d c where d: "manifest_digest_of E m = Inr d" and c: "find_cut db (mf_cut_id m) = Some c"
    and st: "\<exists>st. cut_state_from_str (cu_state c) = Inr st"
    using assms by (auto simp: seal_backup_cut_def ag_check ok_or_def split: sum.splits option.splits)
  show ?thesis
  proof (cases "cu_manifest_digest c")
    case (Some x)
    then show ?thesis using assms d c st
      by (auto simp: seal_backup_cut_def ag_check ok_or_def split: if_splits option.splits)
  next
    case None
    obtain expected b event state x db1 where
      e: "build_backup_manifest E db (mf_cut_id m) = Inr expected" "canonicalize E (manifest_json expected) = Inr b"
        "canonicalize E (manifest_json m) = Inr b" and p: "cu_state c = ''prepared''"
      and a: "append_event_in_transaction E event state x db = Inr (r, db1)" "ne_entity_id event = backup_entity_id (mf_cut_id m)"
      and u: "update_cut (mf_cut_id m) (sealed_cut d r at) db1 = Inr db'"
      using assms d c st None
      by (auto simp: seal_backup_cut_def ag_check ok_or_def transaction_Ok seal_transaction_def store_jcs_def to_i64_iff
          sealed_cut_def [abs_def] backup_state_iff split: if_splits option.splits sum.splits)
    from u have "db' = db1\<lparr>db_cuts := update_rows (mf_cut_id m) (sealed_cut d r at) (db_cuts db), db_participants := db_participants db\<rparr>"
      "cuts_ok (db_events db1) (update_rows (mf_cut_id m) (sealed_cut d r at) (db_cuts db))"
      using append_keeps [OF a(1)] by (auto simp: update_cut_iff)
    with a have "cut_commit E (mf_cut_id m) (update_rows (mf_cut_id m) (sealed_cut d r at) (db_cuts db)) (db_participants db) r db db'"
      unfolding cut_commit_def by blast
    with d c None e p show ?thesis by blast
  qed
qed

lemma release_Ok:
  assumes "release_backup_cut E cut_id d at db = (Inr r, db')"
  shows "\<exists>c. find_cut db cut_id = Some c \<and>
    ((\<exists>n x. cu_state c = ''released'' \<and> cu_release_bundle_digest c = Some (as_str d) \<and> cu_release_event c = Some (n, x) \<and>
        event_receipt_by_sequence E db n = Inr r \<and> db' = db) \<or>
     cu_state c = ''sealed'' \<and>
     cut_commit E cut_id (update_rows cut_id (released_cut d r at) (db_cuts db)) (db_participants db) r db db')"
proof -
  obtain c st where c: "find_cut db cut_id = Some c" and st: "cu_state c = cut_state_str st"
    using assms by (auto simp: release_backup_cut_def ag_check ok_or_def cut_state_from_str_iff split: sum.splits option.splits)
  then have st': "cut_state_from_str (cu_state c) = Inr st" by (simp add: cut_state_from_str_iff)
  show ?thesis
  proof (cases "st = CutReleased")
    case True
    then show ?thesis using assms c st st'
      by (auto simp: release_backup_cut_def ag_check ok_or_def split: if_splits option.splits)
  next
    case False
    obtain event state x db1 where sealed: "cu_state c = ''sealed''"
      and a: "append_event_in_transaction E event state x db = Inr (r, db1)" "ne_entity_id event = backup_entity_id cut_id"
      and u: "update_cut cut_id (released_cut d r at) db1 = Inr db'"
      using assms c st st' False
      by (auto simp: release_backup_cut_def ag_check ok_or_def transaction_Ok release_transaction_def to_i64_iff
          released_cut_def [abs_def] backup_state_iff split: if_splits option.splits)
    from u have "db' = db1\<lparr>db_cuts := update_rows cut_id (released_cut d r at) (db_cuts db), db_participants := db_participants db\<rparr>"
      "cuts_ok (db_events db1) (update_rows cut_id (released_cut d r at) (db_cuts db))"
      using append_keeps [OF a(1)] by (auto simp: update_cut_iff)
    with a have "cut_commit E cut_id (update_rows cut_id (released_cut d r at) (db_cuts db)) (db_participants db) r db db'"
      unfolding cut_commit_def by blast
    with c sealed show ?thesis by blast
  qed
qed

lemma abort_Ok:
  assumes "abort_backup_cut E cut_id reason at db = (Inr r, db')"
  shows "\<exists>c. find_cut db cut_id = Some c \<and>
    ((\<exists>n x. cu_state c = ''aborted'' \<and> cu_abort_reason c = Some reason \<and> cu_abort_event c = Some (n, x) \<and>
        event_receipt_by_sequence E db n = Inr r \<and> db' = db) \<or>
     cut_active c \<and>
     cut_commit E cut_id (update_rows cut_id (aborted_cut reason r at) (db_cuts db)) (db_participants db) r db db')"
proof -
  obtain c st where c: "find_cut db cut_id = Some c" and st: "cu_state c = cut_state_str st"
    and v: "store_identifier ''abort_reason'' reason 256 = Inr ()"
    using assms by (auto simp: abort_backup_cut_def ag_check ok_or_def cut_state_from_str_iff split: sum.splits option.splits)
  then have st': "cut_state_from_str (cu_state c) = Inr st" by (simp add: cut_state_from_str_iff)
  show ?thesis
  proof (cases "st = CutAborted")
    case True
    then show ?thesis using assms c st st' v
      by (auto simp: abort_backup_cut_def ag_check ok_or_def split: if_splits option.splits)
  next
    case False
    obtain event state x db1 where active: "cut_active c"
      and a: "append_event_in_transaction E event state x db = Inr (r, db1)" "ne_entity_id event = backup_entity_id cut_id"
      and u: "update_cut cut_id (aborted_cut reason r at) db1 = Inr db'"
      using assms c st st' v False
      by (auto simp: abort_backup_cut_def ag_check ok_or_def transaction_Ok abort_transaction_def to_i64_iff
          aborted_cut_def [abs_def] backup_state_iff cut_active_def split: if_splits option.splits)
    from u have "db' = db1\<lparr>db_cuts := update_rows cut_id (aborted_cut reason r at) (db_cuts db), db_participants := db_participants db\<rparr>"
      "cuts_ok (db_events db1) (update_rows cut_id (aborted_cut reason r at) (db_cuts db))"
      using append_keeps [OF a(1)] by (auto simp: update_cut_iff)
    with a have "cut_commit E cut_id (update_rows cut_id (aborted_cut reason r at) (db_cuts db)) (db_participants db) r db db'"
      unfolding cut_commit_def by blast
    with c active show ?thesis by blast
  qed
qed

section \<open>What a committed transition keeps\<close>

text \<open>The printer and reader are faithful on every tree.\<close>

definition faithful_printer :: "env \<Rightarrow> bool" where
  "faithful_printer E \<longleftrightarrow> (\<forall>v. printing_reads_back E v)"

lemma receipt_tables:
  "db_events d = db_events db \<Longrightarrow> event_receipt_by_sequence E d n = event_receipt_by_sequence E db n"
  by (simp add: event_receipt_by_sequence_def find_event_def)

lemma append_state_other:
  assumes "append_event_in_transaction E event state x db = Inr (r, db')" and "e \<noteq> ne_entity_id event"
  shows "find_state db' e = find_state db e"
  by (rule append_in_transaction_tables [OF assms(1)])
    (use assms(2) in \<open>simp add: find_state_def replace_state_find appended_state_def\<close>)

lemma append_row:
  assumes "append_event_in_transaction E event state x db = Inr (r, db')"
  shows "\<exists>row. db_events db' = db_events db @ [row] \<and> ev_sequence row = uint (er_sequence r)"
  by (rule append_in_transaction_tables [OF assms]) (auto simp: appended_row_def)

lemma commit_tables:
  assumes "cut_commit E k cuts ps r db db'"
  shows "db_cuts db' = cuts" "db_participants db' = ps" "cuts_ok (db_events db') cuts"
    "\<exists>row. db_events db' = db_events db @ [row] \<and> ev_sequence row = uint (er_sequence r)"
    "e \<noteq> backup_entity_id k \<Longrightarrow> find_state db' e = find_state db e"
proof -
  from assms obtain event state x db1 where a: "append_event_in_transaction E event state x db = Inr (r, db1)"
    and e: "ne_entity_id event = backup_entity_id k" "db' = db1\<lparr>db_cuts := cuts, db_participants := ps\<rparr>"
      "cuts_ok (db_events db1) cuts" by (auto simp: cut_commit_def)
  show "db_cuts db' = cuts" "db_participants db' = ps" "cuts_ok (db_events db') cuts" using e by simp_all
  show "\<exists>row. db_events db' = db_events db @ [row] \<and> ev_sequence row = uint (er_sequence r)"
    using append_row [OF a] e by simp
  show "e \<noteq> backup_entity_id k \<Longrightarrow> find_state db' e = find_state db e"
    using append_state_other [OF a] e by (simp add: find_state_def)
qed

lemma commit_numbered:
  assumes "cut_commit E k cuts ps r db db'" and "store_numbered db"
  shows "store_numbered db'"
proof -
  from assms(1) obtain event state x db1 where a: "append_event_in_transaction E event state x db = Inr (r, db1)"
    and db': "db' = db1\<lparr>db_cuts := cuts, db_participants := ps\<rparr>" by (auto simp: cut_commit_def)
  from append_numbered [OF assms(2) a] store_ok_tables(1) [of db' db1] show ?thesis by (simp add: db')
qed

lemma commit_ok:
  assumes E: "codec_ok E" "faithful_printer E" and c: "cut_commit E k cuts ps r db db'" and ok: "store_ok E i db"
  shows "store_ok E i db'"
proof -
  from c obtain event state x db1 where a: "append_event_in_transaction E event state x db = Inr (r, db1)"
    and db': "db' = db1\<lparr>db_cuts := cuts, db_participants := ps\<rparr>" by (auto simp: cut_commit_def)
  have "store_ok E i db1"
    using append_verifies [OF E(1) _ _ ok a] append_numbered [OF _ a] ok E(2)
    by (simp add: store_ok_def faithful_printer_def)
  then show ?thesis using store_ok_tables(3) [of db' db1] by (simp add: db')
qed

lemma commit_receipt:
  assumes E: "codec_ok E" and c: "cut_commit E k cuts ps r db db'" and num: "store_numbered db"
  shows "event_receipt_by_sequence E db' (uint (er_sequence r)) = Inr r"
    and "event_receipt_by_sequence E db n = Inr y \<Longrightarrow> event_receipt_by_sequence E db' n = Inr y"
proof -
  from c obtain event state x db1 where a: "append_event_in_transaction E event state x db = Inr (r, db1)"
    and db': "db' = db1\<lparr>db_cuts := cuts, db_participants := ps\<rparr>" by (auto simp: cut_commit_def)
  have same: "event_receipt_by_sequence E db' = event_receipt_by_sequence E db1"
    by (intro ext receipt_tables) (simp add: db')
  show "event_receipt_by_sequence E db' (uint (er_sequence r)) = Inr r"
    using append_receipt [OF E num a] by (simp add: same)
  show "event_receipt_by_sequence E db n = Inr y \<Longrightarrow> event_receipt_by_sequence E db' n = Inr y"
    using receipt_stable [OF num a] by (simp add: same)
qed

section \<open>Cuts and their participants\<close>

lemma find_update_rows:
  assumes "\<And>c. cu_cut_id (f c) = cu_cut_id c"
  shows "List.find (\<lambda>c. cu_cut_id c = k) (update_rows j f cuts) =
    map_option (\<lambda>c. if k = j then f c else c) (List.find (\<lambda>c. cu_cut_id c = k) cuts)"
  by (induction cuts) (auto simp: update_rows_def assms)

lemma changed_ids [simp]:
  "cu_cut_id (prepared_cut n at c) = cu_cut_id c" "cu_cut_id (sealed_cut d r at c) = cu_cut_id c"
  "cu_cut_id (released_cut d r at c) = cu_cut_id c" "cu_cut_id (aborted_cut s r at c) = cu_cut_id c"
  by (simp_all add: cut_changes)

lemma update_rows_ids: "(\<And>c. cu_cut_id (f c) = cu_cut_id c) \<Longrightarrow> map cu_cut_id (update_rows k f cuts) = map cu_cut_id cuts"
  by (induction cuts) (auto simp: update_rows_def)

lemma set_update_rows: "c \<in> set (update_rows k f cuts) \<Longrightarrow> \<exists>c0 \<in> set cuts. c = (if cu_cut_id c0 = k then f c0 else c0)"
  by (auto simp: update_rows_def)

lemma find_cut_in: "find_cut db k = Some c \<Longrightarrow> c \<in> set (db_cuts db) \<and> cu_cut_id c = k"
  by (auto simp: find_cut_def find_Some_iff)

lemma find_distinct:
  "distinct (map f xs) \<Longrightarrow> x \<in> set xs \<Longrightarrow> List.find (\<lambda>y. f y = f x) xs = Some x"
  by (induction xs) (auto simp: image_iff)

lemma cut_find: "cuts_ok es (db_cuts db) \<Longrightarrow> c \<in> set (db_cuts db) \<Longrightarrow> find_cut db (cu_cut_id c) = Some c"
  by (simp add: find_cut_def cuts_ok_def find_distinct)

lemma find_participant_Some:
  "find_participant db k p = Some r \<Longrightarrow> r \<in> set (db_participants db) \<and> pr_cut_id r = k \<and> pr_participant r = participant_str p"
  by (auto simp: find_participant_def find_Some_iff)

lemma participant_find:
  assumes "participants_ok es cuts (db_participants db)" and "r \<in> set (db_participants db)"
    and "pr_participant r = participant_str p"
  shows "find_participant db (pr_cut_id r) p = Some r"
  using find_distinct [of "\<lambda>r. (pr_cut_id r, pr_participant r)" "db_participants db" r] assms
  by (simp add: participants_ok_def find_participant_def)

lemma record_checkpoint_find:
  "List.find (\<lambda>r. pr_cut_id r = k \<and> pr_participant r = participant_str p) (record_checkpoint j q v rows) =
     map_option (\<lambda>r. if k = j \<and> p = q \<and> pr_checkpoint r = None then r\<lparr>pr_checkpoint := Some v\<rparr> else r)
       (List.find (\<lambda>r. pr_cut_id r = k \<and> pr_participant r = participant_str p) rows)"
  by (induction rows) (auto simp: record_checkpoint_def)

text \<open>The participants of a cut with a checkpoint, in the required order.\<close>

definition prepared_roles :: "store_db \<Rightarrow> string \<Rightarrow> backup_participant list" where
  "prepared_roles db k = filter (\<lambda>p. case find_participant db k p of Some r \<Rightarrow> pr_checkpoint r \<noteq> None | None \<Rightarrow> False)
     required_participants"

lemma required_all: "p \<in> set required_participants" "distinct required_participants" "length required_participants = 3"
  by (cases p) (simp_all add: required_participants_def)

lemma prepared_count_roles:
  assumes "participants_ok es cuts (db_participants db)"
  shows "prepared_count db k = length (prepared_roles db k)"
proof -
  let ?rows = "filter (\<lambda>r. pr_cut_id r = k \<and> pr_checkpoint r \<noteq> None) (db_participants db)"
  have dist: "distinct (map (\<lambda>r. (pr_cut_id r, pr_participant r)) (db_participants db))"
    and names: "\<forall>r \<in> set (db_participants db). pr_participant r \<in> {''agd'', ''ag-effectd'', ''ag-providerd''}"
    using assms by (auto simp: participants_ok_def list_all_iff)
  have inj: "inj_on pr_participant (set ?rows)"
    using dist by (auto simp: distinct_map inj_on_def)
  have "distinct ?rows" using dist by (simp add: distinct_map)
  then have "prepared_count db k = card (pr_participant ` set ?rows)"
    using inj by (simp only: prepared_count_def card_image distinct_card)
  also have "pr_participant ` set ?rows = participant_str ` set (prepared_roles db k)"
  proof (intro equalityI subsetI)
    fix s assume "s \<in> pr_participant ` set ?rows"
    then obtain r where r: "r \<in> set (db_participants db)" "pr_cut_id r = k" "pr_checkpoint r \<noteq> None" "s = pr_participant r"
      by auto
    moreover from r(1) names obtain p where p: "pr_participant r = participant_str p"
      by (metis insertE participant_str.simps singletonD)
    ultimately have "p \<in> set (prepared_roles db k)"
      using participant_find [OF assms r(1) p] required_all by (auto simp: prepared_roles_def)
    with r p show "s \<in> participant_str ` set (prepared_roles db k)" by auto
  next
    fix s assume "s \<in> participant_str ` set (prepared_roles db k)"
    then obtain p r where "s = participant_str p" "find_participant db k p = Some r" "pr_checkpoint r \<noteq> None"
      by (auto simp: prepared_roles_def split: option.splits)
    with find_participant_Some [of db k p r] show "s \<in> pr_participant ` set ?rows" by force
  qed
  also have "card \<dots> = length (prepared_roles db k)"
  proof -
    have "distinct (prepared_roles db k)" using required_all(2) by (simp add: prepared_roles_def)
    then show ?thesis by (subst card_image) (simp_all add: inj_on_def distinct_card)
  qed
  finally show ?thesis .
qed

section \<open>Stored checkpoints read back\<close>

definition attestation_valid :: "quiescence_attestation \<Rightarrow> bool" where
  "attestation_valid a \<longleftrightarrow> canonical_identifier 128 (domain_str (qa_authority_domain a)) \<and> epoch_get (qa_epoch a) \<noteq> 0 \<and>
     digest_text (as_str (qa_boundary_summary a)) \<and> digest_text (as_str (qa_attesting_principal a)) \<and>
     - (2 ^ 63) \<le> qa_attested_at_unix_ms a \<and> qa_attested_at_unix_ms a < 2 ^ 63"

definition checkpoint_valid :: "backup_checkpoint \<Rightarrow> bool" where
  "checkpoint_valid c \<longleftrightarrow> list_all (\<lambda>d. digest_text (as_str d))
     [ck_component_identity c, ch_digest (ck_chain_head c), ck_blob_root c, ck_config_identity c, ck_schema_identity c,
      ck_profile_identity c, ck_build_identity c] \<and> attestation_valid (ck_quiescence_attestation c)"

lemma participant_deserialize_str [simp]: "participant_deserialize (JStr (participant_str p)) = Inr p"
  using participant_from_str_iff [of "participant_str p" p] by (simp add: participant_deserialize_def unit_variant_def)

lemma u64_json_deserialize [simp]: "u64_deserialize (JNum (uint w)) = Inr w"
  using u64_roundtrip [of w] by (simp add: u64_json_def)

interpretation head_wire: tree_codec chain_head_json "chain_head_deserialize E"
    "\<lambda>h. codec_ok E \<and> digest_text (as_str (ch_digest h))" for E
proof unfold_locales
  fix h w u
  assume v: "codec_ok E \<and> digest_text (as_str (ch_digest h))"
    and w: "strict_value (chain_head_json h) = Inr w" "strict_value u = Inr w"
  have "struct_fields chain_head_fields u = Inr [u64_json (ch_sequence h), digest_json (ch_digest h)]"
    by (rule struct_tree_atoms [OF w [unfolded chain_head_json_def]])
      (simp_all add: chain_head_fields_def u64_json_def digest_json_def)
  then show "chain_head_deserialize E u = Inr h" using v by (simp add: chain_head_deserialize_def)
qed

interpretation attestation_wire: tree_codec attestation_json "attestation_deserialize E"
    "\<lambda>a. codec_ok E \<and> attestation_valid a" for E
proof unfold_locales
  fix a w u
  assume v: "codec_ok E \<and> attestation_valid a" and w: "strict_value (attestation_json a) = Inr w" "strict_value u = Inr w"
  have fields: "struct_fields attestation_fields u = Inr [JStr (qa_schema a), JStr (qa_cut_id a),
      JStr (domain_str (qa_authority_domain a)), epoch_json (qa_epoch a), JStr (qa_quiescence_barrier_id a),
      JStr (participant_str (qa_participant a)), JStr (boundary_str (qa_boundary a)), digest_json (qa_boundary_summary a),
      digest_json (qa_attesting_principal a), JNum (qa_attested_at_unix_ms a)]"
    by (rule struct_tree_atoms [OF w [unfolded attestation_json_def]])
      (simp_all add: attestation_fields_def epoch_json_def u64_json_def digest_json_def)
  have "boundary_deserialize (JStr (boundary_str (qa_boundary a))) = Inr (qa_boundary a)"
    by (cases "qa_boundary a") (simp add: boundary_deserialize_def boundary_str_def unit_variant_def)
  then show "attestation_deserialize E u = Inr a"
    unfolding attestation_deserialize_def using v
    by (simp add: fields string_deserialize_def authority_domain_new_def attestation_valid_def i64_deserialize_def
        origin_id.text_roundtrip epoch_roundtrip)
qed

interpretation checkpoint_wire: tree_codec checkpoint_json "checkpoint_deserialize E"
    "\<lambda>c. codec_ok E \<and> checkpoint_valid c" for E
proof unfold_locales
  fix c w u
  assume v: "codec_ok E \<and> checkpoint_valid c" and w: "strict_value (checkpoint_json c) = Inr w" "strict_value u = Inr w"
  obtain us where us: "struct_fields checkpoint_fields u = Inr us"
    "list_all2 (\<lambda>v u. \<exists>w. strict_value v = Inr w \<and> strict_value u = Inr w)
      [JStr (participant_str (ck_participant c)), digest_json (ck_component_identity c), chain_head_json (ck_chain_head c),
       digest_json (ck_blob_root c), digest_json (ck_config_identity c), digest_json (ck_schema_identity c),
       digest_json (ck_profile_identity c), digest_json (ck_build_identity c),
       attestation_json (ck_quiescence_attestation c)] us"
    using struct_tree [OF w [unfolded checkpoint_json_def]] by (auto simp: checkpoint_fields_def)
  obtain h a where us': "us = [JStr (participant_str (ck_participant c)), digest_json (ck_component_identity c), h,
       digest_json (ck_blob_root c), digest_json (ck_config_identity c), digest_json (ck_schema_identity c),
       digest_json (ck_profile_identity c), digest_json (ck_build_identity c), a]"
    and h: "\<exists>w. strict_value (chain_head_json (ck_chain_head c)) = Inr w \<and> strict_value h = Inr w"
    and a: "\<exists>w. strict_value (attestation_json (ck_quiescence_attestation c)) = Inr w \<and> strict_value a = Inr w"
    using us(2) by (auto simp: list_all2_Cons1 digest_json_def)
  have "chain_head_deserialize E h = Inr (ck_chain_head c)"
    using h v head_wire.reads [of E "ck_chain_head c"] by (auto simp: checkpoint_valid_def)
  moreover have "attestation_deserialize E a = Inr (ck_quiescence_attestation c)"
    using a v attestation_wire.reads [of E "ck_quiescence_attestation c"] by (auto simp: checkpoint_valid_def)
  ultimately show "checkpoint_deserialize E u = Inr c"
    unfolding checkpoint_deserialize_def using v by (simp add: us(1) us' checkpoint_valid_def)
qed

section \<open>Transitions\<close>

datatype cut_event = CeBegin | CePrepare backup_participant | CeSeal | CeRelease | CeAbort

datatype store_move = Ordinary | CutMove string cut_event

text \<open>The committed effects of the operations; a domain identifier is canonical by construction.\<close>

inductive transition :: "env \<Rightarrow> store_db \<Rightarrow> store_move \<Rightarrow> store_db \<Rightarrow> bool" for E where
  ordinary: "active_backup_cut db = None \<Longrightarrow> append_event_in_transaction E event state x db = Inr (r, db') \<Longrightarrow>
    transition E db Ordinary db'"
| begins: "find_cut db (bc_cut_id q) = None \<Longrightarrow> active_backup_cut db = None \<Longrightarrow> begin_cut_validate q = Inr () \<Longrightarrow>
    canonical_identifier 128 (domain_str (bc_authority_domain q)) \<Longrightarrow> uint (epoch_get (bc_epoch q)) < 2 ^ 63 \<Longrightarrow>
    cut_commit E (bc_cut_id q) (db_cuts db @ [new_cut q d r]) (db_participants db @ new_participants q) r db db' \<Longrightarrow>
    participants_ok (db_events db') (db_cuts db') (db_participants db') \<Longrightarrow>
    transition E db (CutMove (bc_cut_id q) CeBegin) db'"
| prepares: "prepare_checks E k ck db = Inr (b, row) \<Longrightarrow> pr_checkpoint row = None \<Longrightarrow> checkpoint_valid ck \<Longrightarrow>
    backup_state_in_transaction db k = Inr st \<Longrightarrow> st \<in> {CutPreparing, CutPrepared} \<Longrightarrow>
    cut_commit E k (update_rows k (prepared_cut (prepared_count db k + 1) at) (db_cuts db))
       (record_checkpoint k (ck_participant ck) (checkpoint_value E b r) (db_participants db)) r db db' \<Longrightarrow>
    participants_ok (db_events db') (db_cuts db) (db_participants db') \<Longrightarrow>
    transition E db (CutMove k (CePrepare (ck_participant ck))) db'"
| seals: "find_cut db k = Some c \<Longrightarrow> cu_state c = ''prepared'' \<Longrightarrow>
    cut_commit E k (update_rows k (sealed_cut d r at) (db_cuts db)) (db_participants db) r db db' \<Longrightarrow>
    cu_manifest_digest c = None \<Longrightarrow> transition E db (CutMove k CeSeal) db'"
| releases: "find_cut db k = Some c \<Longrightarrow> cu_state c = ''sealed'' \<Longrightarrow>
    cut_commit E k (update_rows k (released_cut d r at) (db_cuts db)) (db_participants db) r db db' \<Longrightarrow>
    transition E db (CutMove k CeRelease) db'"
| aborts: "find_cut db k = Some c \<Longrightarrow> cut_active c \<Longrightarrow>
    cut_commit E k (update_rows k (aborted_cut reason r at) (db_cuts db)) (db_participants db) r db db' \<Longrightarrow>
    transition E db (CutMove k CeAbort) db'"

inductive_cases ordinaryE: "transition E db Ordinary db'"

section \<open>The backup invariant\<close>

definition attested_for :: "cut_row \<Rightarrow> backup_checkpoint \<Rightarrow> bool" where
  "attested_for c ck \<longleftrightarrow> attestation_validate_for (ck_quiescence_attestation ck) (cu_cut_id c)
     (AuthorityDomainId (cu_authority_domain c)) (EpochId (word_of_int (cu_epoch c))) (cu_quiescence_barrier_id c)
     (ck_participant ck) = Inr ()"

definition bound_checkpoint :: "env \<Rightarrow> cut_row \<Rightarrow> participant_row \<Rightarrow> backup_checkpoint \<Rightarrow> bool" where
  "bound_checkpoint E c r ck \<longleftrightarrow> checkpoint_valid ck \<and> participant_str (ck_participant ck) = pr_participant r \<and>
     as_str (ck_component_identity ck) = pr_component_identity r \<and> attested_for c ck \<and>
     (\<exists>b n x. pr_checkpoint r = Some (b, as_str (checkpoint_digest_of E b), n, x) \<and> 0 \<le> n \<and> n < 2 ^ 64 \<and> digest_text x \<and>
        canonicalize E (checkpoint_json ck) = Inr b)"

definition cut_complete :: "env \<Rightarrow> store_db \<Rightarrow> cut_row \<Rightarrow> bool" where
  "cut_complete E db c \<longleftrightarrow>
     (\<forall>p. \<exists>r. find_participant db (cu_cut_id c) p = Some r \<and> (pr_checkpoint r \<noteq> None \<longrightarrow> (\<exists>ck. bound_checkpoint E c r ck))) \<and>
     (cu_manifest_digest c = None \<longleftrightarrow> cu_seal_event c = None) \<and>
     (cu_state c = ''released'' \<longrightarrow> cu_release_event c \<noteq> None) \<and> (cu_state c = ''aborted'' \<longrightarrow> cu_abort_event c \<noteq> None) \<and>
     (cu_state c = ''preparing'' \<longrightarrow> length (prepared_roles db (cu_cut_id c)) < 3) \<and>
     (cu_state c \<in> {''prepared'', ''sealed'', ''released''} \<longrightarrow> length (prepared_roles db (cu_cut_id c)) = 3) \<and>
     canonical_identifier 128 (cu_authority_domain c) \<and> cu_epoch c < 2 ^ 63"

definition backup_ok :: "env \<Rightarrow> store_db \<Rightarrow> bool" where
  "backup_ok E db \<longleftrightarrow> cuts_ok (db_events db) (db_cuts db) \<and>
     participants_ok (db_events db) (db_cuts db) (db_participants db) \<and> (\<forall>c \<in> set (db_cuts db). cut_complete E db c)"

lemma event_column_mono: "event_column_ok es xs \<Longrightarrow> event_column_ok (es @ fs) xs"
  by (auto simp: event_column_ok_def list_all_iff list_ex_iff)

lemma cuts_ok_mono: "cuts_ok es cuts \<Longrightarrow> cuts_ok (es @ fs) cuts"
  by (simp add: cuts_ok_def event_column_mono)

lemma participants_ok_mono: "participants_ok es cuts ps \<Longrightarrow> participants_ok (es @ fs) cuts ps"
  by (simp add: participants_ok_def event_column_mono)

lemma participants_ok_ids:
  "map cu_cut_id cuts' = map cu_cut_id cuts \<Longrightarrow> participants_ok es cuts' ps = participants_ok es cuts ps"
proof -
  assume ids: "map cu_cut_id cuts' = map cu_cut_id cuts"
  have ex: "list_ex (\<lambda>c. cu_cut_id c = k) cs \<longleftrightarrow> k \<in> set (map cu_cut_id cs)" for k cs by (auto simp: list_ex_iff)
  show ?thesis by (simp only: participants_ok_def ex ids)
qed

lemma cut_complete_tables:
  assumes "db_participants d = db_participants db"
  shows "cut_complete E d c = cut_complete E db c"
proof -
  have "find_participant d = find_participant db" by (simp add: fun_eq_iff find_participant_def assms)
  moreover from this have "prepared_roles d = prepared_roles db" by (simp add: fun_eq_iff prepared_roles_def)
  ultimately show ?thesis by (simp only: cut_complete_def)
qed

lemma same_cut_complete:
  assumes "cut_complete E db c" and "cu_cut_id c' = cu_cut_id c" "cu_authority_domain c' = cu_authority_domain c"
    "cu_epoch c' = cu_epoch c" "cu_quiescence_barrier_id c' = cu_quiescence_barrier_id c"
    and "cu_manifest_digest c' = None \<longleftrightarrow> cu_seal_event c' = None" "cu_state c' = ''released'' \<longrightarrow> cu_release_event c' \<noteq> None"
      "cu_state c' = ''aborted'' \<longrightarrow> cu_abort_event c' \<noteq> None"
      "cu_state c' = ''preparing'' \<longrightarrow> length (prepared_roles db (cu_cut_id c')) < 3"
      "cu_state c' \<in> {''prepared'', ''sealed'', ''released''} \<longrightarrow> length (prepared_roles db (cu_cut_id c')) = 3"
  shows "cut_complete E db c'"
proof -
  have "bound_checkpoint E c' r ck = bound_checkpoint E c r ck" for r ck
    by (simp add: bound_checkpoint_def attested_for_def assms(2-5))
  with assms show ?thesis by (simp add: cut_complete_def)
qed

text \<open>A transition that changes one cut and no participant.\<close>

lemma cut_update_ok:
  assumes ok: "backup_ok E db" and commit: "cut_commit E k (update_rows k f (db_cuts db)) (db_participants db) r db db'"
    and f: "\<And>c. cu_cut_id (f c) = cu_cut_id c"
    and change: "\<And>c. c \<in> set (db_cuts db) \<Longrightarrow> cu_cut_id c = k \<Longrightarrow> cut_complete E db c \<Longrightarrow> cut_complete E db (f c)"
  shows "backup_ok E db'"
proof -
  note t = commit_tables [OF commit]
  obtain row where es: "db_events db' = db_events db @ [row]" using t(4) by blast
  have "participants_ok (db_events db') (db_cuts db') (db_participants db')"
    using ok participants_ok_ids [OF update_rows_ids [of f k "db_cuts db", OF f]] participants_ok_mono
    by (simp add: t es backup_ok_def)
  moreover have "cut_complete E db' c" if "c \<in> set (db_cuts db')" for c
    using that ok change by (auto simp: t backup_ok_def cut_complete_tables [OF t(2)] dest!: set_update_rows)
  ultimately show ?thesis using t by (simp add: backup_ok_def)
qed

lemma append_backup_ok:
  assumes ok: "backup_ok E db" and a: "append_event_in_transaction E event state x db = Inr (r, db')"
  shows "backup_ok E db'"
proof -
  obtain row where "db_events db' = db_events db @ [row]" using append_row [OF a] by blast
  then show ?thesis
    using ok append_keeps(8,9) [OF a] cut_complete_tables [OF append_keeps(9) [OF a]]
    by (simp add: backup_ok_def cuts_ok_mono participants_ok_mono)
qed

lemma find_participant_new:
  assumes "find_cut db (bc_cut_id q) = None" and "participants_ok es (db_cuts db) (db_participants db)"
    and "begin_cut_validate q = Inr ()" and "db_participants db' = db_participants db @ new_participants q"
  shows "find_participant db' k p = (if k = bc_cut_id q
    then Some \<lparr>pr_cut_id = k, pr_participant = participant_str p,
      pr_component_identity = as_str (pg_component_identity (the (List.find (\<lambda>g. pg_participant g = p) (bc_participants q)))),
      pr_checkpoint = None\<rparr>
    else find_participant db k p)"
proof -
  have old: "List.find (\<lambda>r. pr_cut_id r = bc_cut_id q \<and> pr_participant r = participant_str p) (db_participants db) = None"
    using assms(1,2) by (fastforce simp: find_None_iff find_cut_def participants_ok_def list_all_iff list_ex_iff)
  have fresh: "List.find (\<lambda>r. pr_cut_id r = k \<and> pr_participant r = participant_str p) (new_participants q) = None"
    if "k \<noteq> bc_cut_id q" using that by (auto simp: find_None_iff new_participants_def)
  have "p \<in> set (map pg_participant (bc_participants q))"
    using assms(3) required_all(1) [of p] by (auto simp: begin_cut_validate_def ag_check split: if_splits)
  then obtain g where g: "List.find (\<lambda>g. pg_participant g = p) (bc_participants q) = Some g"
    by (cases "List.find (\<lambda>g. pg_participant g = p) (bc_participants q)") (auto simp: find_None_iff)
  have map: "List.find (\<lambda>r. pr_cut_id r = bc_cut_id q \<and> pr_participant r = participant_str p)
      (map (\<lambda>g. \<lparr>pr_cut_id = bc_cut_id q, pr_participant = participant_str (pg_participant g),
         pr_component_identity = as_str (pg_component_identity g), pr_checkpoint = None\<rparr>) gs) =
     map_option (\<lambda>g. \<lparr>pr_cut_id = bc_cut_id q, pr_participant = participant_str p,
         pr_component_identity = as_str (pg_component_identity g), pr_checkpoint = None\<rparr>)
       (List.find (\<lambda>g. pg_participant g = p) gs)" for gs
    by (induction gs) auto
  show ?thesis
  proof (cases "k = bc_cut_id q")
    case True
    then show ?thesis by (simp add: find_participant_def assms(4) find_append new_participants_def old map g)
  next
    case False
    then show ?thesis using fresh by (simp add: find_participant_def assms(4) find_append split: option.split)
  qed
qed

lemma begin_backup_ok:
  assumes ok: "backup_ok E db" and q: "find_cut db (bc_cut_id q) = None" "begin_cut_validate q = Inr ()"
      "canonical_identifier 128 (domain_str (bc_authority_domain q))"
    and commit: "cut_commit E (bc_cut_id q) (db_cuts db @ [new_cut q d r]) (db_participants db @ new_participants q) r db db'"
    and ps: "participants_ok (db_events db') (db_cuts db') (db_participants db')"
    and epoch: "uint (epoch_get (bc_epoch q)) < 2 ^ 63"
  shows "backup_ok E db'"
proof -
  note t = commit_tables [OF commit]
  have find: "find_participant db' k p = (if k = bc_cut_id q
    then Some \<lparr>pr_cut_id = k, pr_participant = participant_str p,
      pr_component_identity = as_str (pg_component_identity (the (List.find (\<lambda>g. pg_participant g = p) (bc_participants q)))),
      pr_checkpoint = None\<rparr>
    else find_participant db k p)" for k p
    by (rule find_participant_new [OF q(1) _ q(2) t(2)]) (use ok in \<open>auto simp: backup_ok_def\<close>)
  have roles: "prepared_roles db' k = (if k = bc_cut_id q then [] else prepared_roles db k)" for k
    by (simp add: prepared_roles_def find)
  have "cut_complete E db' c" if "c \<in> set (db_cuts db)" for c
  proof -
    have "cu_cut_id c \<noteq> bc_cut_id q" using q(1) that by (auto simp: find_cut_def find_None_iff)
    with that ok show ?thesis by (simp add: backup_ok_def cut_complete_def find roles)
  qed
  moreover have "cut_complete E db' (new_cut q d r)"
    using q(3) epoch by (simp add: cut_complete_def new_cut_def find roles)
  ultimately show ?thesis using t ps by (auto simp: backup_ok_def)
qed

lemma commit_digest_text:
  assumes "codec_ok E" and "cut_commit E k cuts ps r db db'"
  shows "digest_text (as_str (er_event_digest r))"
proof -
  from assms(2) obtain event state x db1 where a: "append_event_in_transaction E event state x db = Inr (r, db1)"
    by (auto simp: cut_commit_def)
  then obtain i where "event_digest_for E i = Inr (er_event_digest r)" using append_in_transaction_Ok [OF a] by blast
  then show ?thesis using event_digest_text [OF assms(1)] store_digest_iff [OF assms(1)] by blast
qed

lemma prepare_checks_Ok:
  "prepare_checks E k ck db = Inr (b, row) \<longleftrightarrow>
     (\<exists>c. find_cut db k = Some c \<and> canonical_identifier 128 (cu_authority_domain c) \<and> 0 \<le> cu_epoch c \<and>
        word_of_int (cu_epoch c) \<noteq> (0 :: u64) \<and>
        attestation_validate_for (ck_quiescence_attestation ck) k (AuthorityDomainId (cu_authority_domain c))
          (EpochId (word_of_int (cu_epoch c))) (cu_quiescence_barrier_id c) (ck_participant ck) = Inr () \<and>
        canonicalize E (checkpoint_json ck) = Inr b \<and> find_participant db k (ck_participant ck) = Some row \<and>
        pr_component_identity row = as_str (ck_component_identity ck))"
  by (auto simp: prepare_checks_def ag_check ok_or_def to_u64_iff epoch_new_def store_jcs_def authority_domain_new_def
      origin_id.new_iff split: option.splits if_splits)

lemma find_participant_recorded:
  assumes "db_participants db' = record_checkpoint k p v (db_participants db)"
  shows "find_participant db' j q = map_option (\<lambda>r. if j = k \<and> q = p \<and> pr_checkpoint r = None
    then r\<lparr>pr_checkpoint := Some v\<rparr> else r) (find_participant db j q)"
  by (simp add: find_participant_def assms record_checkpoint_find)

lemma prepared_roles_recorded:
  assumes "db_participants db' = record_checkpoint k p v (db_participants db)"
    and "find_participant db k p = Some row" and "pr_checkpoint row = None"
  shows "j \<noteq> k \<Longrightarrow> prepared_roles db' j = prepared_roles db j"
    and "p \<notin> set (prepared_roles db k)"
    and "prepared_roles db' k = filter (\<lambda>q. q = p \<or> q \<in> set (prepared_roles db k)) required_participants"
    and "length (prepared_roles db' k) = length (prepared_roles db k) + 1"
proof -
  note find = find_participant_recorded [OF assms(1)]
  show "j \<noteq> k \<Longrightarrow> prepared_roles db' j = prepared_roles db j"
    unfolding prepared_roles_def by (rule filter_cong) (auto simp: find split: option.splits)
  show new: "p \<notin> set (prepared_roles db k)" using assms(2,3) by (simp add: prepared_roles_def)
  show roles: "prepared_roles db' k = filter (\<lambda>q. q = p \<or> q \<in> set (prepared_roles db k)) required_participants"
    unfolding prepared_roles_def [of db']
    by (rule filter_cong, rule refl, cases v) (auto simp: find prepared_roles_def assms(2,3) required_all split: option.splits)
  have "set (prepared_roles db' k) = insert p (set (prepared_roles db k))"
    using required_all(1) by (auto simp: roles)
  moreover have "distinct (prepared_roles d j)" for d j using required_all(2) by (simp add: prepared_roles_def)
  ultimately show "length (prepared_roles db' k) = length (prepared_roles db k) + 1"
    using new by (metis Suc_eq_plus1 card_insert_disjoint distinct_card finite_set)
qed

lemma roles_bound: "length (prepared_roles db k) \<le> 3"
  using length_filter_le [of _ required_participants] required_all(3) by (metis prepared_roles_def)

lemma prepare_backup_ok:
  assumes E: "codec_ok E" and ok: "backup_ok E db" and checks: "prepare_checks E k ck db = Inr (b, row)"
    and row: "pr_checkpoint row = None" "checkpoint_valid ck"
    and commit: "cut_commit E k (update_rows k (prepared_cut (prepared_count db k + 1) at) (db_cuts db))
       (record_checkpoint k (ck_participant ck) (checkpoint_value E b r) (db_participants db)) r db db'"
    and ps: "participants_ok (db_events db') (db_cuts db) (db_participants db')"
  shows "backup_ok E db'"
proof -
  let ?f = "prepared_cut (prepared_count db k + 1) at"
  note t = commit_tables [OF commit]
  from checks obtain c where c: "find_cut db k = Some c" "canonicalize E (checkpoint_json ck) = Inr b"
    "find_participant db k (ck_participant ck) = Some row" "pr_component_identity row = as_str (ck_component_identity ck)"
    and att: "attested_for c ck"
    by (auto simp: prepare_checks_Ok attested_for_def dest: find_cut_in)
  note find = find_participant_recorded [OF t(2)]
  note roles = prepared_roles_recorded [OF t(2) c(3) row(1)]
  have count: "prepared_count db k + 1 = length (prepared_roles db' k)"
    using ok roles(4) prepared_count_roles by (auto simp: backup_ok_def)
  have ids: "map cu_cut_id (db_cuts db') = map cu_cut_id (db_cuts db)" using t(1) by (simp add: update_rows_ids)
  have att': "attested_for (?f c) ck" using att by (simp add: attested_for_def prepared_cut_def)
  have each: "cut_complete E db' (if cu_cut_id c0 = k then ?f c0 else c0)" if c0: "c0 \<in> set (db_cuts db)" for c0
  proof (cases "cu_cut_id c0 = k")
    case False
    then show ?thesis using ok c0 by (auto simp: backup_ok_def cut_complete_def find roles(1))
  next
    case True
    have cc: "c0 = c" using cut_find [of "db_events db" db c0] c0 True c(1) ok by (simp add: backup_ok_def)
    have comp: "cut_complete E db c" using ok c0 cc by (auto simp: backup_ok_def)
    have "\<exists>r'. find_participant db' k p = Some r' \<and> (pr_checkpoint r' \<noteq> None \<longrightarrow> (\<exists>x. bound_checkpoint E (?f c) r' x))" for p
    proof (cases "p = ck_participant ck")
      case True
      have "bound_checkpoint E (?f c) (row\<lparr>pr_checkpoint := Some (checkpoint_value E b r)\<rparr>) ck"
        using row(2) c(2,4) att' find_participant_Some [OF c(3)] commit_digest_text [OF E commit] uint_bounded [of "er_sequence r"]
        by (simp add: bound_checkpoint_def checkpoint_value_def)
      moreover have "find_participant db' k p = Some (row\<lparr>pr_checkpoint := Some (checkpoint_value E b r)\<rparr>)"
        using True c(3) row(1) by (simp add: find)
      ultimately show ?thesis by blast
    next
      case False
      have "\<exists>r'. find_participant db k p = Some r' \<and> (pr_checkpoint r' \<noteq> None \<longrightarrow> (\<exists>x. bound_checkpoint E c r' x))"
        using comp find_cut_in [OF c(1)] by (simp only: cut_complete_def)
      then obtain r' where "find_participant db k p = Some r'" "pr_checkpoint r' \<noteq> None \<longrightarrow> (\<exists>x. bound_checkpoint E c r' x)"
        by blast
      moreover have "bound_checkpoint E (?f c) r' x = bound_checkpoint E c r' x" for x
        by (simp add: bound_checkpoint_def attested_for_def prepared_cut_def)
      moreover from calculation(1) have "find_participant db' k p = Some r'" using False by (simp add: find)
      ultimately show ?thesis by blast
    qed
    moreover have "cu_manifest_digest c = None \<longleftrightarrow> cu_seal_event c = None" "canonical_identifier 128 (cu_authority_domain c)"
      "cu_epoch c < 2 ^ 63" using comp by (simp_all only: cut_complete_def)
    moreover have "cu_state (?f c) = ''preparing'' \<longrightarrow> length (prepared_roles db' k) < 3"
      "cu_state (?f c) \<in> {''prepared'', ''sealed'', ''released''} \<longrightarrow> length (prepared_roles db' k) = 3"
      "cu_state (?f c) \<noteq> ''released''" "cu_state (?f c) \<noteq> ''aborted''"
      using roles_bound [of db' k] by (auto simp: prepared_cut_def after_prepare_def required_all count [symmetric])
    ultimately show ?thesis
      using cc True find_cut_in [OF c(1)] by (simp add: cut_complete_def) (simp add: prepared_cut_def)
  qed
  have "\<forall>c \<in> set (db_cuts db'). cut_complete E db' c"
  proof
    fix c' assume "c' \<in> set (db_cuts db')"
    then obtain c0 where "c0 \<in> set (db_cuts db)" "c' = (if cu_cut_id c0 = k then ?f c0 else c0)"
      using set_update_rows [of c' k ?f "db_cuts db"] unfolding t(1) by blast
    then show "cut_complete E db' c'" using each by simp
  qed
  with t ps participants_ok_ids [OF ids] show ?thesis by (simp add: backup_ok_def)
qed

lemma transition_backup_ok:
  assumes E: "codec_ok E" and t: "transition E db m db'" and ok: "backup_ok E db"
  shows "backup_ok E db'"
  using t
proof cases
  case (ordinary event state x r)
  then show ?thesis using append_backup_ok [OF ok] by blast
next
  case (begins q d r)
  then show ?thesis using begin_backup_ok [OF ok] by blast
next
  case (prepares k ck b row st at r)
  then show ?thesis using prepare_backup_ok [OF E ok] by blast
next
  case (seals k c d r at)
  show ?thesis
  proof (rule cut_update_ok [OF ok seals(4)])
    fix c0 assume "c0 \<in> set (db_cuts db)" "cu_cut_id c0 = k" and comp: "cut_complete E db c0"
    then have "c0 = c" using cut_find [of "db_events db" db c0] seals(2) ok by (simp add: backup_ok_def)
    with comp seals(3) show "cut_complete E db (sealed_cut d r at c0)"
      by (intro same_cut_complete [OF comp]) (simp_all add: sealed_cut_def cut_complete_def)
  qed simp
next
  case (releases k c d r at)
  show ?thesis
  proof (rule cut_update_ok [OF ok releases(4)])
    fix c0 assume "c0 \<in> set (db_cuts db)" "cu_cut_id c0 = k" and comp: "cut_complete E db c0"
    then have "c0 = c" using cut_find [of "db_events db" db c0] releases(2) ok by (simp add: backup_ok_def)
    with comp releases(3) show "cut_complete E db (released_cut d r at c0)"
      by (intro same_cut_complete [OF comp]) (simp_all add: released_cut_def cut_complete_def)
  qed simp
next
  case (aborts k c reason r at)
  show ?thesis
  proof (rule cut_update_ok [OF ok aborts(4)])
    fix c0 assume comp: "cut_complete E db c0"
    then show "cut_complete E db (aborted_cut reason r at c0)"
      by (intro same_cut_complete [OF comp]) (simp_all add: aborted_cut_def cut_complete_def)
  qed simp
qed

lemma transition_store_ok:
  assumes E: "codec_ok E" "faithful_printer E" and t: "transition E db m db'" and ok: "store_ok E i db"
  shows "store_ok E i db'"
  using t
proof cases
  case (ordinary event state x r)
  show ?thesis
    using append_verifies [OF E(1) _ _ ok ordinary(3)] append_numbered [OF _ ordinary(3)] ok E(2)
    by (simp add: store_ok_def faithful_printer_def)
qed (use commit_ok [OF E _ ok] in blast)+

lemma transition_numbered:
  assumes t: "transition E db m db'" and num: "store_numbered db"
  shows "store_numbered db'"
  using t
proof cases
  case (ordinary event state x r)
  then show ?thesis using append_numbered [OF num] by blast
qed (use commit_numbered [OF _ num] in blast)+

lemma transition_receipt:
  assumes E: "codec_ok E" and t: "transition E db m db'" and num: "store_numbered db"
    and y: "event_receipt_by_sequence E db n = Inr y"
  shows "event_receipt_by_sequence E db' n = Inr y"
  using t
proof cases
  case (ordinary event state x r)
  then show ?thesis using receipt_stable [OF num _ y] by blast
qed (use commit_receipt(2) [OF E _ num y] in blast)+

lemma transition_states:
  assumes "transition E db (CutMove k e) db'" and "x \<noteq> backup_entity_id k"
  shows "find_state db' x = find_state db x"
  using assms(1) by cases (use commit_tables(5) assms(2) in blast)+

end
