(* ===== verification/AG_Cut.thy ===== *)
theory AG_Cut
  imports AG_Backup
begin

text \<open>
  The life cycle of a backup cut over runs of the store's operations: the abstract cut that the
  backup tables implement, the active cut as a fence, what is recorded for good, retries, and the
  manifest of a prepared cut (\<open>crates/ag-store/src/lib.rs\<close>).
\<close>

section \<open>The abstract cut\<close>

text \<open>The abstract cut: absent, or in a state with the participants that have prepared.\<close>

datatype cut_phase = CutAbsent | CutIn backup_state "backup_participant list"

fun cut_step :: "cut_phase \<Rightarrow> cut_event \<Rightarrow> unit + cut_phase" where
  "cut_step CutAbsent CeBegin = Ok (CutIn CutPreparing [])"
| "cut_step (CutIn CutPreparing ps) (CePrepare p) =
     (if p \<in> set ps then Err ()
      else let ps' = filter (\<lambda>q. q = p \<or> q \<in> set ps) required_participants in
        Ok (CutIn (if length ps' = length required_participants then CutPrepared else CutPreparing) ps'))"
| "cut_step (CutIn CutPrepared ps) CeSeal = Ok (CutIn CutSealed ps)"
| "cut_step (CutIn CutSealed ps) CeRelease = Ok (CutIn CutReleased ps)"
| "cut_step (CutIn s ps) CeAbort =
     (if s \<in> {CutPreparing, CutPrepared, CutSealed} then Ok (CutIn CutAborted ps) else Err ())"
| "cut_step _ _ = Err ()"

fun cut_rank :: "cut_phase \<Rightarrow> nat" where
  "cut_rank CutAbsent = 0"
| "cut_rank (CutIn CutPreparing ps) = 1 + card (set ps)"
| "cut_rank (CutIn CutPrepared ps) = 5"
| "cut_rank (CutIn CutSealed ps) = 6"
| "cut_rank (CutIn CutReleased ps) = 7"
| "cut_rank (CutIn CutAborted ps) = 7"

fun cut_over :: "cut_phase \<Rightarrow> bool" where
  "cut_over (CutIn s ps) = (s \<in> {CutReleased, CutAborted})"
| "cut_over CutAbsent = False"

lemma participant_card: "card (set (ps :: backup_participant list)) \<le> 3"
proof -
  have "card (set ps) \<le> card (set required_participants)"
    by (rule card_mono) (use required_all(1) in auto)
  then show ?thesis using required_all(2,3) by (simp add: distinct_card)
qed

interpretation backup_cuts: ranked_lifecycle cut_step cut_over cut_rank 7
proof unfold_locales
  fix s e assume "cut_over s" then show "\<not> is_ok (cut_step s e)" by (cases s; cases e) auto
next
  fix s e s' assume step: "cut_step s e = Inr s'"
  show "cut_rank s < cut_rank s'"
  proof (cases "(s, e)" rule: cut_step.cases)
    case (2 ps p)
    let ?ps = "filter (\<lambda>q. q = p \<or> q \<in> set ps) required_participants"
    have new: "p \<notin> set ps" using step 2 by (auto split: if_splits)
    have "set ?ps = insert p (set ps)" using required_all(1) by auto
    then have "card (set ?ps) = card (set ps) + 1" using new by simp
    with step 2 new participant_card [of ps] show ?thesis by (auto simp: Let_def split: if_splits)
  next
    case (5 st ps)
    then show ?thesis using step participant_card [of ps] by (cases st) (auto split: if_splits)
  qed (use step in \<open>auto split: if_splits\<close>)
next
  fix s show "cut_rank s \<le> 7"
  proof (cases s rule: cut_rank.cases)
    case (2 ps)
    then show ?thesis using participant_card [of ps] by simp
  qed auto
qed

definition cut_phase_of :: "store_db \<Rightarrow> string \<Rightarrow> cut_phase" where
  "cut_phase_of db k =
     (case find_cut db k of
        None \<Rightarrow> CutAbsent
      | Some c \<Rightarrow> CutIn (case cut_state_from_str (cu_state c) of Inr s \<Rightarrow> s | Inl _ \<Rightarrow> CutAborted) (prepared_roles db k))"

lemma prepared_roles_tables: "db_participants d = db_participants db \<Longrightarrow> prepared_roles d k = prepared_roles db k"
  by (simp add: prepared_roles_def find_participant_def)

lemma find_cut_updated:
  assumes "db_cuts db' = update_rows k f (db_cuts db)" and "\<And>c. cu_cut_id (f c) = cu_cut_id c"
  shows "find_cut db' j = map_option (\<lambda>c. if j = k then f c else c) (find_cut db j)"
  by (simp add: find_cut_def assms find_update_rows)

lemma phase_updated:
  assumes "cut_commit E k (update_rows k f (db_cuts db)) (db_participants db) r db db'" and "\<And>c. cu_cut_id (f c) = cu_cut_id c"
    and "find_cut db k = Some c" and "cu_state (f c) = cut_state_str s"
  shows "cut_phase_of db' k = CutIn s (prepared_roles db k)" and "j \<noteq> k \<Longrightarrow> cut_phase_of db' j = cut_phase_of db j"
proof -
  note find = find_cut_updated [OF commit_tables(1) [OF assms(1)] assms(2)]
    and roles = prepared_roles_tables [OF commit_tables(2) [OF assms(1)]]
  show "cut_phase_of db' k = CutIn s (prepared_roles db k)"
    using assms(3,4) by (simp add: cut_phase_of_def find roles cut_state_from_str_iff [THEN iffD2])
  show "j \<noteq> k \<Longrightarrow> cut_phase_of db' j = cut_phase_of db j"
    by (simp add: cut_phase_of_def find roles split: option.split)
qed

lemma phase_at: "find_cut db k = Some c \<Longrightarrow> cu_state c = cut_state_str s \<Longrightarrow> cut_phase_of db k = CutIn s (prepared_roles db k)"
  by (simp add: cut_phase_of_def cut_state_from_str_iff [THEN iffD2])

lemma active_state: "cut_active c \<longleftrightarrow> (\<exists>s \<in> {CutPreparing, CutPrepared, CutSealed}. cu_state c = cut_state_str s)"
  by (auto simp: cut_active_def)

lemma transition_phase:
  assumes E: "codec_ok E" and t: "transition E db m db'" and ok: "backup_ok E db"
  shows "case m of Ordinary \<Rightarrow> cut_phase_of db' = cut_phase_of db
    | CutMove k e \<Rightarrow> cut_step (cut_phase_of db k) e = Inr (cut_phase_of db' k) \<and>
        (\<forall>j. j \<noteq> k \<longrightarrow> cut_phase_of db' j = cut_phase_of db j)"
  using t
proof cases
  case (ordinary event state x r)
  have "prepared_roles db' = prepared_roles db" by (rule ext) (rule prepared_roles_tables [OF append_keeps(9) [OF ordinary(3)]])
  moreover have "find_cut db' = find_cut db" using append_keeps(8) [OF ordinary(3)] by (simp add: fun_eq_iff find_cut_def)
  ultimately have "cut_phase_of db' = cut_phase_of db" unfolding cut_phase_of_def [abs_def] by (simp only:)
  then show ?thesis by (simp add: ordinary(1))
next
  case (begins q d r)
  note t = commit_tables [OF begins(7)]
  have find: "find_participant db' k p = (if k = bc_cut_id q
    then Some \<lparr>pr_cut_id = k, pr_participant = participant_str p,
      pr_component_identity = as_str (pg_component_identity (the (List.find (\<lambda>g. pg_participant g = p) (bc_participants q)))),
      pr_checkpoint = None\<rparr>
    else find_participant db k p)" for k p
    by (rule find_participant_new [OF begins(2) _ begins(4) t(2)]) (use ok in \<open>auto simp: backup_ok_def\<close>)
  have roles: "prepared_roles db' k = (if k = bc_cut_id q then [] else prepared_roles db k)" for k
    by (simp add: prepared_roles_def find)
  have cut: "find_cut db' k = (if k = bc_cut_id q then Some (new_cut q d r) else find_cut db k)" for k
    using begins(2) by (simp add: find_cut_def t find_append new_cut_def split: option.split)
  have "cut_state_from_str ''preparing'' = Inr CutPreparing" by (simp add: cut_state_from_str_def)
  then show ?thesis
    using begins(2) by (simp add: begins(1) cut_phase_of_def cut) (auto simp: new_cut_def roles split: option.split)
next
  case (prepares k ck b row st at r)
  note t = commit_tables [OF prepares(7)]
  from prepares(2) have row: "find_participant db k (ck_participant ck) = Some row" by (auto simp: prepare_checks_Ok)
  note roles = prepared_roles_recorded [OF t(2) row prepares(3)]
  obtain c where c: "find_cut db k = Some c" "cu_state c = cut_state_str st" using prepares(5) by (auto simp: backup_state_iff)
  have count: "prepared_count db k + 1 = length (prepared_roles db' k)"
    using ok roles(4) prepared_count_roles by (auto simp: backup_ok_def)
  have "st = CutPreparing"
  proof (rule ccontr)
    assume "st \<noteq> CutPreparing"
    then have "length (prepared_roles db k) = 3"
      using prepares(6) c ok find_cut_in [OF c(1)] by (auto simp: backup_ok_def cut_complete_def)
    then show False using roles(4) roles_bound [of db' k] by simp
  qed
  then have before: "cut_phase_of db k = CutIn CutPreparing (prepared_roles db k)" using phase_at c by simp
  note find = find_cut_updated [OF t(1)]
  have "cut_phase_of db' k = CutIn (after_prepare (length (prepared_roles db' k))) (prepared_roles db' k)"
    by (rule phase_at [of db' k "prepared_cut (prepared_count db k + 1) at c"]) (use c count in \<open>simp_all add: find prepared_cut_def\<close>)
  moreover have "\<forall>j. j \<noteq> k \<longrightarrow> cut_phase_of db' j = cut_phase_of db j"
    by (auto simp: cut_phase_of_def find roles(1) split: option.split)
  ultimately show ?thesis
    using roles(2,3) before by (simp add: prepares(1) Let_def after_prepare_def)
next
  case (seals k c d r at)
  then show ?thesis
    using phase_updated [OF seals(4) _ seals(2), of CutSealed] phase_at [OF seals(2), of CutPrepared]
    by (simp add: sealed_cut_def)
next
  case (releases k c d r at)
  then show ?thesis
    using phase_updated [OF releases(4) _ releases(2), of CutReleased] phase_at [OF releases(2), of CutSealed]
    by (simp add: released_cut_def)
next
  case (aborts k c reason r at)
  from aborts(3) obtain s where s: "s \<in> {CutPreparing, CutPrepared, CutSealed}" "cu_state c = cut_state_str s"
    unfolding active_state by blast
  have "cut_phase_of db' k = CutIn CutAborted (prepared_roles db k)" "\<And>j. j \<noteq> k \<Longrightarrow> cut_phase_of db' j = cut_phase_of db j"
    using phase_updated [OF aborts(4) _ aborts(2), of CutAborted] by (simp_all add: aborted_cut_def)
  moreover have "cut_step (CutIn s ps) CeAbort = Inr (CutIn CutAborted ps)" for ps using s(1) by (cases s) auto
  ultimately show ?thesis using phase_at [OF aborts(2) s(2)] aborts(1) by simp
qed

section \<open>Operations and runs\<close>

datatype store_op =
    OpAppend new_event json u64
  | OpPair new_event json u64 new_event json u64
  | OpBegin begin_cut
  | OpPrepare string backup_checkpoint int
  | OpSeal backup_manifest int
  | OpRelease string digest int
  | OpAbort string string int

fun listed :: "(store_error + event_receipt) \<times> store_db \<Rightarrow> (store_error + event_receipt list) \<times> store_db" where
  "listed (Inl e, db) = (Err e, db)"
| "listed (Inr r, db) = (Ok [r], db)"

fun store_step :: "env \<Rightarrow> store_db \<Rightarrow> store_op \<Rightarrow> (store_error + event_receipt list) \<times> store_db" where
  "store_step E db (OpAppend event state x) = listed (append_event E event state x db)"
| "store_step E db (OpPair e1 s1 x1 e2 s2 x2) =
     (case append_distinct_event_pair E e1 s1 x1 e2 s2 x2 db of
        (Inl e, db') \<Rightarrow> (Err e, db')
      | (Inr (r1, r2), db') \<Rightarrow> (Ok [r1, r2], db'))"
| "store_step E db (OpBegin q) = listed (begin_backup_cut E q db)"
| "store_step E db (OpPrepare k ck at) = listed (prepare_backup_participant E k ck at db)"
| "store_step E db (OpSeal m at) = listed (seal_backup_cut E m at db)"
| "store_step E db (OpRelease k d at) = listed (release_backup_cut E k d at db)"
| "store_step E db (OpAbort k reason at) = listed (abort_backup_cut E k reason at db)"

abbreviation store_run :: "env \<Rightarrow> store_db \<Rightarrow> store_op list \<Rightarrow> store_db" where
  "store_run E db ops \<equiv> snd (consume_all (store_step E) db ops)"

text \<open>What the types of the arguments guarantee.\<close>

fun op_valid :: "store_op \<Rightarrow> bool" where
  "op_valid (OpBegin q) = canonical_identifier 128 (domain_str (bc_authority_domain q))"
| "op_valid (OpPrepare k ck at) = checkpoint_valid ck"
| "op_valid _ = True"

fun op_move :: "store_op \<Rightarrow> store_move" where
  "op_move (OpBegin q) = CutMove (bc_cut_id q) CeBegin"
| "op_move (OpPrepare k ck at) = CutMove k (CePrepare (ck_participant ck))"
| "op_move (OpSeal m at) = CutMove (mf_cut_id m) CeSeal"
| "op_move (OpRelease k d at) = CutMove k CeRelease"
| "op_move (OpAbort k reason at) = CutMove k CeAbort"
| "op_move _ = Ordinary"

lemma listed_iff: "listed x = (res, db') \<longleftrightarrow> snd x = db' \<and> (case fst x of Inl e \<Rightarrow> res = Inl e | Inr r \<Rightarrow> res = Inr [r])"
  by (cases x rule: listed.cases) auto

lemma refused_keeps:
  "begin_backup_cut E q db = (Inl e, db') \<Longrightarrow> db' = db" "prepare_backup_participant E k ck at db = (Inl e, db') \<Longrightarrow> db' = db"
  "seal_backup_cut E m at db = (Inl e, db') \<Longrightarrow> db' = db" "release_backup_cut E k d at db = (Inl e, db') \<Longrightarrow> db' = db"
  "abort_backup_cut E k reason at db = (Inl e, db') \<Longrightarrow> db' = db"
  by (auto simp: begin_backup_cut_def prepare_backup_participant_def seal_backup_cut_def release_backup_cut_def
      abort_backup_cut_def dest: transaction_Err split: sum.splits option.splits if_splits prod.splits)

text \<open>Every operation is refused, or repeats what is recorded, or commits its own transition.\<close>

lemma step_transition:
  assumes s: "store_step E db op = (res, db')" and v: "op_valid op"
  shows "db' = db \<or> transition E db (op_move op) db' \<or>
    (\<exists>d. op_move op = Ordinary \<and> transition E db Ordinary d \<and> transition E d Ordinary db')"
proof (cases op)
  case (OpAppend event state x)
  then obtain res' where "append_event E event state x db = (res', db')" using s by (cases "append_event E event state x db") (auto simp: listed_iff)
  from append_event_cases [OF this] show ?thesis using OpAppend transition.ordinary by fastforce
next
  case (OpPair e1 s1 x1 e2 s2 x2)
  then obtain res' where p: "append_distinct_event_pair E e1 s1 x1 e2 s2 x2 db = (res', db')"
    using s by (auto split: prod.splits sum.splits)
  show ?thesis
  proof (cases "db' = db")
    case False
    with p obtain r1 r2 d where "ensure_no_backup_barrier db = Inr ()"
      "append_event_in_transaction E e1 s1 x1 db = Inr (r1, d)" "append_event_in_transaction E e2 s2 x2 d = Inr (r2, db')"
      by (auto simp: append_distinct_event_pair_def transaction_def ag_check split: sum.splits if_splits)
    moreover from this have "active_backup_cut db = None" "active_backup_cut d = None"
      using append_keeps(8) by (auto simp: ensure_no_backup_barrier_def active_backup_cut_def split: option.splits)
    ultimately have "transition E db Ordinary d" "transition E d Ordinary db'" by (blast intro: transition.ordinary)+
    then show ?thesis using OpPair by auto
  qed simp
next
  case (OpBegin q)
  show ?thesis
  proof (cases "begin_backup_cut E q db")
    case (Pair res' d)
    then have d: "d = db'" using s OpBegin by (simp add: listed_iff)
    show ?thesis
    proof (cases res')
      case (Inr r)
      then show ?thesis using begin_Ok [of E q db r db'] Pair d OpBegin v transition.begins by fastforce
    qed (use Pair d refused_keeps(1) in auto)
  qed
next
  case (OpPrepare k ck at)
  show ?thesis
  proof (cases "prepare_backup_participant E k ck at db")
    case (Pair res' d)
    then have d: "d = db'" using s OpPrepare by (simp add: listed_iff)
    show ?thesis
    proof (cases res')
      case (Inr r)
      then show ?thesis using prepare_Ok [of E k ck at db r db'] Pair d OpPrepare v transition.prepares by fastforce
    qed (use Pair d refused_keeps(2) in auto)
  qed
next
  case (OpSeal m at)
  show ?thesis
  proof (cases "seal_backup_cut E m at db")
    case (Pair res' d)
    then have d: "d = db'" using s OpSeal by (simp add: listed_iff)
    show ?thesis
    proof (cases res')
      case (Inr r)
      then show ?thesis using seal_Ok [of E m at db r db'] Pair d OpSeal transition.seals by fastforce
    qed (use Pair d refused_keeps(3) in auto)
  qed
next
  case (OpRelease k x at)
  show ?thesis
  proof (cases "release_backup_cut E k x at db")
    case (Pair res' d)
    then have d: "d = db'" using s OpRelease by (simp add: listed_iff)
    show ?thesis
    proof (cases res')
      case (Inr r)
      then show ?thesis using release_Ok [of E k x at db r db'] Pair d OpRelease transition.releases by fastforce
    qed (use Pair d refused_keeps(4) in auto)
  qed
next
  case (OpAbort k reason at)
  show ?thesis
  proof (cases "abort_backup_cut E k reason at db")
    case (Pair res' d)
    then have d: "d = db'" using s OpAbort by (simp add: listed_iff)
    show ?thesis
    proof (cases res')
      case (Inr r)
      then show ?thesis using abort_Ok [of E k reason at db r db'] Pair d OpAbort transition.aborts by fastforce
    qed (use Pair d refused_keeps(5) in auto)
  qed
qed

section \<open>What is recorded stays\<close>

text \<open>A cut's identity columns never change, its manifest is written once, and a cut that is over is
  final; a participant's identity never changes and its checkpoint is written once.\<close>

definition cut_grows :: "cut_row \<Rightarrow> cut_row \<Rightarrow> bool" where
  "cut_grows c c' \<longleftrightarrow> cu_cut_id c' = cu_cut_id c \<and> cu_authority_domain c' = cu_authority_domain c \<and> cu_epoch c' = cu_epoch c \<and>
     cu_quiescence_barrier_id c' = cu_quiescence_barrier_id c \<and> cu_begin_request_digest c' = cu_begin_request_digest c \<and>
     cu_begin_event c' = cu_begin_event c \<and>
     (cu_manifest_digest c \<noteq> None \<longrightarrow> cu_manifest_digest c' = cu_manifest_digest c \<and> cu_seal_event c' = cu_seal_event c) \<and>
     (cu_state c \<in> {''released'', ''aborted''} \<longrightarrow> c' = c)"

definition row_grows :: "participant_row \<Rightarrow> participant_row \<Rightarrow> bool" where
  "row_grows r r' \<longleftrightarrow> pr_component_identity r' = pr_component_identity r \<and> (pr_checkpoint r \<noteq> None \<longrightarrow> r' = r)"

definition store_grows :: "env \<Rightarrow> store_db \<Rightarrow> store_db \<Rightarrow> bool" where
  "store_grows E db db' \<longleftrightarrow>
     (\<forall>k c. find_cut db k = Some c \<longrightarrow> (\<exists>c'. find_cut db' k = Some c' \<and> cut_grows c c')) \<and>
     (\<forall>k p r. find_cut db k \<noteq> None \<longrightarrow> find_participant db k p = Some r \<longrightarrow> (\<exists>r'. find_participant db' k p = Some r' \<and> row_grows r r')) \<and>
     (\<forall>n y. event_receipt_by_sequence E db n = Inr y \<longrightarrow> event_receipt_by_sequence E db' n = Inr y)"

lemma grows_refl: "cut_grows c c" "row_grows r r" "store_grows E db db"
  by (auto simp: cut_grows_def row_grows_def store_grows_def)

lemma grows_trans:
  "cut_grows a b \<Longrightarrow> cut_grows b c \<Longrightarrow> cut_grows a c" "row_grows x y \<Longrightarrow> row_grows y z \<Longrightarrow> row_grows x z"
  by (auto simp: cut_grows_def row_grows_def)

lemma store_grows_trans:
  assumes "store_grows E a b" "store_grows E b c"
  shows "store_grows E a c"
  unfolding store_grows_def
proof (intro conjI allI impI)
  fix k r assume "find_cut a k = Some r"
  with assms show "\<exists>r'. find_cut c k = Some r' \<and> cut_grows r r'" unfolding store_grows_def by (meson grows_trans(1))
next
  fix k p r assume k: "find_cut a k \<noteq> None" and r: "find_participant a k p = Some r"
  from k assms(1) have "find_cut b k \<noteq> None" unfolding store_grows_def by (metis not_None_eq)
  with k r assms show "\<exists>r'. find_participant c k p = Some r' \<and> row_grows r r'" unfolding store_grows_def by (meson grows_trans(2))
qed (use assms in \<open>auto simp: store_grows_def\<close>)

lemma store_grows_updated:
  assumes cuts: "find_cut db' j = map_option (\<lambda>c. if j = k then f c else c) (find_cut db j)"
    and k: "find_cut db k = Some c" "cut_grows c (f c)" and c: "find_cut db j = Some c0"
  shows "\<exists>c'. find_cut db' j = Some c' \<and> cut_grows c0 c'"
  using assms by (cases "j = k") (auto simp: grows_refl)

lemma transition_grows:
  assumes E: "codec_ok E" and t: "transition E db m db'" and num: "store_numbered db" and ok: "backup_ok E db"
  shows "store_grows E db db'"
proof -
  have receipts: "\<forall>n y. event_receipt_by_sequence E db n = Inr y \<longrightarrow> event_receipt_by_sequence E db' n = Inr y"
    using transition_receipt [OF E t num] by blast
  have same: "\<forall>k p r. find_cut db k \<noteq> None \<longrightarrow> find_participant db k p = Some r \<longrightarrow> (\<exists>r'. find_participant db' k p = Some r' \<and> row_grows r r')"
    if "db_participants db' = db_participants db"
    using that by (simp add: find_participant_def grows_refl)
  have cuts: "\<forall>j c. find_cut db j = Some c \<longrightarrow> (\<exists>c'. find_cut db' j = Some c' \<and> cut_grows c c')"
    if "db_cuts db' = update_rows k f (db_cuts db)" "\<And>c. cu_cut_id (f c) = cu_cut_id c" "find_cut db k = Some c" "cut_grows c (f c)"
    for k f c
    using store_grows_updated [OF find_cut_updated [OF that(1,2)] that(3,4)] by blast
  from t show ?thesis
  proof cases
    case (ordinary event state x r)
    have "find_cut db' = find_cut db" using append_keeps(8) [OF ordinary(3)] by (simp add: fun_eq_iff find_cut_def)
    then show ?thesis
      using receipts same [OF append_keeps(9) [OF ordinary(3)]] unfolding store_grows_def by (auto simp: grows_refl)
  next
    case (begins q d r)
    note t = commit_tables [OF begins(7)]
    have "find_participant db' k p = find_participant db k p" if "find_cut db k \<noteq> None" for k p
      using that begins(2) find_participant_new [OF begins(2) _ begins(4) t(2)] ok by (auto simp: backup_ok_def)
    moreover have "find_cut db' k = (if k = bc_cut_id q then Some (new_cut q d r) else find_cut db k)" for k
      using begins(2) by (simp add: find_cut_def t find_append new_cut_def split: option.split)
    ultimately show ?thesis
      using receipts begins(2) unfolding store_grows_def by (auto simp: grows_refl)
  next
    case (prepares k ck b row st at r)
    note t = commit_tables [OF prepares(7)]
    from prepares(2) have row: "find_participant db k (ck_participant ck) = Some row" by (auto simp: prepare_checks_Ok)
    obtain c where c: "find_cut db k = Some c" "cu_state c = cut_state_str st" using prepares(5) by (auto simp: backup_state_iff)
    have "cut_grows c (prepared_cut (prepared_count db k + 1) at c)"
      using c(2) prepares(6) by (auto simp: cut_grows_def prepared_cut_def)
    from cuts [OF t(1) _ c(1) this] show ?thesis
      using receipts find_participant_recorded [OF t(2)] unfolding store_grows_def by (auto simp: row_grows_def prepared_cut_def)
  next
    case (seals k c d r at)
    note t = commit_tables [OF seals(4)]
    have "cut_grows c (sealed_cut d r at c)" using seals(3,5) by (auto simp: cut_grows_def sealed_cut_def)
    from cuts [OF t(1) _ seals(2) this] show ?thesis
      using receipts same [OF t(2)] unfolding store_grows_def by (simp add: sealed_cut_def)
  next
    case (releases k c d r at)
    note t = commit_tables [OF releases(4)]
    have "cut_grows c (released_cut d r at c)" using releases(3) by (auto simp: cut_grows_def released_cut_def)
    from cuts [OF t(1) _ releases(2) this] show ?thesis
      using receipts same [OF t(2)] unfolding store_grows_def by (simp add: released_cut_def)
  next
    case (aborts k c reason r at)
    note t = commit_tables [OF aborts(4)]
    have "cut_grows c (aborted_cut reason r at c)" using aborts(3) by (auto simp: cut_grows_def aborted_cut_def cut_active_def)
    from cuts [OF t(1) _ aborts(2) this] show ?thesis
      using receipts same [OF t(2)] unfolding store_grows_def by (simp add: aborted_cut_def)
  qed
qed

section \<open>Runs\<close>

lemma step_induct:
  assumes s: "store_step E db op = (res, db')" and v: "op_valid op" and I: "I db"
    and t: "\<And>m d d'. transition E d m d' \<Longrightarrow> m = op_move op \<Longrightarrow> I d \<Longrightarrow> I d'"
  shows "I db'"
  using step_transition [OF s v] I t by metis

lemma run_induct:
  assumes I: "I db" and v: "list_all op_valid ops"
    and t: "\<And>op m d d'. op \<in> set ops \<Longrightarrow> transition E d m d' \<Longrightarrow> m = op_move op \<Longrightarrow> I d \<Longrightarrow> I d'"
  shows "I (store_run E db ops)"
  using assms
proof (induction ops arbitrary: db)
  case (Cons op ops)
  obtain res d where s: "store_step E db op = (res, d)" by fastforce
  have "I d" by (rule step_induct [where I = I, OF s]) (use Cons.prems in auto)
  then have "I (store_run E d ops)" using Cons.IH [of d] Cons.prems by auto
  then show ?case using s by (simp add: Let_def case_prod_unfold)
qed simp

definition cut_runs :: "string \<Rightarrow> store_db \<Rightarrow> store_db \<Rightarrow> bool" where
  "cut_runs k db db' \<longleftrightarrow> (\<exists>es. run_events cut_step (cut_phase_of db k) es = Inr (cut_phase_of db' k))"

lemma transition_runs:
  assumes "codec_ok E" "transition E d m d'" "backup_ok E d" "cut_runs k db d"
  shows "cut_runs k db d'"
proof -
  from assms(4) obtain es where es: "run_events cut_step (cut_phase_of db k) es = Inr (cut_phase_of d k)"
    by (auto simp: cut_runs_def)
  consider "cut_phase_of d' k = cut_phase_of d k" | e where "cut_step (cut_phase_of d k) e = Inr (cut_phase_of d' k)"
    using transition_phase [OF assms(1-3)] by (cases m) (simp, simp, metis)
  then show ?thesis
  proof cases
    case (2 e)
    then have "run_events cut_step (cut_phase_of db k) (es @ [e]) = Inr (cut_phase_of d' k)"
      using es by (simp add: run_events_append ag_check)
    then show ?thesis unfolding cut_runs_def by blast
  qed (use es in \<open>auto simp: cut_runs_def\<close>)
qed

section \<open>Retries\<close>

definition kept :: "env \<Rightarrow> store_db \<Rightarrow> store_db \<Rightarrow> bool" where
  "kept E db d \<longleftrightarrow> store_grows E db d \<and> backup_ok E d \<and> store_numbered d"

lemma grows_cut:
  assumes "store_grows E db d" and "find_cut db k = Some c"
  obtains c' where "find_cut d k = Some c'" and "cut_grows c c'"
  using assms unfolding store_grows_def by blast

lemma grows_row:
  assumes "store_grows E db d" and "find_cut db k \<noteq> None" and "find_participant db k p = Some r"
  obtains r' where "find_participant d k p = Some r'" and "row_grows r r'"
  using assms unfolding store_grows_def by blast

lemma grows_receipt: "store_grows E db d \<Longrightarrow> event_receipt_by_sequence E db n = Inr y \<Longrightarrow> event_receipt_by_sequence E d n = Inr y"
  unfolding store_grows_def by blast

lemma retry_begin:
  assumes E: "codec_ok E" and num: "store_numbered db" and b: "begin_backup_cut E q db = (Inr r, db')"
    and g: "store_grows E db' d"
  shows "begin_backup_cut E q d = (Inr r, d)"
proof -
  obtain x c where x: "begin_cut_validate q = Inr ()" "digest_jcs E ''ag-store-backup-begin-request-v1'' (begin_cut_json q) = Inr x"
    and c: "find_cut db' (bc_cut_id q) = Some c" "cu_begin_request_digest c = as_str x"
    and y: "event_receipt_by_sequence E db' (fst (cu_begin_event c)) = Inr r"
  proof -
    from begin_Ok [OF b] obtain x where x: "begin_cut_validate q = Inr ()"
      "digest_jcs E ''ag-store-backup-begin-request-v1'' (begin_cut_json q) = Inr x" and
      "(\<exists>c. find_cut db' (bc_cut_id q) = Some c \<and> cu_begin_request_digest c = as_str x \<and> event_receipt_by_sequence E db' (fst (cu_begin_event c)) = Inr r) \<or>
       find_cut db (bc_cut_id q) = None \<and> cut_commit E (bc_cut_id q) (db_cuts db @ [new_cut q x r]) (db_participants db @ new_participants q) r db db'"
      by blast
    then consider c where "find_cut db' (bc_cut_id q) = Some c" "cu_begin_request_digest c = as_str x" "event_receipt_by_sequence E db' (fst (cu_begin_event c)) = Inr r"
      | "find_cut db (bc_cut_id q) = None" "cut_commit E (bc_cut_id q) (db_cuts db @ [new_cut q x r]) (db_participants db @ new_participants q) r db db'"
      by (elim disjE exE conjE) auto
    then show thesis
    proof cases
      case 2
      have "find_cut db' (bc_cut_id q) = Some (new_cut q x r)"
        using 2(1) by (simp add: find_cut_def commit_tables(1) [OF 2(2)] find_append new_cut_def)
      then show thesis using that x commit_receipt(1) [OF E 2(2) num] by (auto simp: new_cut_def)
    qed (use that x in blast)
  qed
  obtain c' where "find_cut d (bc_cut_id q) = Some c'" "cut_grows c c'" by (rule grows_cut [OF g c(1)])
  then show ?thesis using x c(2) grows_receipt [OF g y] by (simp add: begin_backup_cut_def cut_grows_def ag_check)
qed

lemma retry_prepare:
  assumes E: "codec_ok E" and num: "store_numbered db" and b: "prepare_backup_participant E k ck at db = (Inr r, db')"
    and g: "store_grows E db' d"
  shows "prepare_backup_participant E k ck at' d = (Inr r, d)"
proof -
  obtain b row x n y where p: "prepare_checks E k ck db' = Inr (b, row)"
    and row: "pr_checkpoint row = Some (x, as_str (checkpoint_digest_of E b), n, y)" and y: "event_receipt_by_sequence E db' n = Inr r"
  proof -
    from prepare_Ok [OF b] obtain b row where p: "prepare_checks E k ck db = Inr (b, row)" and
      "(\<exists>x n y. pr_checkpoint row = Some (x, as_str (checkpoint_digest_of E b), n, y) \<and> event_receipt_by_sequence E db n = Inr r \<and> db' = db) \<or>
       pr_checkpoint row = None \<and> cut_commit E k (update_rows k (prepared_cut (prepared_count db k + 1) at) (db_cuts db))
         (record_checkpoint k (ck_participant ck) (checkpoint_value E b r) (db_participants db)) r db db'"
      by blast
    then consider x n y where "pr_checkpoint row = Some (x, as_str (checkpoint_digest_of E b), n, y)" "event_receipt_by_sequence E db n = Inr r" "db' = db"
      | "pr_checkpoint row = None" "cut_commit E k (update_rows k (prepared_cut (prepared_count db k + 1) at) (db_cuts db))
         (record_checkpoint k (ck_participant ck) (checkpoint_value E b r) (db_participants db)) r db db'"
      by (elim disjE exE conjE) auto
    then show thesis
    proof cases
      case 2
      note t = commit_tables [OF 2(2)]
      have find: "find_cut db' j = map_option (\<lambda>c. if j = k then prepared_cut (prepared_count db k + 1) at c else c) (find_cut db j)" for j
        by (rule find_cut_updated [OF t(1)]) (simp add: prepared_cut_def)
      have "prepare_checks E k ck db' = Inr (b, row\<lparr>pr_checkpoint := Some (checkpoint_value E b r)\<rparr>)"
        using p 2(1) by (auto simp: prepare_checks_Ok find find_participant_recorded [OF t(2)] prepared_cut_def intro!: exI [of _ row])
      then show thesis
        using that [of b "row\<lparr>pr_checkpoint := Some (checkpoint_value E b r)\<rparr>"] commit_receipt(1) [OF E 2(2) num]
        by (simp add: checkpoint_value_def)
    qed (use that p in blast)
  qed
  from p obtain c where c: "find_cut db' k = Some c" and r: "find_participant db' k (ck_participant ck) = Some row"
    by (auto simp: prepare_checks_Ok)
  obtain c' where c': "find_cut d k = Some c'" "cut_grows c c'" by (rule grows_cut [OF g c])
  obtain r' where r': "find_participant d k (ck_participant ck) = Some r'" "row_grows row r'" by (rule grows_row [OF g _ r]) (simp add: c)
  then have "r' = row" using row by (simp add: row_grows_def)
  then have "prepare_checks E k ck d = Inr (b, row)" using p c c' r r' by (auto simp: prepare_checks_Ok cut_grows_def)
  then show ?thesis using row grows_receipt [OF g y] by (simp add: prepare_backup_participant_def)
qed

lemma backup_ok_state: "backup_ok E db \<Longrightarrow> find_cut db k = Some c \<Longrightarrow> \<exists>s. cu_state c = cut_state_str s"
  using find_cut_in [of db k c] unfolding backup_ok_def cuts_ok_def cut_row_ok_def list_all_iff
  by (metis cut_state_str.simps insertE singletonD)

lemma retry_seal:
  assumes E: "codec_ok E" and num: "store_numbered db" and b: "seal_backup_cut E m at db = (Inr r, db')"
    and g: "store_grows E db' d" and ok: "backup_ok E d"
  shows "seal_backup_cut E m at' d = (Inr r, d)"
proof -
  let ?k = "mf_cut_id m"
  obtain x c n y where x: "manifest_digest_of E m = Inr x" and c: "find_cut db' ?k = Some c"
    "cu_manifest_digest c = Some (as_str x)" "cu_seal_event c = Some (n, y)" and rec: "event_receipt_by_sequence E db' n = Inr r"
  proof -
    from seal_Ok [OF b] obtain x c where x: "manifest_digest_of E m = Inr x" and c: "find_cut db ?k = Some c" and
      "(\<exists>n y. cu_manifest_digest c = Some (as_str x) \<and> cu_seal_event c = Some (n, y) \<and> event_receipt_by_sequence E db n = Inr r \<and> db' = db) \<or>
       cut_commit E ?k (update_rows ?k (sealed_cut x r at) (db_cuts db)) (db_participants db) r db db'"
      by blast
    then consider n y where "cu_manifest_digest c = Some (as_str x)" "cu_seal_event c = Some (n, y)" "event_receipt_by_sequence E db n = Inr r" "db' = db"
      | "cut_commit E ?k (update_rows ?k (sealed_cut x r at) (db_cuts db)) (db_participants db) r db db'"
      by (elim disjE exE conjE) auto
    then show thesis
    proof cases
      case 2
      have "find_cut db' ?k = Some (sealed_cut x r at c)"
        by (subst find_cut_updated [OF commit_tables(1) [OF 2]]) (simp_all add: sealed_cut_def c)
      then show thesis using that [OF x] commit_receipt(1) [OF E 2 num] by (simp add: sealed_cut_def)
    qed (use that x c in blast)
  qed
  obtain c' where c': "find_cut d ?k = Some c'" "cut_grows c c'" by (rule grows_cut [OF g c(1)])
  obtain s where "cu_state c' = cut_state_str s" using backup_ok_state [OF ok c'(1)] by blast
  then have "cut_state_from_str (cu_state c') = Inr s" by (simp add: cut_state_from_str_iff)
  then show ?thesis using x c c' grows_receipt [OF g rec] by (simp add: seal_backup_cut_def cut_grows_def ag_check ok_or_def)
qed

lemma retry_release:
  assumes E: "codec_ok E" and num: "store_numbered db" and b: "release_backup_cut E k x at db = (Inr r, db')"
    and g: "store_grows E db' d"
  shows "release_backup_cut E k x at' d = (Inr r, d)"
proof -
  obtain c n y where c: "find_cut db' k = Some c" "cu_state c = ''released''" "cu_release_bundle_digest c = Some (as_str x)"
    "cu_release_event c = Some (n, y)" and rec: "event_receipt_by_sequence E db' n = Inr r"
  proof -
    from release_Ok [OF b] obtain c where c: "find_cut db k = Some c" and
      "(\<exists>n y. cu_state c = ''released'' \<and> cu_release_bundle_digest c = Some (as_str x) \<and> cu_release_event c = Some (n, y) \<and>
          event_receipt_by_sequence E db n = Inr r \<and> db' = db) \<or>
       cut_commit E k (update_rows k (released_cut x r at) (db_cuts db)) (db_participants db) r db db'"
      by blast
    then consider n y where "cu_state c = ''released''" "cu_release_bundle_digest c = Some (as_str x)" "cu_release_event c = Some (n, y)"
        "event_receipt_by_sequence E db n = Inr r" "db' = db"
      | "cut_commit E k (update_rows k (released_cut x r at) (db_cuts db)) (db_participants db) r db db'"
      by (elim disjE exE conjE) auto
    then show thesis
    proof cases
      case 2
      have "find_cut db' k = Some (released_cut x r at c)"
        by (subst find_cut_updated [OF commit_tables(1) [OF 2]]) (simp_all add: released_cut_def c)
      then show thesis using that commit_receipt(1) [OF E 2 num] by (simp add: released_cut_def)
    qed (use that c in blast)
  qed
  obtain c' where "find_cut d k = Some c'" "cut_grows c c'" by (rule grows_cut [OF g c(1)])
  then show ?thesis using c grows_receipt [OF g rec]
    by (simp add: release_backup_cut_def cut_grows_def ag_check ok_or_def cut_state_from_str_def)
qed

lemma retry_abort:
  assumes E: "codec_ok E" and num: "store_numbered db" and b: "abort_backup_cut E k reason at db = (Inr r, db')"
    and g: "store_grows E db' d"
  shows "abort_backup_cut E k reason at' d = (Inr r, d)"
proof -
  obtain c n y where c: "find_cut db' k = Some c" "cu_state c = ''aborted''" "cu_abort_reason c = Some reason"
    "cu_abort_event c = Some (n, y)" and rec: "event_receipt_by_sequence E db' n = Inr r"
  proof -
    from abort_Ok [OF b] obtain c where c: "find_cut db k = Some c" and
      "(\<exists>n y. cu_state c = ''aborted'' \<and> cu_abort_reason c = Some reason \<and> cu_abort_event c = Some (n, y) \<and>
          event_receipt_by_sequence E db n = Inr r \<and> db' = db) \<or>
       cut_commit E k (update_rows k (aborted_cut reason r at) (db_cuts db)) (db_participants db) r db db'"
      by blast
    then consider n y where "cu_state c = ''aborted''" "cu_abort_reason c = Some reason" "cu_abort_event c = Some (n, y)"
        "event_receipt_by_sequence E db n = Inr r" "db' = db"
      | "cut_commit E k (update_rows k (aborted_cut reason r at) (db_cuts db)) (db_participants db) r db db'"
      by (elim disjE exE conjE) auto
    then show thesis
    proof cases
      case 2
      have "find_cut db' k = Some (aborted_cut reason r at c)"
        by (subst find_cut_updated [OF commit_tables(1) [OF 2]]) (simp_all add: aborted_cut_def c)
      then show thesis using that commit_receipt(1) [OF E 2 num] by (simp add: aborted_cut_def)
    qed (use that c in blast)
  qed
  have "store_identifier ''abort_reason'' reason 256 = Inr ()"
    using b by (auto simp: abort_backup_cut_def ag_check split: sum.splits)
  moreover obtain c' where "find_cut d k = Some c'" "cut_grows c c'" by (rule grows_cut [OF g c(1)])
  ultimately show ?thesis using c grows_receipt [OF g rec]
    by (simp add: abort_backup_cut_def cut_grows_def ag_check ok_or_def cut_state_from_str_def)
qed

fun cut_op :: "store_op \<Rightarrow> bool" where
  "cut_op (OpAppend _ _ _) = False"
| "cut_op (OpPair _ _ _ _ _ _) = False"
| "cut_op _ = True"

lemma retry_step:
  assumes E: "codec_ok E" and num: "store_numbered db" and s: "store_step E db op = (Inr rs, db')" and op: "cut_op op"
    and g: "store_grows E db' d" and ok: "backup_ok E d"
  shows "store_step E d op = (Inr rs, d)"
proof -
  have l: "listed x = (Inr rs, db') \<longleftrightarrow> (\<exists>r. x = (Inr r, db') \<and> rs = [r])" for x
    by (cases x rule: listed.cases) auto
  show ?thesis
    using op s retry_begin [OF E num _ g] retry_prepare [OF E num _ g] retry_seal [OF E num _ g ok] retry_release [OF E num _ g]
      retry_abort [OF E num _ g]
    by (cases op) (auto simp: l)
qed

section \<open>The active cut\<close>

lemma active_iff:
  assumes "cuts_ok es (db_cuts db)"
  shows "active_backup_cut db = Some k \<longleftrightarrow> (\<exists>c. find_cut db k = Some c \<and> cut_active c)"
proof
  assume "active_backup_cut db = Some k"
  then obtain c where "List.find cut_active (db_cuts db) = Some c" and k: "cu_cut_id c = k"
    by (auto simp: active_backup_cut_def cut_active_def [abs_def])
  then have "c \<in> set (db_cuts db)" "cut_active c" by (auto simp: find_Some_iff)
  then show "\<exists>c. find_cut db k = Some c \<and> cut_active c" using cut_find [OF assms] k by blast
next
  assume "\<exists>c. find_cut db k = Some c \<and> cut_active c"
  then obtain c where c: "c \<in> set (db_cuts db)" "cu_cut_id c = k" "cut_active c" using find_cut_in by blast
  then obtain c' where c': "List.find cut_active (db_cuts db) = Some c'" by (metis find_None_iff not_None_eq)
  then have "c' \<in> set (filter cut_active (db_cuts db))" by (auto simp: find_Some_iff)
  moreover have "c \<in> set (filter cut_active (db_cuts db))" using c by simp
  moreover have "length (filter cut_active (db_cuts db)) \<le> 1" using assms by (simp add: cuts_ok_def)
  ultimately have "c' = c" by (cases "filter cut_active (db_cuts db)") auto
  with c' c(2) show "active_backup_cut db = Some k" by (simp add: active_backup_cut_def cut_active_def [abs_def])
qed

lemma backup_ok_cuts: "backup_ok E db \<Longrightarrow> cuts_ok (db_events db) (db_cuts db)"
  by (simp add: backup_ok_def)

text \<open>While a cut is active every transition is a preparation, the seal, the release or the abort of that cut.\<close>

lemma transition_active:
  assumes E: "codec_ok E" and t: "transition E db m db'" and ok: "backup_ok E db" and k: "active_backup_cut db = Some k"
  shows "\<exists>e. m = CutMove k e \<and> (e \<notin> {CeRelease, CeAbort} \<longrightarrow> active_backup_cut db' = Some k)"
proof -
  note iff = active_iff [OF backup_ok_cuts [OF ok]] active_iff [OF backup_ok_cuts [OF transition_backup_ok [OF E t ok]]]
  from k obtain c where c: "find_cut db k = Some c" "cut_active c" using iff(1) by blast
  have only: "j = k" if "find_cut db j = Some c'" "cut_active c'" for j c' using that iff(1) [of j] k by auto
  from t show ?thesis
  proof cases
    case (prepares j ck b row st at r)
    obtain c' where c': "find_cut db j = Some c'" "cu_state c' = cut_state_str st" using prepares(5) by (auto simp: backup_state_iff)
    then have j: "j = k" using only prepares(6) by (auto simp: active_state)
    have "find_cut db' k = Some (prepared_cut (prepared_count db k + 1) at c)"
      by (subst find_cut_updated [OF commit_tables(1) [OF prepares(7)]]) (simp_all add: prepared_cut_def c j)
    then have "active_backup_cut db' = Some k" using iff(2) by (auto simp: prepared_cut_def active_state after_prepare_def)
    then show ?thesis using prepares(1) j by blast
  next
    case (seals j c' d r at)
    then have j: "j = k" using only by (auto simp: cut_active_def)
    have "find_cut db' k = Some (sealed_cut d r at c)"
      by (subst find_cut_updated [OF commit_tables(1) [OF seals(4)]]) (simp_all add: sealed_cut_def c j)
    then have "active_backup_cut db' = Some k" using iff(2) by (auto simp: sealed_cut_def cut_active_def)
    then show ?thesis using seals(1) j by blast
  next
    case (releases j c' d r at)
    then show ?thesis using only [of j c'] by (auto simp: cut_active_def)
  next
    case (aborts j c' reason r at)
    then show ?thesis using only [of j c'] by auto
  qed (use k in auto)
qed

lemma run_backup_ok:
  "codec_ok E \<Longrightarrow> list_all op_valid ops \<Longrightarrow> backup_ok E db \<Longrightarrow> backup_ok E (store_run E db ops)"
  by (rule run_induct) (auto intro: transition_backup_ok)

lemma run_grows:
  assumes "codec_ok E" "list_all op_valid ops" "backup_ok E db" "store_numbered db"
  shows "store_grows E db (store_run E db ops) \<and> backup_ok E (store_run E db ops) \<and> store_numbered (store_run E db ops)"
  by (rule run_induct [where I = "\<lambda>d. store_grows E db d \<and> backup_ok E d \<and> store_numbered d", OF _ assms(2)])
    (use assms in \<open>auto intro: transition_backup_ok transition_numbered transition_grows store_grows_trans grows_refl\<close>)

lemma ordinary_refused:
  assumes "active_backup_cut d = Some k" and "\<not> cut_op op"
  shows "\<exists>e. store_step E d op = (Inl e, d)"
proof -
  have b: "ensure_no_backup_barrier d = Inl (SeBackupBarrierActive k)" using assms(1) by (simp add: ensure_no_backup_barrier_def)
  from assms(2) show ?thesis
    by (cases op) (auto simp: append_event_def append_distinct_event_pair_def transaction_def b split: sum.split if_split)
qed

section \<open>The manifest of a prepared cut\<close>

lemma try_map_total: "(\<And>x. x \<in> set xs \<Longrightarrow> f x = Inr (g x)) \<Longrightarrow> try_map f xs = Inr (map g xs)"
  by (induction xs) (auto simp: ag_check)

text \<open>What the manifest says of one participant, against the row the participant prepared.\<close>

definition prepared_as :: "env \<Rightarrow> store_db \<Rightarrow> cut_row \<Rightarrow> backup_participant \<Rightarrow> prepared_participant \<Rightarrow> bool" where
  "prepared_as E db c p pp \<longleftrightarrow> ck_participant (pp_checkpoint pp) = p \<and> attested_for c (pp_checkpoint pp) \<and>
     (\<exists>r b d n. find_participant db (cu_cut_id c) p = Some r \<and> as_str (ck_component_identity (pp_checkpoint pp)) = pr_component_identity r \<and>
        pr_checkpoint r = Some (b, d, n) \<and> canonicalize E (checkpoint_json (pp_checkpoint pp)) = Inr b \<and>
        n = (uint (pp_prepared_event_sequence pp), as_str (pp_prepared_event_digest pp)))"

lemma manifest_row_Ok:
  assumes E: "codec_ok E" "faithful_printer E" and comp: "cut_complete E db c"
    and r: "find_participant db (cu_cut_id c) p = Some r" "pr_checkpoint r \<noteq> None"
  shows "\<exists>pp. manifest_row E r = Inr (p, pp) \<and> prepared_as E db c p pp"
proof -
  from comp r obtain ck where ck: "bound_checkpoint E c r ck" unfolding cut_complete_def by (metis option.inject)
  obtain b n x where b: "pr_checkpoint r = Some (b, as_str (checkpoint_digest_of E b), n, x)" and x: "0 \<le> n" "n < 2 ^ 64" "digest_text x"
    and canon: "canonicalize E (checkpoint_json ck) = Inr b"
    using ck by (auto simp: bound_checkpoint_def)
  have p: "pr_participant r = participant_str p" using find_participant_Some [OF r(1)] by simp
  then have role: "ck_participant ck = p" using ck participant_from_str_iff by (metis bound_checkpoint_def sum.inject(2))
  have "res_bind (env_json_tree E b) (checkpoint_deserialize E) = Inr ck"
    using checkpoint_wire.stored_roundtrip [OF _ _ canon, of E] E ck by (simp add: bound_checkpoint_def faithful_printer_def)
  moreover obtain d where d: "store_digest_from_str E x = Inr d" "as_str d = x"
    using store_digest_iff [OF E(1)] x(3) by simp
  moreover have "to_u64 n f = Inr (word_of_int n)" for f using x(1) by (simp add: to_u64_def)
  moreover have "uint (word_of_int n :: u64) = n" using x(1,2) by (simp add: uint_word_of_int)
  ultimately show ?thesis
    using p b role ck r(1) canon
    by (auto simp: manifest_row_def participant_from_str_iff [THEN iffD2] ok_or_def prepared_as_def bound_checkpoint_def)
qed

lemma all_prepared:
  assumes "length (prepared_roles db k) = 3"
  shows "\<exists>r. find_participant db k p = Some r \<and> pr_checkpoint r \<noteq> None"
proof -
  have "case find_participant db k p of Some r \<Rightarrow> pr_checkpoint r \<noteq> None | None \<Rightarrow> False" (is ?P)
  proof (rule ccontr)
    assume "\<not> ?P"
    then have "length (prepared_roles db k) < length required_participants"
      unfolding prepared_roles_def by (rule length_filter_less [OF required_all(1)])
    with assms required_all(3) show False by simp
  qed
  then show ?thesis by (auto split: option.splits)
qed

lemma participants_by_role:
  assumes "participants_ok es cuts (db_participants db)" and "r \<in> set (db_participants db)" and "pr_cut_id r = k"
  shows "\<exists>p. find_participant db k p = Some r"
proof -
  have "pr_participant r \<in> {''agd'', ''ag-effectd'', ''ag-providerd''}" using assms by (auto simp: participants_ok_def list_all_iff)
  then obtain p where "pr_participant r = participant_str p"
    by (metis insertE participant_str.simps singletonD)
  then show ?thesis using participant_find [OF assms(1,2)] assms(3) by blast
qed

lemma manifest_rows:
  assumes E: "codec_ok E" "faithful_printer E" and ok: "backup_ok E db" and c: "find_cut db k = Some c"
    and roles: "length (prepared_roles db k) = 3"
  shows "\<exists>rows. try_map (manifest_row E) (sort_key pr_participant (filter (\<lambda>r. pr_cut_id r = k) (db_participants db))) = Inr rows \<and>
    (\<forall>p. \<exists>pp. map_of (rev rows) p = Some pp) \<and> (\<forall>(p, pp) \<in> set rows. prepared_as E db c p pp)"
proof -
  let ?rows = "filter (\<lambda>r. pr_cut_id r = k) (db_participants db)"
  have ps: "participants_ok (db_events db) (db_cuts db) (db_participants db)" using ok by (simp add: backup_ok_def)
  have comp: "cut_complete E db c" and id: "cu_cut_id c = k" using ok find_cut_in [OF c] by (auto simp: backup_ok_def)
  let ?g = "\<lambda>r. projr (manifest_row E r)"
  have row: "manifest_row E r = Inr (?g r) \<and> prepared_as E db c (fst (?g r)) (snd (?g r)) \<and> fst (?g r) = p"
    if "find_participant db k p = Some r" for r p
    using manifest_row_Ok [OF E comp _ , of p r] that all_prepared [OF roles, of p] id by fastforce
  have rows: "manifest_row E r = Inr (?g r) \<and> prepared_as E db c (fst (?g r)) (snd (?g r))" if "r \<in> set ?rows" for r
    using participants_by_role [OF ps, of r k] that row by fastforce
  then have "try_map (manifest_row E) (sort_key pr_participant ?rows) = Inr (map ?g (sort_key pr_participant ?rows))"
    by (intro try_map_total) simp
  moreover have "\<exists>pp. map_of (rev (map ?g (sort_key pr_participant ?rows))) p = Some pp" for p
  proof -
    obtain r where r: "find_participant db k p = Some r" using all_prepared [OF roles] by blast
    then have "p \<in> fst ` set (rev (map ?g (sort_key pr_participant ?rows)))"
      using find_participant_Some [OF r] row [OF r] by (intro image_eqI [of _ _ "?g r"]) auto
    then have "map_of (rev (map ?g (sort_key pr_participant ?rows))) p \<noteq> None" by (simp only: map_of_eq_None_iff not_not simp_thms)
    then show ?thesis by blast
  qed
  ultimately show ?thesis using rows by (intro exI [of _ "map ?g (sort_key pr_participant ?rows)"]) (auto simp: case_prod_unfold)
qed

lemma build_Ok:
  assumes E: "codec_ok E" "faithful_printer E" and ok: "backup_ok E db" and c: "find_cut db k = Some c"
    and state: "cu_state c \<in> {''prepared'', ''sealed'', ''released''}"
  shows "\<exists>m. build_backup_manifest E db k = Inr m \<and> mf_version m = ''backup-cut/v1'' \<and> mf_cut_id m = k \<and>
    mf_authority_domain m = AuthorityDomainId (cu_authority_domain c) \<and> uint (epoch_get (mf_epoch m)) = cu_epoch c \<and>
    mf_quiescence_barrier_id m = cu_quiescence_barrier_id c \<and>
    list_all2 (prepared_as E db c) required_participants (mf_participants m)"
proof -
  have comp: "cut_complete E db c" and id: "cu_cut_id c = k" and row: "cut_row_ok c"
    using ok find_cut_in [OF c] by (auto simp: backup_ok_def cuts_ok_def list_all_iff)
  then have "length (prepared_roles db k) = 3" using state unfolding cut_complete_def by blast
  from manifest_rows [OF E ok c this] obtain rows where
    rows: "try_map (manifest_row E) (sort_key pr_participant (filter (\<lambda>r. pr_cut_id r = k) (db_participants db))) = Inr rows"
    and all: "\<And>p. \<exists>pp. map_of (rev rows) p = Some pp" and as: "\<And>p pp. (p, pp) \<in> set rows \<Longrightarrow> prepared_as E db c p pp"
    by fastforce
  let ?pick = "\<lambda>p. the (map_of (rev rows) p)"
  have pick: "map_of (rev rows) p = Some (?pick p)" for p using all [of p] by auto
  have picks: "try_map (\<lambda>p. ok_or SeBackupNotPrepared (map_of (rev rows) p)) required_participants = Inr (map ?pick required_participants)"
    by (intro try_map_total) (use pick in \<open>metis ok_or_def option.simps(5)\<close>)
  have "prepared_as E db c p (?pick p)" for p using as [of p "?pick p"] map_of_SomeD [OF pick [of p]] by simp
  then have parts: "list_all2 (prepared_as E db c) required_participants (map ?pick required_participants)"
    by (simp add: list_all2_conv_all_nth)
  obtain s where s: "cut_state_from_str (cu_state c) = Inr s" "s \<in> {CutPrepared, CutSealed, CutReleased}"
    using state by (auto simp: cut_state_from_str_def)
  have epoch: "0 < cu_epoch c" "cu_epoch c < 2 ^ 63" using comp row by (auto simp: cut_complete_def cut_row_ok_def)
  then have u: "uint (word_of_int (cu_epoch c) :: u64) = cu_epoch c" by (simp add: uint_word_of_int)
  then have "(word_of_int (cu_epoch c) :: u64) \<noteq> 0" using epoch(1) by (metis less_irrefl uint_0_eq)
  then have e: "epoch_new (word_of_int (cu_epoch c)) = Inr (EpochId (word_of_int (cu_epoch c)))" by (simp add: epoch_new_def)
  have d: "authority_domain_new (cu_authority_domain c) = Inr (AuthorityDomainId (cu_authority_domain c))"
    using comp by (simp add: cut_complete_def authority_domain_new_def origin_id.new_iff)
  have found: "ok_or (SeBackupCutNotFound k) (find_cut db k) = Inr c" by (simp add: c ok_or_def)
  show ?thesis
    using s(2) parts epoch(1) u
    by (simp add: build_backup_manifest_def found s(1) rows picks d e to_u64_def) (auto simp: required_all(1))
qed

section \<open>Sample cuts\<close>

fun sample_component :: "backup_participant \<Rightarrow> digest" where
  "sample_component Agd = Digest (sha256_prefix @ replicate 64 (CHR ''a''))"
| "sample_component AgEffectd = Digest (sha256_prefix @ replicate 64 (CHR ''b''))"
| "sample_component AgProviderd = Digest (sha256_prefix @ replicate 64 (CHR ''c''))"

definition sample_begin :: begin_cut where
  "sample_begin = \<lparr>bc_cut_id = ''k'', bc_authority_domain = AuthorityDomainId ''site'', bc_epoch = EpochId 1,
     bc_quiescence_barrier_id = ''b'', bc_participants = map (\<lambda>p. \<lparr>pg_participant = p, pg_component_identity = sample_component p\<rparr>)
       required_participants, bc_created_at_unix_ms = 7\<rparr>"

definition sample_begun :: store_db where
  "sample_begun = snd (begin_backup_cut tail_env sample_begin sample_store)"

lemma sample_component_text: "digest_text (as_str (sample_component p))"
  by (cases p) (auto simp: digest_text_def list_all_iff is_lower_hex_def)

lemma sample_begin_ok:
  "begin_cut_validate sample_begin = Inr ()" "json_clean (begin_cut_json sample_begin)"
  "op_valid (OpBegin sample_begin)"
proof -
  have "distinct (map sample_component required_participants)" by (simp add: required_participants_def)
  then have "card (set (map sample_component required_participants)) = 3" by (metis distinct_card length_map required_all(3))
  then show "begin_cut_validate sample_begin = Inr ()"
    by (simp add: begin_cut_validate_def sample_begin_def store_identifier_def ascii_defs required_all(3) comp_def)
qed (simp_all add: begin_cut_json_def registration_json_def sample_begin_def epoch_json_def u64_json_def digest_json_def
      canonical_identifier_def id_endpoint_def id_admitted_def list_all_iff ascii_defs)

lemma sample_begin_fields:
  "bc_cut_id sample_begin = ''k''" "domain_str (bc_authority_domain sample_begin) = ''site''" "epoch_get (bc_epoch sample_begin) = 1"
  "bc_quiescence_barrier_id sample_begin = ''b''" "bc_created_at_unix_ms sample_begin = 7"
  "bc_participants sample_begin = map (\<lambda>p. \<lparr>pg_participant = p, pg_component_identity = sample_component p\<rparr>) required_participants"
  by (simp_all add: sample_begin_def)

lemma cut_json_clean: "json_clean (cut_materialized_json k s n m b r)"
  by (cases m; cases b; cases r) (simp_all add: cut_materialized_json_def option_json_def digest_json_def)

lemma sample_begun_ok:
  "\<exists>r. begin_backup_cut tail_env sample_begin sample_store = (Inr r, sample_begun)" "active_backup_cut sample_begun = Some ''k''"
proof -
  let ?event = "\<lparr>ne_event_id = ''backup:k:begin'', ne_entity_id = ''backup-cut:k'', ne_event_kind = ''backup-cut.begin.v1'',
    ne_occurred_at_unix_ms = 7, ne_payload = begin_cut_json sample_begin\<rparr>"
    and ?state = "cut_materialized_json ''k'' CutPreparing 0 None None None"
  have v: "validate_event ?event = Inr ()"
    by (simp add: validate_event_def store_identifier_def ascii_defs)
  note canon = tail_env_canonical [OF sample_begin_ok(2)] tail_env_canonical [OF cut_json_clean]
  have g: "digest_text (as_str sample_genesis)" using hash_domain_text [OF tail_env_codec] by (simp add: sample_genesis_def)
  obtain d where d: "event_digest_for tail_env \<lparr>hi_sequence = 1, hi_event_id = ne_event_id ?event, hi_entity_id = ne_entity_id ?event,
      hi_event_kind = ne_event_kind ?event, hi_occurred_at_unix_ms = ne_occurred_at_unix_ms ?event, hi_previous_digest = sample_genesis,
      hi_payload_digest = payload_digest_of tail_env (text_print (strict_tree (begin_cut_json sample_begin))),
      hi_state_digest = state_digest_of tail_env (text_print (strict_tree ?state))\<rparr> = Inr d"
    by (simp add: event_digest_for_def digest_jcs_def store_jcs_def tail_env_canonical [OF event_hash_clean] del: text_print.simps)
  obtain r db where a: "append_event tail_env ?event ?state 0 sample_store = (Inr r, db)" and r: "er_sequence r = 1" "er_event_digest r = d"
    and db: "db_cuts db = []" "db_participants db = []" "\<exists>row. db_events db = [row] \<and> ev_sequence row = 1 \<and> ev_event_digest row = as_str d"
    using append_first [OF tail_env_codec sample_store_tables(1-3,5) g v _ canon(2) d refl] canon(1) sample_store_tables
    by (auto simp: appended_row_def)
  have t: "append_event_in_transaction tail_env ?event ?state 0 sample_store = Inr (r, db)" using append_event_cases [OF a] by auto
  have "\<exists>db'. begin_backup_cut tail_env sample_begin sample_store = (Inr r, db') \<and> active_backup_cut db' = Some ''k''"
    using t r db
    by (auto simp: begin_backup_cut_def sample_begin_ok digest_jcs_def store_jcs_def canon find_cut_def sample_store_tables active_backup_cut_def
        sample_begin_fields backup_entity_id_def transaction_def to_i64_def set_cuts_def cuts_ok_def cut_row_ok_def event_column_ok_def
        present_def set_participants_def participants_ok_def checkpoint_event_def required_participants_def simp del: text_print.simps)
  then show "\<exists>r. begin_backup_cut tail_env sample_begin sample_store = (Inr r, sample_begun)" "active_backup_cut sample_begun = Some ''k''"
    by (auto simp: sample_begun_def)
qed

definition sample_attestation :: "backup_participant \<Rightarrow> quiescence_attestation" where
  "sample_attestation p = \<lparr>qa_schema = ''ag-store-offline-quiescence-attestation-v1'', qa_cut_id = ''k'',
     qa_authority_domain = AuthorityDomainId ''site'', qa_epoch = EpochId 1, qa_quiescence_barrier_id = ''b'', qa_participant = p,
     qa_boundary = OfflineServicesStopped, qa_boundary_summary = sample_component p, qa_attesting_principal = sample_component p,
     qa_attested_at_unix_ms = 7\<rparr>"

definition sample_checkpoint :: "backup_participant \<Rightarrow> backup_checkpoint" where
  "sample_checkpoint p = \<lparr>ck_participant = p, ck_component_identity = sample_component p,
     ck_chain_head = \<lparr>ch_sequence = 1, ch_digest = sample_component p\<rparr>, ck_blob_root = sample_component p,
     ck_config_identity = sample_component p, ck_schema_identity = sample_component p, ck_profile_identity = sample_component p,
     ck_build_identity = sample_component p, ck_quiescence_attestation = sample_attestation p\<rparr>"

lemma checkpoint_json_clean: "json_clean (checkpoint_json c)"
  by (simp add: checkpoint_json_def checkpoint_fields_def digest_json_def chain_head_json_def chain_head_fields_def u64_json_def
      attestation_json_def attestation_fields_def epoch_json_def)

lemma sample_checkpoint_valid: "checkpoint_valid (sample_checkpoint p)"
  using sample_component_text [of p]
  by (simp add: checkpoint_valid_def sample_checkpoint_def attestation_valid_def sample_attestation_def canonical_identifier_def
      id_endpoint_def id_admitted_def list_all_iff ascii_defs)

definition sample_bytes :: "backup_participant \<Rightarrow> bytes" where
  "sample_bytes p = text_print (strict_tree (checkpoint_json (sample_checkpoint p)))"

definition sample_cut :: cut_row where
  "sample_cut = \<lparr>cu_cut_id = ''k'', cu_authority_domain = ''site'', cu_epoch = 1, cu_quiescence_barrier_id = ''b'',
     cu_state = ''prepared'', cu_begin_request_digest = ''d'', cu_begin_event = (1, ''e''), cu_manifest_digest = None,
     cu_seal_event = None, cu_release_bundle_digest = None, cu_release_event = None, cu_abort_reason = None, cu_abort_event = None,
     cu_created_at_unix_ms = 7, cu_updated_at_unix_ms = 7\<rparr>"

fun sample_prepared_row :: "backup_participant \<Rightarrow> participant_row" where
  "sample_prepared_row p = \<lparr>pr_cut_id = ''k'', pr_participant = participant_str p,
     pr_component_identity = as_str (sample_component p), pr_checkpoint = Some (sample_bytes p,
       as_str (checkpoint_digest_of tail_env (sample_bytes p)), 2 + int (participant_rank p), as_str (sample_component p))\<rparr>"

definition sample_prepared :: store_db where
  "sample_prepared = db_new\<lparr>db_cuts := [sample_cut], db_participants := map sample_prepared_row required_participants,
     db_events := map (\<lambda>(n, d). (sample_row ''e'' ''p'' ''s'')\<lparr>ev_sequence := n, ev_event_digest := d\<rparr>)
       ((1, ''e'') # map (\<lambda>p. (2 + int (participant_rank p), as_str (sample_component p))) required_participants)\<rparr>"

lemma sample_find: "find_participant sample_prepared ''k'' p = Some (sample_prepared_row p)"
  by (cases p) (simp_all add: find_participant_def sample_prepared_def required_participants_def)

lemma sample_bound: "bound_checkpoint tail_env sample_cut (sample_prepared_row p) (sample_checkpoint p)"
proof -
  have "attested_for sample_cut (sample_checkpoint p)"
    by (simp add: attested_for_def attestation_validate_for_def sample_cut_def sample_checkpoint_def sample_attestation_def)
  moreover have "ck_participant (sample_checkpoint p) = p" "ck_component_identity (sample_checkpoint p) = sample_component p"
    by (simp_all add: sample_checkpoint_def)
  moreover have "2 + int (participant_rank p) < 2 ^ 64" by (cases p) simp_all
  ultimately show ?thesis
    using sample_checkpoint_valid [of p] sample_component_text [of p] tail_env_canonical [OF checkpoint_json_clean, of "sample_checkpoint p"]
    by (simp add: bound_checkpoint_def sample_bytes_def)
qed

lemma sample_prepared_ok: "backup_ok tail_env sample_prepared" "find_cut sample_prepared ''k'' = Some sample_cut"
proof -
  have d: "distinct (map sample_component required_participants)" by (simp add: required_participants_def)
  have cuts: "cuts_ok (db_events sample_prepared) (db_cuts sample_prepared)"
    by (simp add: sample_prepared_def cuts_ok_def cut_row_ok_def sample_cut_def event_column_ok_def present_def required_participants_def)
  moreover have "participants_ok (db_events sample_prepared) (db_cuts sample_prepared) (db_participants sample_prepared)"
    by (simp add: sample_prepared_def participants_ok_def sample_cut_def event_column_ok_def present_def checkpoint_event_def
        required_participants_def)
  moreover have "cut_complete tail_env sample_prepared sample_cut"
  proof -
    have "prepared_roles sample_prepared ''k'' = required_participants" by (simp add: prepared_roles_def sample_find)
    then show ?thesis
      using sample_find sample_bound
      by (auto simp: cut_complete_def sample_cut_def required_all(3) canonical_identifier_def id_endpoint_def id_admitted_def ascii_defs)
  qed
  ultimately show "backup_ok tail_env sample_prepared" by (simp add: backup_ok_def) (simp add: sample_prepared_def)
  show "find_cut sample_prepared ''k'' = Some sample_cut" by (simp add: find_cut_def sample_prepared_def sample_cut_def)
qed

section \<open>Properties\<close>

text \<open>
  C13: whatever appends and backup operations run, in whatever order and with whatever outcome, a
  store that verifies still verifies against its identity, at most one cut is active, every recorded
  checkpoint is the canonical text of a checkpoint attested for its cut, domain, epoch and barrier by
  the component registered for that role, and a prepared, sealed or released cut has all three.
\<close>

theorem backup_store_invariant:
  assumes E: "codec_ok E" "faithful_printer E" and ok: "store_ok E identity db" "backup_ok E db"
    and v: "list_all op_valid ops"
  shows "store_ok E identity (store_run E db ops) \<and> backup_ok E (store_run E db ops)"
  by (rule run_induct [where I = "\<lambda>d. store_ok E identity d \<and> backup_ok E d", OF _ v])
    (use ok transition_store_ok [OF E] transition_backup_ok [OF E(1)] in auto)

theorem backup_store_invariant_witness:
  "let ops = [OpBegin sample_begin, OpAppend (sample_event ''a'' ''p'') (JStr ''s'') 0, OpPrepare ''k'' (sample_checkpoint Agd) 8,
     OpAbort ''k'' ''operator'' 9] in
   store_ok tail_env sample_store_identity (store_run tail_env sample_store ops) \<and> backup_ok tail_env (store_run tail_env sample_store ops)"
proof -
  have b: "backup_ok tail_env sample_store"
    by (simp add: backup_ok_def sample_store_tables cuts_ok_def participants_ok_def event_column_ok_def present_def)
  show ?thesis
    unfolding Let_def
    by (rule backup_store_invariant [OF tail_env_codec _ sample_store_ok b])
      (use sample_begin_ok(3) sample_checkpoint_valid in \<open>simp_all add: faithful_printer_def tail_env_reads_back\<close>)
qed

text \<open>
  C15: the backup operations implement the cut life cycle.  Over any run the history of each cut is a
  run of the abstract life cycle begin, prepare each role once, seal, release, with abort possible
  before release; so a cut sees at most seven durable moves however often operations are retried, and
  a released or aborted cut never changes again.
\<close>

theorem backup_cut_refines:
  assumes E: "codec_ok E" and ok: "backup_ok E db" and v: "list_all op_valid ops"
  shows "\<exists>es. run_events cut_step (cut_phase_of db k) es = Ok (cut_phase_of (store_run E db ops) k) \<and> length es \<le> 7 \<and>
    (cut_over (cut_phase_of db k) \<longrightarrow> cut_phase_of (store_run E db ops) k = cut_phase_of db k)"
proof -
  have "backup_ok E (store_run E db ops) \<and> cut_runs k db (store_run E db ops)"
  proof (rule run_induct [where I = "\<lambda>d. backup_ok E d \<and> cut_runs k db d", OF _ v])
    have "run_events cut_step (cut_phase_of db k) [] = Inr (cut_phase_of db k)" by simp
    then show "backup_ok E db \<and> cut_runs k db db" using ok unfolding cut_runs_def by blast
  qed (use transition_backup_ok [OF E] transition_runs [OF E] in auto)
  then obtain es where es: "run_events cut_step (cut_phase_of db k) es = Inr (cut_phase_of (store_run E db ops) k)"
    by (auto simp: cut_runs_def)
  moreover have "cut_phase_of (store_run E db ops) k = cut_phase_of db k" if "cut_over (cut_phase_of db k)"
    using backup_cuts.terminal_run_empty [OF that es] es by simp
  ultimately show ?thesis using backup_cuts.run_length_bound by blast
qed

theorem backup_cut_refines_witness:
  "\<exists>es. run_events cut_step (cut_phase_of sample_prepared ''k'') es =
     Inr (cut_phase_of (store_run tail_env sample_prepared [OpAbort ''k'' ''operator'' 9, OpBegin sample_begin]) ''k'') \<and> length es \<le> 7"
proof -
  have "list_all op_valid [OpAbort ''k'' ''operator'' 9, OpBegin sample_begin]" using sample_begin_ok(3) by simp
  from backup_cut_refines [OF tail_env_codec sample_prepared_ok(1) this, of "''k''"] show ?thesis by blast
qed

text \<open>
  C14: an active cut fences the store.  Until it is released or aborted it stays the one active cut,
  whatever other operations are attempted; every ordinary append or pair of appends is refused
  without effect, an admissible append by naming the cut; and no entity other than the cut's own
  changes state.
\<close>

theorem backup_barrier_fences:
  assumes E: "codec_ok E" and ok: "backup_ok E db" and k: "active_backup_cut db = Some k" and v: "list_all op_valid ops"
    and going: "list_all (\<lambda>op. op_move op \<notin> {CutMove k CeRelease, CutMove k CeAbort}) ops"
  shows "active_backup_cut (store_run E db ops) = Some k \<and>
    (\<forall>op. \<not> cut_op op \<longrightarrow> (\<exists>e. store_step E (store_run E db ops) op = (Err e, store_run E db ops))) \<and>
    (\<forall>event state n. validate_event event = Ok () \<longrightarrow>
       append_event E event state n (store_run E db ops) = (Err (SeBackupBarrierActive k), store_run E db ops)) \<and>
    (\<forall>x. x \<noteq> backup_entity_id k \<longrightarrow> find_state (store_run E db ops) x = find_state db x)"
proof -
  let ?I = "\<lambda>d. backup_ok E d \<and> active_backup_cut d = Some k \<and> (\<forall>x. x \<noteq> backup_entity_id k \<longrightarrow> find_state d x = find_state db x)"
  have I: "?I (store_run E db ops)"
  proof (rule run_induct [where I = ?I, OF _ v])
    fix op m d d' assume op: "op \<in> set ops" "m = op_move op" and t: "transition E d m d'" and I: "?I d"
    obtain e where e: "m = CutMove k e" "e \<notin> {CeRelease, CeAbort} \<longrightarrow> active_backup_cut d' = Some k"
      using transition_active [OF E t] I by blast
    then have "active_backup_cut d' = Some k" using going op by (auto simp: list_all_iff)
    then show "?I d'" using I transition_backup_ok [OF E t] transition_states [OF t [unfolded e(1)]] by simp
  qed (use ok k in simp)
  then have "ensure_no_backup_barrier (store_run E db ops) = Inl (SeBackupBarrierActive k)" by (simp add: ensure_no_backup_barrier_def)
  then show ?thesis using I ordinary_refused by (simp add: append_event_def transaction_def)
qed

theorem backup_barrier_fences_witness:
  "append_event tail_env (sample_event ''a'' ''p'') (JStr ''s'') 0 (store_run tail_env sample_prepared [OpBegin sample_begin]) =
     (Inl (SeBackupBarrierActive ''k''), store_run tail_env sample_prepared [OpBegin sample_begin])"
proof -
  have k: "active_backup_cut sample_prepared = Some ''k''" by (simp add: active_backup_cut_def sample_prepared_def sample_cut_def)
  have v: "list_all op_valid [OpBegin sample_begin]" using sample_begin_ok(3) by simp
  have g: "list_all (\<lambda>op. op_move op \<notin> {CutMove ''k'' CeRelease, CutMove ''k'' CeAbort}) [OpBegin sample_begin]" by simp
  have e: "validate_event (sample_event ''a'' ''p'') = Inr ()" by (simp add: validate_event_def sample_event_def store_identifier_def ascii_defs)
  show ?thesis using backup_barrier_fences [OF tail_env_codec sample_prepared_ok(1) k v g] e by blast
qed

text \<open>
  C16: every backup operation may be retried at any later time.  Once it has succeeded, repeating the
  same request after any sequence of other operations returns the original receipt and changes
  nothing.
\<close>

theorem backup_retry_exact:
  assumes E: "codec_ok E" and num: "store_numbered db" and ok: "backup_ok E db" and op: "op_valid op" "cut_op op"
    and s: "store_step E db op = (Ok rs, db')" and v: "list_all op_valid ops"
  shows "store_step E (store_run E db' ops) op = (Ok rs, store_run E db' ops)"
proof -
  have "backup_ok E db' \<and> store_numbered db'"
    by (rule step_induct [where I = "\<lambda>d. backup_ok E d \<and> store_numbered d", OF s op(1)])
      (use ok num transition_backup_ok [OF E] transition_numbered in auto)
  then show ?thesis using run_grows [OF E v] retry_step [OF E num s op(2)] by blast
qed

theorem backup_retry_exact_witness:
  "\<exists>r. store_step tail_env sample_store (OpBegin sample_begin) = (Inr [r], sample_begun) \<and>
     store_step tail_env (store_run tail_env sample_begun [OpAbort ''k'' ''operator'' 9]) (OpBegin sample_begin) =
       (Inr [r], store_run tail_env sample_begun [OpAbort ''k'' ''operator'' 9])"
proof -
  from sample_begun_ok(1) obtain r where "begin_backup_cut tail_env sample_begin sample_store = (Inr r, sample_begun)" by blast
  then have s: "store_step tail_env sample_store (OpBegin sample_begin) = (Inr [r], sample_begun)" by simp
  have b: "backup_ok tail_env sample_store"
    by (simp add: backup_ok_def sample_store_tables cuts_ok_def participants_ok_def event_column_ok_def present_def)
  have num: "store_numbered sample_store" using sample_store_ok by (simp add: store_ok_def)
  have "store_step tail_env (store_run tail_env sample_begun [OpAbort ''k'' ''operator'' 9]) (OpBegin sample_begin) =
      (Inr [r], store_run tail_env sample_begun [OpAbort ''k'' ''operator'' 9])"
    by (rule backup_retry_exact [OF tail_env_codec num b sample_begin_ok(3) _ s]) simp_all
  with s show ?thesis by blast
qed

text \<open>
  C17: the manifest of a cut can be built exactly when all three participants have prepared, that is
  in the states prepared, sealed and released.  It then names the cut's domain, epoch and barrier and
  lists the three roles in order, each with the checkpoint whose canonical text was recorded and the
  event that recorded it; in the other states it is refused.
\<close>

theorem backup_manifest_exact:
  assumes E: "codec_ok E" "faithful_printer E" and ok: "backup_ok E db" and c: "find_cut db k = Some c"
  shows "if cu_state c \<in> {''prepared'', ''sealed'', ''released''}
    then \<exists>m. build_backup_manifest E db k = Ok m \<and> mf_version m = ''backup-cut/v1'' \<and> mf_cut_id m = k \<and>
      mf_authority_domain m = AuthorityDomainId (cu_authority_domain c) \<and> uint (epoch_get (mf_epoch m)) = cu_epoch c \<and>
      mf_quiescence_barrier_id m = cu_quiescence_barrier_id c \<and>
      list_all2 (prepared_as E db c) required_participants (mf_participants m)
    else build_backup_manifest E db k = Err SeBackupNotPrepared"
proof (cases "cu_state c \<in> {''prepared'', ''sealed'', ''released''}")
  case True
  then show ?thesis using build_Ok [OF E ok c] by simp
next
  case False
  obtain s where s: "cu_state c = cut_state_str s" using backup_ok_state [OF ok c] by blast
  then have "cut_state_from_str (cu_state c) = Inr s" by (simp add: cut_state_from_str_iff)
  then show ?thesis using False s by (cases s) (simp_all add: build_backup_manifest_def c ok_or_def)
qed

theorem backup_manifest_exact_witness:
  "\<exists>m. build_backup_manifest tail_env sample_prepared ''k'' = Inr m \<and> mf_cut_id m = ''k'' \<and>
     list_all2 (prepared_as tail_env sample_prepared sample_cut) required_participants (mf_participants m)"
  using backup_manifest_exact [OF tail_env_codec _ sample_prepared_ok]
  by (auto simp: faithful_printer_def tail_env_reads_back sample_cut_def)

end
