(* ===== verification/AG_Bundle.thy ===== *)
theory AG_Bundle
  imports AG_Cut
begin

text \<open>
  The coherent bundle of \<open>crates/ag-store/src/lib.rs\<close>: the checks that three sealed captures belong
  to one cut, and the digest-bound bundle that is built from them and verified again on its own.
\<close>

section \<open>The coherent bundle\<close>

record sealed_capture =
  sc_schema :: string
  sc_cut_id :: string
  sc_participant :: backup_participant
  sc_component_identity :: digest
  sc_manifest_digest :: digest
  sc_cut_manifest :: backup_manifest
  sc_store_identity :: store_identity
  sc_captured_chain_head :: chain_head
  sc_blob_root :: digest
  sc_database :: blob_descriptor

record bundle_body =
  bb_schema :: string
  bb_cut_id :: string
  bb_authority_domain :: authority_domain_id
  bb_epoch :: epoch_id
  bb_quiescence_barrier_id :: string
  bb_components :: "sealed_capture list"

record coherent_bundle =
  cb_digest :: digest
  cb_body :: bundle_body

definition blob_descriptor_json :: "blob_descriptor \<Rightarrow> json" where
  "blob_descriptor_json d = JObj
     [(''digest'', digest_json (bd_digest d)), (''byte_length'', u64_json (bd_byte_length d))]"

definition capture_json :: "sealed_capture \<Rightarrow> json" where
  "capture_json c = JObj
     [(''schema'', JStr (sc_schema c)), (''cut_id'', JStr (sc_cut_id c)),
      (''participant'', JStr (participant_str (sc_participant c))),
      (''component_identity'', digest_json (sc_component_identity c)), (''manifest_digest'', digest_json (sc_manifest_digest c)),
      (''cut_manifest'', manifest_json (sc_cut_manifest c)), (''store_identity'', store_identity_json (sc_store_identity c)),
      (''captured_chain_head'', chain_head_json (sc_captured_chain_head c)), (''blob_root'', digest_json (sc_blob_root c)),
      (''database'', blob_descriptor_json (sc_database c))]"

definition bundle_body_json :: "bundle_body \<Rightarrow> json" where
  "bundle_body_json b = JObj
     [(''schema'', JStr (bb_schema b)), (''cut_id'', JStr (bb_cut_id b)),
      (''authority_domain'', JStr (domain_str (bb_authority_domain b))), (''epoch'', epoch_json (bb_epoch b)),
      (''quiescence_barrier_id'', JStr (bb_quiescence_barrier_id b)),
      (''components'', JArr (map capture_json (bb_components b)))]"

fun collect_checkpoints :: "(backup_participant \<times> backup_checkpoint) list \<Rightarrow> prepared_participant list
    \<Rightarrow> store_error + (backup_participant \<times> backup_checkpoint) list" where
  "collect_checkpoints acc [] = Ok acc"
| "collect_checkpoints acc (p # ps) =
     (let role = ck_participant (pp_checkpoint p) in
      if role \<in> fst ` set acc then Err SeIncoherentBackupBundle
      else collect_checkpoints (acc @ [(role, pp_checkpoint p)]) ps)"

definition checkpoint_bodies :: "backup_manifest \<Rightarrow> store_error + (backup_participant \<times> backup_checkpoint) list" where
  "checkpoint_bodies m =
     (if length (mf_participants m) \<noteq> length required_participants then Err SeIncoherentBackupBundle
      else res_bind (collect_checkpoints [] (mf_participants m)) (\<lambda>checkpoints.
        if set (map fst checkpoints) \<noteq> set required_participants then Err SeIncoherentBackupBundle
        else Ok (sort_key (participant_rank \<circ> fst) checkpoints)))"

text \<open>The body of the loop over the captures, with the roles and store identities seen so far.\<close>

definition capture_checks :: "env \<Rightarrow> bytes \<Rightarrow> backup_manifest \<Rightarrow> (backup_participant \<times> backup_checkpoint) list
    \<Rightarrow> backup_participant list \<Rightarrow> (u32 \<times> string) list \<Rightarrow> sealed_capture \<Rightarrow> store_error + unit" where
  "capture_checks E sql first expected roles identities c =
     res_bind (store_identity_validate E sql (sc_store_identity c)) (\<lambda>_.
     if sc_schema c \<noteq> ''ag-store-sealed-database-capture-v1'' \<or> bd_byte_length (sc_database c) = 0 \<or>
       sc_cut_id c \<noteq> mf_cut_id (sc_cut_manifest c) \<or> mf_version (sc_cut_manifest c) \<noteq> ''backup-cut/v1'' \<or>
       mf_cut_id (sc_cut_manifest c) \<noteq> mf_cut_id first \<or>
       mf_authority_domain (sc_cut_manifest c) \<noteq> mf_authority_domain first \<or>
       mf_epoch (sc_cut_manifest c) \<noteq> mf_epoch first \<or>
       mf_quiescence_barrier_id (sc_cut_manifest c) \<noteq> mf_quiescence_barrier_id first
     then Err SeIncoherentBackupBundle
     else
     res_bind (manifest_digest_of E (sc_cut_manifest c)) (\<lambda>d.
     if d \<noteq> sc_manifest_digest c \<or> sc_participant c \<in> set roles \<or>
       (si_application_id (sc_store_identity c), si_application_name (sc_store_identity c)) \<in> set identities
     then Err SeIncoherentBackupBundle
     else
     res_bind (checkpoint_bodies (sc_cut_manifest c)) (\<lambda>checkpoints.
     if checkpoints \<noteq> expected then Err SeIncoherentBackupBundle
     else
     res_bind (ok_or SeIncoherentBackupBundle (map_of checkpoints (sc_participant c))) (\<lambda>own.
     if ck_component_identity own \<noteq> sc_component_identity c \<or> ck_blob_root own \<noteq> sc_blob_root c \<or>
       ch_sequence (sc_captured_chain_head c) < ch_sequence (ck_chain_head own)
     then Err SeIncoherentBackupBundle else Ok ()))))"

fun check_captures :: "env \<Rightarrow> bytes \<Rightarrow> backup_manifest \<Rightarrow> (backup_participant \<times> backup_checkpoint) list
    \<Rightarrow> backup_participant list \<Rightarrow> (u32 \<times> string) list \<Rightarrow> sealed_capture list \<Rightarrow> store_error + backup_participant list" where
  "check_captures E sql first expected roles identities [] = Ok roles"
| "check_captures E sql first expected roles identities (c # cs) =
     res_bind (capture_checks E sql first expected roles identities c) (\<lambda>_.
     check_captures E sql first expected (sc_participant c # roles)
       ((si_application_id (sc_store_identity c), si_application_name (sc_store_identity c)) # identities) cs)"

definition validate_coherent_captures :: "env \<Rightarrow> bytes \<Rightarrow> sealed_capture list \<Rightarrow> store_error + unit" where
  "validate_coherent_captures E sql captures =
     (if length captures \<noteq> length required_participants then Err SeIncoherentBackupBundle
      else res_bind (checkpoint_bodies (sc_cut_manifest (hd captures))) (\<lambda>expected.
      res_bind (check_captures E sql (sc_cut_manifest (hd captures)) expected [] [] captures) (\<lambda>roles.
      if set roles \<noteq> set required_participants then Err SeIncoherentBackupBundle else Ok ())))"

definition bundle_digest_of :: "env \<Rightarrow> bundle_body \<Rightarrow> store_error + digest" where
  "bundle_digest_of E b = digest_jcs E ''ag-store-coherent-backup-bundle-v1'' (bundle_body_json b)"

definition coherent_bundle_new :: "env \<Rightarrow> bytes \<Rightarrow> sealed_capture list \<Rightarrow> store_error + coherent_bundle" where
  "coherent_bundle_new E sql components =
     res_bind (validate_coherent_captures E sql components) (\<lambda>_.
     let sorted = sort_key (participant_rank \<circ> sc_participant) components; first = sc_cut_manifest (hd sorted);
         body = \<lparr>bb_schema = ''ag-store-coherent-backup-bundle-v1'', bb_cut_id = mf_cut_id first,
           bb_authority_domain = mf_authority_domain first, bb_epoch = mf_epoch first,
           bb_quiescence_barrier_id = mf_quiescence_barrier_id first, bb_components = sorted\<rparr> in
     res_bind (bundle_digest_of E body) (\<lambda>d. Ok \<lparr>cb_digest = d, cb_body = body\<rparr>))"

definition coherent_bundle_verify :: "env \<Rightarrow> bytes \<Rightarrow> coherent_bundle \<Rightarrow> store_error + unit" where
  "coherent_bundle_verify E sql b =
     (let body = cb_body b; first = sc_cut_manifest (hd (bb_components body)) in
      res_bind (validate_coherent_captures E sql (bb_components body)) (\<lambda>_.
      if bb_schema body \<noteq> ''ag-store-coherent-backup-bundle-v1'' \<or>
        map sc_participant (bb_components body) \<noteq> required_participants \<or>
        (bb_components body = [] \<or> bb_cut_id body \<noteq> mf_cut_id first \<or>
          bb_authority_domain body \<noteq> mf_authority_domain first \<or> bb_epoch body \<noteq> mf_epoch first \<or>
          bb_quiescence_barrier_id body \<noteq> mf_quiescence_barrier_id first)
      then Err SeIncoherentBackupBundle
      else res_bind (bundle_digest_of E body) (\<lambda>d.
        if d \<noteq> cb_digest b then Err SeIncoherentBackupBundle else Ok ())))"

section \<open>Coherent bundles\<close>

definition store_name :: "sealed_capture \<Rightarrow> u32 \<times> string" where
  "store_name c = (si_application_id (sc_store_identity c), si_application_name (sc_store_identity c))"

definition same_cut :: "backup_manifest \<Rightarrow> backup_manifest \<Rightarrow> bool" where
  "same_cut m n \<longleftrightarrow> mf_cut_id m = mf_cut_id n \<and> mf_authority_domain m = mf_authority_domain n \<and> mf_epoch m = mf_epoch n \<and>
     mf_quiescence_barrier_id m = mf_quiescence_barrier_id n"

text \<open>One capture against the cut and the checkpoints all captures share.\<close>

definition capture_agrees :: "env \<Rightarrow> bytes \<Rightarrow> backup_manifest \<Rightarrow> (backup_participant \<times> backup_checkpoint) list \<Rightarrow> sealed_capture \<Rightarrow> bool" where
  "capture_agrees E sql m checkpoints c \<longleftrightarrow> store_identity_validate E sql (sc_store_identity c) = Inr () \<and>
     sc_schema c = ''ag-store-sealed-database-capture-v1'' \<and> bd_byte_length (sc_database c) \<noteq> 0 \<and>
     sc_cut_id c = mf_cut_id m \<and> mf_version (sc_cut_manifest c) = ''backup-cut/v1'' \<and> same_cut (sc_cut_manifest c) m \<and>
     manifest_digest_of E (sc_cut_manifest c) = Inr (sc_manifest_digest c) \<and>
     checkpoint_bodies (sc_cut_manifest c) = Inr checkpoints \<and>
     (\<exists>own. map_of checkpoints (sc_participant c) = Some own \<and> ck_component_identity own = sc_component_identity c \<and>
        ck_blob_root own = sc_blob_root c \<and> ch_sequence (ck_chain_head own) \<le> ch_sequence (sc_captured_chain_head c))"

lemma capture_checks_iff:
  "capture_checks E sql m T roles ids c = Inr () \<longleftrightarrow>
     capture_agrees E sql m T c \<and> sc_participant c \<notin> set roles \<and> store_name c \<notin> set ids"
  by (auto simp: capture_checks_def capture_agrees_def same_cut_def store_name_def ag_check ok_or_def not_less
      split: if_splits option.splits)

lemma check_captures_iff:
  "check_captures E sql m T roles ids cs = Inr rs \<longleftrightarrow>
     (\<forall>c \<in> set cs. capture_agrees E sql m T c) \<and> distinct (map sc_participant cs) \<and> distinct (map store_name cs) \<and>
     set (map sc_participant cs) \<inter> set roles = {} \<and> set (map store_name cs) \<inter> set ids = {} \<and> rs = rev (map sc_participant cs) @ roles"
proof (induction cs arbitrary: roles ids)
  case (Cons c cs)
  have "check_captures E sql m T roles ids (c # cs) = Inr rs \<longleftrightarrow>
      capture_checks E sql m T roles ids c = Inr () \<and> check_captures E sql m T (sc_participant c # roles) (store_name c # ids) cs = Inr rs"
    by (auto simp: ag_check store_name_def)
  then show ?case by (auto simp: Cons.IH capture_checks_iff)
qed auto

definition coherent_captures :: "env \<Rightarrow> bytes \<Rightarrow> sealed_capture list \<Rightarrow> bool" where
  "coherent_captures E sql cs \<longleftrightarrow> length cs = 3 \<and> distinct (map sc_participant cs) \<and> distinct (map store_name cs) \<and>
     (\<exists>m T. \<forall>c \<in> set cs. capture_agrees E sql m T c)"

lemma agrees_same: "same_cut m n \<Longrightarrow> capture_agrees E sql m T c = capture_agrees E sql n T c"
  by (simp add: capture_agrees_def same_cut_def)

lemma validate_captures_iff: "validate_coherent_captures E sql cs = Inr () \<longleftrightarrow> coherent_captures E sql cs"
proof
  assume "validate_coherent_captures E sql cs = Inr ()"
  then show "coherent_captures E sql cs"
    by (auto simp: validate_coherent_captures_def coherent_captures_def check_captures_iff required_all ag_check split: if_splits)
next
  assume c: "coherent_captures E sql cs"
  then obtain m T where len: "length cs = 3" and d: "distinct (map sc_participant cs)" "distinct (map store_name cs)"
    and all: "\<forall>c \<in> set cs. capture_agrees E sql m T c" by (auto simp: coherent_captures_def)
  let ?m = "sc_cut_manifest (hd cs)"
  have "hd cs \<in> set cs" using len by (cases cs) auto
  with all have hd: "same_cut ?m m" "checkpoint_bodies ?m = Inr T" by (auto simp: capture_agrees_def)
  then have "\<forall>c \<in> set cs. capture_agrees E sql ?m T c" using all agrees_same by blast
  then have check: "check_captures E sql ?m T [] [] cs = Inr (rev (map sc_participant cs))" using d by (simp add: check_captures_iff)
  have "card (set (map sc_participant cs)) = 3" using d(1) len by (metis distinct_card length_map)
  then have "set (map sc_participant cs) = set required_participants"
    using required_all by (intro card_subset_eq) (auto simp: distinct_card)
  then show "validate_coherent_captures E sql cs = Inr ()"
    using len hd(2) by (simp add: validate_coherent_captures_def required_all(3) check)
qed

lemma distinct_map_set: "set ds = set cs \<Longrightarrow> length ds = length cs \<Longrightarrow> distinct (map f cs) \<Longrightarrow> distinct (map f ds)"
  by (metis card_distinct distinct_card length_map list.set_map)

lemma coherent_set:
  assumes "coherent_captures E sql cs" and "set ds = set cs" and "length ds = length cs"
  shows "coherent_captures E sql ds"
  using assms distinct_map_set [OF assms(2,3), of sc_participant] distinct_map_set [OF assms(2,3), of store_name]
  by (simp add: coherent_captures_def)

lemma participant_order:
  assumes "coherent_captures E sql cs"
  shows "map sc_participant (sort_key (participant_rank \<circ> sc_participant) cs) = required_participants"
proof -
  let ?cs = "sort_key (participant_rank \<circ> sc_participant) cs"
  have c: "coherent_captures E sql ?cs" by (rule coherent_set [OF assms]) simp_all
  have inj: "inj participant_rank"
  proof (rule injI)
    fix a b assume "participant_rank a = participant_rank b"
    then show "a = b" by (cases a; cases b) simp_all
  qed
  let ?rs = "map participant_rank (map sc_participant ?cs)"
  have d: "distinct (map sc_participant ?cs)" "length ?cs = 3" using c by (auto simp: coherent_captures_def)
  have "distinct ?rs" using d(1) inj by (simp only: distinct_map) (auto intro: inj_on_subset)
  moreover have "sorted ?rs" by (simp add: comp_def)
  have s: "set (map sc_participant ?cs) = set required_participants"
  proof (rule card_subset_eq)
    show "card (set (map sc_participant ?cs)) = card (set required_participants)"
      using d required_all(2,3) by (metis distinct_card length_map)
  qed (use required_all(1) in auto)
  moreover have "set ?rs = set (map participant_rank required_participants)" using s by (simp only: set_map)
  ultimately have "?rs = map participant_rank required_participants"
    by (intro sorted_distinct_set_unique) (simp_all add: required_participants_def)
  then show ?thesis using inj by (simp only: inj_map_eq_map)
qed

lemma bundle_new_Ok:
  assumes "coherent_bundle_new E sql cs = Inr b"
  shows "coherent_captures E sql cs" and "bb_components (cb_body b) = sort_key (participant_rank \<circ> sc_participant) cs"
    and "coherent_bundle_verify E sql b = Inr ()"
    and "\<And>m T. \<forall>c \<in> set cs. capture_agrees E sql m T c \<Longrightarrow> bb_cut_id (cb_body b) = mf_cut_id m \<and>
      bb_authority_domain (cb_body b) = mf_authority_domain m \<and> bb_epoch (cb_body b) = mf_epoch m \<and>
      bb_quiescence_barrier_id (cb_body b) = mf_quiescence_barrier_id m"
proof -
  let ?cs = "sort_key (participant_rank \<circ> sc_participant) cs" and ?m = "sc_cut_manifest (hd (sort_key (participant_rank \<circ> sc_participant) cs))"
  from assms obtain d where v: "validate_coherent_captures E sql cs = Inr ()" and body: "cb_body b = \<lparr>bb_schema = ''ag-store-coherent-backup-bundle-v1'',
      bb_cut_id = mf_cut_id ?m, bb_authority_domain = mf_authority_domain ?m, bb_epoch = mf_epoch ?m,
      bb_quiescence_barrier_id = mf_quiescence_barrier_id ?m, bb_components = ?cs\<rparr>"
    and d: "bundle_digest_of E (cb_body b) = Inr d" "cb_digest b = d"
    by (auto simp: coherent_bundle_new_def ag_check Let_def)
  show c: "coherent_captures E sql cs" using v by (simp add: validate_captures_iff)
  show "bb_components (cb_body b) = ?cs" by (simp add: body)
  have v': "validate_coherent_captures E sql ?cs = Inr ()"
    unfolding validate_captures_iff by (rule coherent_set [OF c]) simp_all
  have ne: "?cs \<noteq> []" using c by (auto simp: coherent_captures_def simp flip: length_0_conv)
  show "coherent_bundle_verify E sql b = Inr ()"
    using v' ne d by (simp add: coherent_bundle_verify_def body participant_order [OF c])
  have "hd ?cs \<in> set cs" using ne hd_in_set [of ?cs] by simp
  then show "bb_cut_id (cb_body b) = mf_cut_id m \<and> bb_authority_domain (cb_body b) = mf_authority_domain m \<and> bb_epoch (cb_body b) = mf_epoch m \<and>
      bb_quiescence_barrier_id (cb_body b) = mf_quiescence_barrier_id m" if "\<forall>c \<in> set cs. capture_agrees E sql m T c" for m T
    using that by (auto simp: body capture_agrees_def same_cut_def)
qed

definition sample_manifest :: backup_manifest where
  "sample_manifest = \<lparr>mf_version = ''backup-cut/v1'', mf_cut_id = ''k'', mf_authority_domain = AuthorityDomainId ''site'',
     mf_epoch = EpochId 1, mf_quiescence_barrier_id = ''b'',
     mf_participants = map (\<lambda>p. \<lparr>pp_checkpoint = sample_checkpoint p, pp_prepared_event_sequence = 2,
       pp_prepared_event_digest = sample_component p\<rparr>) required_participants\<rparr>"

definition sample_capture :: "backup_participant \<Rightarrow> sealed_capture" where
  "sample_capture p = \<lparr>sc_schema = ''ag-store-sealed-database-capture-v1'', sc_cut_id = ''k'', sc_participant = p,
     sc_component_identity = sample_component p, sc_manifest_digest = hash_domain tail_env ''ag-store-backup-manifest-v1''
       (text_print (strict_tree (manifest_json sample_manifest))), sc_cut_manifest = sample_manifest,
     sc_store_identity = sample_store_identity\<lparr>si_application_id := 1 + of_nat (participant_rank p)\<rparr>,
     sc_captured_chain_head = \<lparr>ch_sequence = 5, ch_digest = sample_component p\<rparr>, sc_blob_root = sample_component p,
     sc_database = \<lparr>bd_digest = sample_component p, bd_byte_length = 1\<rparr>\<rparr>"

lemma manifest_json_clean: "json_clean (manifest_json m)"
  using checkpoint_json_clean
  by (auto simp: manifest_json_def prepared_json_def list_all_iff epoch_json_def u64_json_def digest_json_def)

lemma capture_json_clean: "json_clean (capture_json c)"
  using manifest_json_clean [of "sc_cut_manifest c"]
  by (simp add: capture_json_def digest_json_def store_identity_json_def chain_head_json_def chain_head_fields_def u64_json_def
      blob_descriptor_json_def)

lemma sample_captures_coherent: "coherent_captures tail_env ''schema'' (map sample_capture required_participants)"
proof -
  have "capture_agrees tail_env ''schema'' sample_manifest (map (\<lambda>p. (p, sample_checkpoint p)) required_participants) (sample_capture p)" for p
  proof -
    have "store_identity_validate tail_env ''schema'' (sc_store_identity (sample_capture p)) = Inr ()"
      using sample_identity_ok(1) by (cases p) (auto simp: store_identity_validate_def sample_capture_def sample_store_identity_def)
    moreover have "manifest_digest_of tail_env sample_manifest = Inr (sc_manifest_digest (sample_capture p))"
      by (simp add: manifest_digest_of_def digest_jcs_def store_jcs_def tail_env_canonical [OF manifest_json_clean] sample_capture_def)
    moreover have "checkpoint_bodies sample_manifest = Inr (map (\<lambda>p. (p, sample_checkpoint p)) required_participants)"
      by (simp add: checkpoint_bodies_def sample_manifest_def sample_checkpoint_def required_participants_def)
    ultimately show ?thesis
      by (cases p) (simp_all add: capture_agrees_def sample_capture_def same_cut_def sample_manifest_def sample_checkpoint_def required_participants_def)
  qed
  then have "\<exists>m T. \<forall>c \<in> set (map sample_capture required_participants). capture_agrees tail_env ''schema'' m T c" by auto
  moreover have "distinct (map store_name (map sample_capture required_participants))"
    by (simp add: store_name_def sample_capture_def required_participants_def)
  ultimately show ?thesis
    unfolding coherent_captures_def by (simp add: required_all sample_capture_def comp_def)
qed

lemma sample_bundle: "\<exists>b. coherent_bundle_new tail_env ''schema'' (map sample_capture required_participants) = Inr b"
proof -
  have "json_clean (bundle_body_json b)" for b
    using capture_json_clean by (auto simp: bundle_body_json_def list_all_iff epoch_json_def u64_json_def)
  then show ?thesis
    using validate_captures_iff [THEN iffD2, OF sample_captures_coherent]
    by (simp add: coherent_bundle_new_def bundle_digest_of_def digest_jcs_def store_jcs_def tail_env_canonical Let_def)
qed

section \<open>Properties\<close>

text \<open>
  C18: a coherent bundle can be built only from three captures of one cut: one capture per role and
  three different stores, all with the same cut, domain, epoch, barrier and the same three
  checkpoints, each capture with the component identity and blob root of its own checkpoint, a chain
  head at or past it and the digest of its own manifest.  The bundle lists them in role order and its
  own verification accepts it.
\<close>

theorem backup_bundle_coherent:
  assumes new: "coherent_bundle_new E sql captures = Ok b"
  shows "coherent_bundle_verify E sql b = Ok () \<and> set (bb_components (cb_body b)) = set captures \<and>
    map sc_participant (bb_components (cb_body b)) = required_participants \<and> distinct (map store_name (bb_components (cb_body b))) \<and>
    (\<exists>m T. (\<forall>c \<in> set captures. capture_agrees E sql m T c) \<and> bb_cut_id (cb_body b) = mf_cut_id m \<and>
      bb_authority_domain (cb_body b) = mf_authority_domain m \<and> bb_epoch (cb_body b) = mf_epoch m \<and>
      bb_quiescence_barrier_id (cb_body b) = mf_quiescence_barrier_id m)"
proof -
  note b = bundle_new_Ok [OF new]
  from b(1) obtain m T where "\<forall>c \<in> set captures. capture_agrees E sql m T c" by (auto simp: coherent_captures_def)
  moreover have "distinct (map store_name (bb_components (cb_body b)))"
    using coherent_set [OF b(1), of "bb_components (cb_body b)"] by (simp add: b(2) coherent_captures_def)
  ultimately show ?thesis using b(2-4) participant_order [OF b(1)] by auto
qed

theorem backup_bundle_coherent_witness:
  "\<exists>b. coherent_bundle_new tail_env ''schema'' (map sample_capture required_participants) = Inr b \<and>
     coherent_bundle_verify tail_env ''schema'' b = Inr () \<and> map sc_participant (bb_components (cb_body b)) = required_participants"
proof -
  from sample_bundle obtain b where b: "coherent_bundle_new tail_env ''schema'' (map sample_capture required_participants) = Inr b" by blast
  then show ?thesis using backup_bundle_coherent [OF b] by blast
qed

end
