(* ===== verification/Spec2Isabelle.thy ===== *)
theory Spec2Isabelle
  imports AG_Digest AG_Origin AG_Inference AG_Identity AG_Capability AG_Judgment AG_Family
    AG_Authority AG_Recomposition AG_Correspondence AG_Session AG_Worker
    AG_Paths AG_Effect AG_Candidate AG_Proposal AG_Compile AG_Mandate
    AG_Protocol AG_Wire AG_Docket AG_Derived AG_Rpc AG_Store AG_Backup AG_Cut AG_Bundle
begin

text \<open>
  A verification development for AG-ng, a governor that separates what an untrusted worker may
  propose from what the host may do.

  \<^bold>\<open>The program.\<close>  Workers run in sessions and hand over candidates; they hold no authority.  A
  governor turns a candidate into a proposal intent.  The effect broker compiles the intent, with
  its own catalog and its own observations, into canonical bytes; a human ratifies exactly those
  bytes or has installed a bounded mandate; the broker burns the authorization once and executes
  once.  Authority itself is never stored: it is reconstructed by replaying four append-only
  books, and a stored record only names what the replay must produce.

  \<^bold>\<open>Theories and sources\<close> (paths under \<open>src/crates/\<close>).
  \<^item> \<open>AG_Prelude\<close>: Rust results, ordered maps, character classes, event runs, and the interfaces
    \<open>lifecycle\<close>, \<open>ranked_lifecycle\<close>, \<open>burning_ledger\<close>, \<open>one_use_ledger\<close>, \<open>metered_ledger\<close>.
  \<^item> \<open>AG_Digest\<close> (\<open>ag-primitives/src/digest.rs\<close>): digests, domain separation, the strict JSON policy.
  \<^item> \<open>AG_Origin\<close> (\<open>origin.rs\<close>): identifiers, epochs, nonces, book references and their wire form.
  \<^item> \<open>AG_Inference\<close>, \<open>AG_Capability\<close> (\<open>capability.rs\<close>): budgets and inference capabilities.
  \<^item> \<open>AG_Identity\<close> (\<open>identity.rs\<close>): principals, principal chains, separation of duties.
  \<^item> \<open>AG_Judgment\<close>, \<open>AG_Family\<close>, \<open>AG_Authority\<close> (\<open>ag-kernel/src/judgment.rs\<close>, \<open>family.rs\<close>,
    \<open>authority.rs\<close>): judgments, replay of the four books, the effect crossing, reconstruction.
  \<^item> \<open>AG_Recomposition\<close> (\<open>path.rs\<close>, \<open>recomposition.rs\<close>), \<open>AG_Correspondence\<close>
    (\<open>correspondence.rs\<close>): recomposition of boundary slices, the calculus decision ledger.
  \<^item> \<open>AG_Session\<close>, \<open>AG_Worker\<close> (\<open>ag-session/src/lib.rs\<close>): batch sessions, worker records, custody.
  \<^item> \<open>AG_Paths\<close>, \<open>AG_Effect\<close>, \<open>AG_Candidate\<close>, \<open>AG_Proposal\<close>, \<open>AG_Compile\<close>, \<open>AG_Mandate\<close>
    (\<open>ag-effect/src/lib.rs\<close>): path policy, effect data, prepared candidates and ratification, the
    proposal lifecycle, the compiler, host mandates.
  \<^item> \<open>AG_Protocol\<close> (\<open>ag-protocol/src/lib.rs\<close>): envelopes, strict decoding, frames.
  \<^item> \<open>AG_Wire\<close>: printing and strict reading of wire structs, with the interfaces \<open>wire_codec\<close>
    and \<open>tree_codec\<close>.
  \<^item> \<open>AG_Docket\<close> (\<open>ag-app/src/docket_issuance.rs\<close>): the issuance office.
  \<^item> \<open>AG_Derived\<close> (\<open>ag-app/src/derived.rs\<close>): promotion authority derived from a pinned verifier, with
    the contract \<open>derived_burn_store\<close> of its burn store.
  \<^item> \<open>AG_Rpc\<close> (\<open>ag-app/src/rpc_auth.rs\<close>): the authenticated local exchange and its replay guard, with the
    interfaces \<open>timed_ledger\<close> and \<open>timed_client\<close>.
  \<^item> \<open>AG_Store\<close> (\<open>ag-store/src/lib.rs\<close>): the event store, from opening and enrolment to appends and
    verification of the hash chain; \<open>AG_Backup\<close>: its backup cut; \<open>AG_Cut\<close>: runs of its operations;
    \<open>AG_Bundle\<close>: the coherent bundle of three captures.

  \<^bold>\<open>Correspondence.\<close>  A Rust struct is a record with the field names behind a short prefix, an enum
  a datatype, \<open>u32\<close> and \<open>u64\<close> are words, a \<open>BTreeMap\<close> an ascending association list, a byte string
  or \<open>str\<close> a \<open>string\<close>.  A \<open>Result\<close> is a sum with the error on the left; a chain of \<open>?\<close> operators is a
  chain of \<open>res_bind\<close> in source order, so the first failing check decides the error.  A method
  that changes its receiver returns the receiver; the ledgers return it also on failure.  The database
  of the store is a record of its tables; a statement is a function on it that fails where a
  constraint of the schema does, and a transaction keeps its effects only when it commits.

  \<^bold>\<open>Parameters.\<close>  SHA-256, the hex codec, the JCS printer and the JSON reader are the fields of
  \<open>env\<close>; \<open>codec_ok\<close> states their documented behaviour.  Base64 and Ed25519 are the fields of
  \<open>sign_env\<close> and of the signer.  Collision freedom is never assumed globally: each property names
  the finite set of preimages or trees on which it is needed.  \<open>sample_env\<close> and \<open>text_env\<close> are
  concrete instances, and every property with a hypothesis is applied to one of them.

  \<^bold>\<open>What is shown.\<close>  Every validator and decision is characterised on all inputs by an equivalence
  (digests, chains, capabilities, family decisions, the crossing, mandates, the docket office,
  path policy).  The state machines have invariants over all event sequences, finality of their
  terminal states and bounds on their length.  Ledgers grant each key once over any sequence of
  calls.  Identities bind: equal digests mean equal content, so ratification, authority and
  operation identities cannot be carried to another candidate, book or position.  Wire forms
  round-trip, and the two strict readers of the workspace agree.  The event store keeps a chain that
  verifies under every append, and its head commits to the whole history.  The backup operations
  implement a life cycle of at most seven moves per cut, fence every ordinary append while a cut is
  active, may be retried at any time, and lead to a manifest and a bundle that agree on one cut.

  \<^bold>\<open>Bounds.\<close>  All recursions are structural or have a termination proof; no fuel is used in the
  model of the program.  (\<open>text_read\<close>, part of the sample reader, has fuel one larger than its
  input, and \<open>text_read_print\<close> shows that this is enough.)  Word arithmetic is the checked
  arithmetic of the source.

  \<^bold>\<open>Not modelled.\<close>  The executor, SQLite itself, blobs, the daemons, launch and sandboxing of workers,
  socket transport, configuration, command line tools and the qualification harness: what they
  do is in operating-system calls, subprocesses and SQL statements.
\<close>

end
